(* ===== verification/Go_Prelude.thy ===== *)
theory Go_Prelude
  imports Main "HOL-Library.Word" "HOL-Library.Sublist"
begin

text \<open>
  What every component theory shares: the values of the Go language the sources use (errors,
  channels, byte strings, 64-bit integers), the functions of Go's standard library that the
  sources call on them, and the generic interface of a state machine.

  \<^item> A Go \<^verbatim>\<open>string\<close> or \<^verbatim>\<open>[]byte\<close> is a list of bytes, that is HOL's \<open>string\<close>.
  \<^item> A fallible call \<^verbatim>\<open>(T, error)\<close> returns \<open>go_error + 'a\<close>, \<open>Inl\<close> for the error.
  \<^item> A panic of the run-time system is a value of \<open>go_panic\<close>.
  \<^item> A channel is a record of its buffer, its capacity and its closed flag.
\<close>

section \<open>Collections of facts\<close>

named_theorems go_simps \<open>unfolding rules for the Go library functions of the model\<close>
named_theorems inv_simps \<open>definitions of the state invariants\<close>

section \<open>Errors and panics\<close>

text \<open>
  A sentinel error is compared by identity in Go (\<^verbatim>\<open>switch err { case sqlc.ErrNotFound: ... }\<close>);
  it is modelled by its qualified name. Other errors carry their text; an error that crossed an
  RPC boundary carries its status code. \<open>Panicked\<close> is a panic that unwinds a request handler: it
  ends the function like an error does, and the server framework recovers it.
\<close>

datatype go_panic =
    CloseOfClosedChannel | SendOnClosedChannel | IndexOutOfRange | NilDereference | TypeAssertion
  | PanicValue string

datatype go_error = Sentinel string | Errorf string | Status nat string | Panicked go_panic

type_synonym 'a result = "go_error + 'a"

abbreviation ok :: "'a \<Rightarrow> 'a result" where "ok \<equiv> Inr"

abbreviation is_ok :: "'a result \<Rightarrow> bool" where "is_ok r \<equiv> \<exists>x. r = Inr x"

text \<open>
  A stateful fallible call takes the world and returns the new world with its result. \<open>try_do m k\<close> is
  \<^verbatim>\<open>x, err := m(); if err != nil { return nil, err }; return k(x)\<close>.
\<close>

definition try_do :: "('w \<Rightarrow> 'w \<times> 'a result) \<Rightarrow> ('a \<Rightarrow> 'w \<Rightarrow> 'w \<times> 'b result) \<Rightarrow> 'w \<Rightarrow> 'w \<times> 'b result" where
  "try_do m k w = (case m w of (w', Inl e) \<Rightarrow> (w', Inl e) | (w', Inr x) \<Rightarrow> k x w')"

definition return_ok :: "'a \<Rightarrow> 'w \<Rightarrow> 'w \<times> 'a result" where
  "return_ok x w = (w, Inr x)"

definition return_err :: "go_error \<Rightarrow> 'w \<Rightarrow> 'w \<times> 'a result" where
  "return_err e w = (w, Inl e)"

lemma try_do_ok [simp]: "m w = (w', Inr x) \<Longrightarrow> try_do m k w = k x w'"
  by (simp add: try_do_def)

lemma try_do_err [simp]: "m w = (w', Inl e) \<Longrightarrow> try_do m k w = (w', Inl e)"
  by (simp add: try_do_def)

lemma return_simps [simp]: "return_ok x w = (w, Inr x)" "return_err e w = (w, Inl e)"
  by (simp_all add: return_ok_def return_err_def)

section \<open>Channels\<close>

record 'a chan =
  cbuf :: "'a list"
  ccap :: nat
  cclosed :: bool

definition make_chan :: "nat \<Rightarrow> 'a chan" where
  "make_chan n = \<lparr>cbuf = [], ccap = n, cclosed = False\<rparr>"

text \<open>
  \<^verbatim>\<open>select { case ch <- x: ... default: ... }\<close> on a buffered channel: \<open>None\<close> is the
  \<^verbatim>\<open>default\<close> branch; a closed channel panics even in a \<^verbatim>\<open>select\<close>.
\<close>

definition chan_try_send :: "'a chan \<Rightarrow> 'a \<Rightarrow> go_panic + 'a chan option" where
  "chan_try_send ch x =
     (if cclosed ch then Inl SendOnClosedChannel
      else if length (cbuf ch) < ccap ch then Inr (Some (ch\<lparr>cbuf := cbuf ch @ [x]\<rparr>))
      else Inr None)"

definition chan_close :: "'a chan \<Rightarrow> go_panic + 'a chan" where
  "chan_close ch = (if cclosed ch then Inl CloseOfClosedChannel else Inr (ch\<lparr>cclosed := True\<rparr>))"

text \<open>The outcome of \<^verbatim>\<open>x, ok := <-ch\<close>: a value, the closed and drained channel, or blocking.\<close>

datatype 'a recv = Received 'a "'a chan" | ChanClosed | WouldBlock

definition chan_recv :: "'a chan \<Rightarrow> 'a recv" where
  "chan_recv ch =
     (case cbuf ch of
        x # xs \<Rightarrow> Received x (ch\<lparr>cbuf := xs\<rparr>)
      | [] \<Rightarrow> if cclosed ch then ChanClosed else WouldBlock)"

lemma make_chan_fields [simp]:
  "cbuf (make_chan n) = []" "ccap (make_chan n) = n" "\<not> cclosed (make_chan n)"
  by (simp_all add: make_chan_def)

lemma chan_try_send_open:
  "\<not> cclosed ch \<Longrightarrow> chan_try_send ch x =
     Inr (if length (cbuf ch) < ccap ch then Some (ch\<lparr>cbuf := cbuf ch @ [x]\<rparr>) else None)"
  by (simp add: chan_try_send_def)

lemma chan_close_open: "\<not> cclosed ch \<Longrightarrow> chan_close ch = Inr (ch\<lparr>cclosed := True\<rparr>)"
  by (simp add: chan_close_def)

lemma chan_recv_Received:
  "chan_recv ch = Received x ch' \<longleftrightarrow> (\<exists>xs. cbuf ch = x # xs \<and> ch' = ch\<lparr>cbuf := xs\<rparr>)"
  by (auto simp: chan_recv_def split: list.splits if_splits)

lemma chan_recv_ChanClosed: "chan_recv ch = ChanClosed \<longleftrightarrow> cbuf ch = [] \<and> cclosed ch"
  by (auto simp: chan_recv_def split: list.splits)

lemma chan_recv_WouldBlock: "chan_recv ch = WouldBlock \<longleftrightarrow> cbuf ch = [] \<and> \<not> cclosed ch"
  by (auto simp: chan_recv_def split: list.splits)

lemmas chan_recv_iff = chan_recv_Received chan_recv_ChanClosed chan_recv_WouldBlock

section \<open>Byte strings\<close>

abbreviation newline_char :: char where "newline_char \<equiv> CHR 0x0A"
abbreviation space_char :: char where "space_char \<equiv> CHR 0x20"

text \<open>\<^verbatim>\<open>bytes.Replace(s, []byte{a}, []byte{b}, -1)\<close> for one-byte patterns.\<close>

definition replace_byte :: "char \<Rightarrow> char \<Rightarrow> string \<Rightarrow> string" where
  "replace_byte a b = map (\<lambda>c. if c = a then b else c)"

text \<open>
  \<^verbatim>\<open>unicode.IsSpace\<close> holds for these code points; the list gives their UTF-8 encodings: the six
  ASCII blanks, U+0085, U+00A0, U+1680, U+2000 to U+200A, U+2028, U+2029, U+202F, U+205F, U+3000.
\<close>

definition space_encodings :: "string list" where
  "space_encodings =
     [[CHR 0x09], [CHR 0x0A], [CHR 0x0B], [CHR 0x0C], [CHR 0x0D], [CHR 0x20],
      [CHR 0xC2, CHR 0x85], [CHR 0xC2, CHR 0xA0],
      [CHR 0xE1, CHR 0x9A, CHR 0x80],
      [CHR 0xE2, CHR 0x80, CHR 0x80], [CHR 0xE2, CHR 0x80, CHR 0x81],
      [CHR 0xE2, CHR 0x80, CHR 0x82], [CHR 0xE2, CHR 0x80, CHR 0x83],
      [CHR 0xE2, CHR 0x80, CHR 0x84], [CHR 0xE2, CHR 0x80, CHR 0x85],
      [CHR 0xE2, CHR 0x80, CHR 0x86], [CHR 0xE2, CHR 0x80, CHR 0x87],
      [CHR 0xE2, CHR 0x80, CHR 0x88], [CHR 0xE2, CHR 0x80, CHR 0x89],
      [CHR 0xE2, CHR 0x80, CHR 0x8A],
      [CHR 0xE2, CHR 0x80, CHR 0xA8], [CHR 0xE2, CHR 0x80, CHR 0xA9],
      [CHR 0xE2, CHR 0x80, CHR 0xAF], [CHR 0xE2, CHR 0x81, CHR 0x9F],
      [CHR 0xE3, CHR 0x80, CHR 0x80]]"

text \<open>Drop leading occurrences of any of the given (non-empty) byte sequences.\<close>

function drop_leading :: "string list \<Rightarrow> string \<Rightarrow> string" where
  "drop_leading es s =
     (case find (\<lambda>e. e \<noteq> [] \<and> prefix e s) es of
        None \<Rightarrow> s
      | Some e \<Rightarrow> drop_leading es (drop (length e) s))"
  by pat_completeness auto
termination
proof (relation "measure (length \<circ> snd)", goal_cases)
  case 1 show ?case by simp
next
  case (2 es s e)
  then have e: "e \<noteq> []" and p: "prefix e s" by (auto simp: find_Some_iff)
  from e p have "0 < length e" and "length e \<le> length s" by (auto dest: prefix_length_le)
  then have "length s - length e < length s" by linarith
  then show ?case by simp
qed

declare drop_leading.simps [simp del]

definition trim_space :: "string \<Rightarrow> string" where
  "trim_space s =
     rev (drop_leading (map rev space_encodings) (rev (drop_leading space_encodings s)))"

text \<open>
  Well-formed UTF-8 (Go's \<^verbatim>\<open>utf8.ValidString\<close>, RFC 3629): no overlong forms, no surrogates, nothing
  beyond U+10FFFF.
\<close>

definition utf8_cont :: "char \<Rightarrow> bool" where
  "utf8_cont c \<longleftrightarrow> 0x80 \<le> (of_char c :: nat) \<and> (of_char c :: nat) \<le> 0xBF"

definition utf8_range :: "nat \<Rightarrow> nat \<Rightarrow> char \<Rightarrow> bool" where
  "utf8_range a b c \<longleftrightarrow> a \<le> of_char c \<and> of_char c \<le> b"

fun utf8_valid :: "string \<Rightarrow> bool" where
  "utf8_valid [] = True"
| "utf8_valid (a # s) =
     (if utf8_range 0 0x7F a then utf8_valid s
      else case s of
        [] \<Rightarrow> False
      | b # s1 \<Rightarrow>
          if utf8_range 0xC2 0xDF a then utf8_cont b \<and> utf8_valid s1
          else case s1 of
            [] \<Rightarrow> False
          | c # s2 \<Rightarrow>
              if utf8_range 0xE0 0xEF a then
                (if utf8_range 0xE0 0xE0 a then utf8_range 0xA0 0xBF b
                 else if utf8_range 0xED 0xED a then utf8_range 0x80 0x9F b else utf8_cont b) \<and>
                utf8_cont c \<and> utf8_valid s2
              else case s2 of
                [] \<Rightarrow> False
              | d # s3 \<Rightarrow>
                  utf8_range 0xF0 0xF4 a \<and>
                  (if utf8_range 0xF0 0xF0 a then utf8_range 0x90 0xBF b
                   else if utf8_range 0xF4 0xF4 a then utf8_range 0x80 0x8F b else utf8_cont b) \<and>
                  utf8_cont c \<and> utf8_cont d \<and> utf8_valid s3)"

definition utf8_length :: "string \<Rightarrow> nat" where
  "utf8_length s = length (filter (\<lambda>c. \<not> utf8_cont c) s)"

lemma utf8_length_le: "utf8_length s \<le> length s"
  by (simp add: utf8_length_def)

lemma utf8_valid_ascii: "\<forall>c \<in> set s. of_char c < (0x80::nat) \<Longrightarrow> utf8_valid s"
  by (induction s) (auto simp: utf8_range_def)

text \<open>\<^verbatim>\<open>strings.HasPrefix\<close> and \<^verbatim>\<open>strings.Join\<close>.\<close>

definition has_prefix :: "string \<Rightarrow> string \<Rightarrow> bool" where
  "has_prefix s p \<longleftrightarrow> prefix p s"

fun join :: "string \<Rightarrow> string list \<Rightarrow> string" where
  "join sep [] = []"
| "join sep [x] = x"
| "join sep (x # y # ys) = x @ sep @ join sep (y # ys)"

text \<open>\<^verbatim>\<open>strings.Split(s, sep)\<close> for a one-byte separator.\<close>

fun split_on :: "char \<Rightarrow> string \<Rightarrow> string list" where
  "split_on c [] = [[]]"
| "split_on c (x # xs) =
     (if x = c then [] # split_on c xs
      else (case split_on c xs of [] \<Rightarrow> [[x]] | y # ys \<Rightarrow> (x # y) # ys))"

text \<open>\<^verbatim>\<open>strconv.Itoa\<close> and \<^verbatim>\<open>strconv.FormatInt(i, 10)\<close>.\<close>

fun nat_digits :: "nat \<Rightarrow> string" where
  "nat_digits n = (if n < 10 then [char_of (48 + n)] else nat_digits (n div 10) @ [char_of (48 + n mod 10)])"

definition itoa :: "64 word \<Rightarrow> string" where
  "itoa w = (if sint w < 0 then CHR ''-'' # nat_digits (nat (- sint w)) else nat_digits (nat (sint w)))"

text \<open>The text of an error, \<^verbatim>\<open>err.Error()\<close>. That of an error which crossed gRPC is the status's, with the name of its code.\<close>

definition code_name :: "nat \<Rightarrow> string" where
  "code_name c =
     (let names = [''OK'', ''Canceled'', ''Unknown'', ''InvalidArgument'', ''DeadlineExceeded'', ''NotFound'', ''AlreadyExists'',
        ''PermissionDenied'', ''ResourceExhausted'', ''FailedPrecondition'', ''Aborted'', ''OutOfRange'', ''Unimplemented'',
        ''Internal'', ''Unavailable'', ''DataLoss'', ''Unauthenticated'']
      in if c < length names then names ! c else ''Code('' @ nat_digits c @ '')'')"

fun err_text :: "go_error \<Rightarrow> string" where
  "err_text (Sentinel s) = s"
| "err_text (Errorf s) = s"
| "err_text (Status c s) = ''rpc error: code = '' @ code_name c @ '' desc = '' @ s"
| "err_text (Panicked p) = ''panic''"

lemma code_name_simps [simp]: "code_name 2 = ''Unknown''" "code_name 13 = ''Internal''"
  by (simp_all add: code_name_def)

text \<open>The number that decimal digits stand for; printing a number and reading it back gives the number.\<close>

definition digits_val :: "string \<Rightarrow> nat" where
  "digits_val s = foldl (\<lambda>a c. 10 * a + (of_char c - 48)) 0 s"

lemma digits_val_nat_digits: "digits_val (nat_digits n) = n"
proof (induction n rule: less_induct)
  case (less n)
  have d: "k < 10 \<Longrightarrow> of_char (char_of (48 + k :: nat)) - 48 = (k :: nat)" for k by simp
  show ?case
  proof (cases "n < 10")
    case True
    then show ?thesis using d [OF True] by (simp add: digits_val_def nat_digits.simps [of n] del: of_char_of)
  next
    case False
    then have "digits_val (nat_digits (n div 10)) = n div 10" using less by simp
    moreover have "digits_val (nat_digits n) = 10 * digits_val (nat_digits (n div 10)) + n mod 10"
      using False d [of "n mod 10"] by (subst nat_digits.simps) (simp add: digits_val_def del: nat_digits.simps of_char_of)
    ultimately show ?thesis by simp
  qed
qed

lemma inj_nat_digits: "inj nat_digits"
  by (metis digits_val_nat_digits injI)

lemma drop_leading_suffix: "suffix (drop_leading es s) s"
proof (induction es s rule: drop_leading.induct)
  case (1 es s)
  show ?case
  proof (cases "find (\<lambda>e. e \<noteq> [] \<and> prefix e s) es")
    case None
    then show ?thesis by (simp add: drop_leading.simps [of es s])
  next
    case (Some e)
    with 1 have "suffix (drop_leading es (drop (length e) s)) (drop (length e) s)" by simp
    then have "suffix (drop_leading es (drop (length e) s)) s"
      using suffix_drop suffix_order.trans by blast
    with Some show ?thesis by (simp add: drop_leading.simps [of es s])
  qed
qed

lemma set_drop_leading: "set (drop_leading es s) \<subseteq> set s"
  using drop_leading_suffix [of es s] by (simp add: set_mono_suffix)

lemma set_trim_space: "set (trim_space s) \<subseteq> set s"
proof -
  have "set (trim_space s) \<subseteq> set (rev (drop_leading space_encodings s))"
    unfolding trim_space_def set_rev by (rule subset_trans [OF set_drop_leading]) simp
  then show ?thesis using set_drop_leading [of space_encodings s] by auto
qed

lemma replace_byte_absent: "a \<noteq> b \<Longrightarrow> a \<notin> set (replace_byte a b s)"
  by (auto simp: replace_byte_def)

lemma split_on_ne [simp]: "split_on c s \<noteq> []"
  by (induction s) (auto split: list.splits)

lemma split_on_absent: "c \<notin> set s \<Longrightarrow> split_on c s = [s]"
  by (induction s) auto

lemma split_on_append_sep: "c \<notin> set s \<Longrightarrow> split_on c (s @ c # t) = s # split_on c t"
  by (induction s) auto

text \<open>Joining with a separator that occurs in no part and splitting again gives the parts back.\<close>

lemma split_on_join:
  "xs \<noteq> [] \<Longrightarrow> (\<And>x. x \<in> set xs \<Longrightarrow> c \<notin> set x) \<Longrightarrow> split_on c (join [c] xs) = xs"
  by (induction "[c]" xs rule: join.induct) (auto simp: split_on_absent split_on_append_sep)

section \<open>Maps\<close>

lemma map_le_upd_new: "m \<subseteq>\<^sub>m t \<Longrightarrow> t k = None \<Longrightarrow> m \<subseteq>\<^sub>m t(k \<mapsto> v)"
  unfolding map_le_def by (metis domIff fun_upd_apply)

section \<open>State machines\<close>

text \<open>
  The interface of a component that runs as interleaved goroutines: an initial state and a step
  relation. Reachability and the invariant rule are proved once here; every machine of the
  development interprets this locale.
\<close>

locale machine =
  fixes init :: "'s \<Rightarrow> bool"
    and step :: "'s \<Rightarrow> 's \<Rightarrow> bool"
    and inv :: "'s \<Rightarrow> bool"
  assumes inv_init: "init s \<Longrightarrow> inv s"
    and inv_step: "inv s \<Longrightarrow> step s t \<Longrightarrow> inv t"
begin

lemma inv_steps: "step\<^sup>*\<^sup>* s t \<Longrightarrow> inv s \<Longrightarrow> inv t"
  by (induction rule: rtranclp_induct) (auto intro: inv_step)

lemma inv_reachable: "init s \<Longrightarrow> step\<^sup>*\<^sup>* s t \<Longrightarrow> inv t"
  using inv_init inv_steps by blast

end

text \<open>A machine whose every step, once it is \<open>live\<close>, uses up some of a finite amount of work.\<close>

locale bounded_machine = machine init step inv
  for init :: "'s \<Rightarrow> bool" and step :: "'s \<Rightarrow> 's \<Rightarrow> bool" and inv :: "'s \<Rightarrow> bool" +
  fixes live :: "'s \<Rightarrow> bool"
    and work :: "'s \<Rightarrow> nat"
  assumes work_step: "inv s \<Longrightarrow> live s \<Longrightarrow> step s t \<Longrightarrow> work t < work s \<and> live t"
begin

lemma run_bounded: "(step ^^ k) s t \<Longrightarrow> inv s \<Longrightarrow> live s \<Longrightarrow> k + work t \<le> work s \<and> live t \<and> inv t"
proof (induction k arbitrary: t)
  case (Suc k)
  then obtain u where "(step ^^ k) s u" "step u t" by auto
  with Suc work_step [of u t] inv_step [of u t] show ?case by fastforce
qed simp

text \<open>When it can always go on until it is finished, it does finish.\<close>

lemma run_ends:
  assumes progress: "\<And>s. inv s \<Longrightarrow> live s \<Longrightarrow> \<not> fin s \<Longrightarrow> \<exists>t. step s t" and "inv s" "live s"
  shows "\<exists>t. step\<^sup>*\<^sup>* s t \<and> fin t"
  using assms(2,3)
proof (induction "work s" arbitrary: s rule: less_induct)
  case less
  show ?case
  proof (cases "fin s")
    case False
    then obtain u where u: "step s u" using progress less.prems by blast
    then obtain t where "step\<^sup>*\<^sup>* u t" "fin t" using less work_step [OF less.prems u] inv_step [OF less.prems(1) u] by blast
    with u show ?thesis by (meson converse_rtranclp_into_rtranclp)
  qed blast
qed

end

text \<open>A total over the goroutines of a machine changes by what the one that moved is worth.\<close>

lemma weight_update:
  fixes f :: "'a \<Rightarrow> 'n :: comm_monoid_add"
  shows "i < length ws \<Longrightarrow> (\<Sum>x\<leftarrow>ws[i := w]. f x) + f (ws ! i) = (\<Sum>x\<leftarrow>ws. f x) + f w"
proof (induction ws arbitrary: i)
  case (Cons x xs)
  show ?case
  proof (cases i)
    case 0
    then show ?thesis by (simp add: ac_simps)
  next
    case (Suc j)
    with Cons have "(\<Sum>x\<leftarrow>xs[j := w]. f x) + f (xs ! j) = (\<Sum>x\<leftarrow>xs. f x) + f w" by simp
    then show ?thesis by (simp add: Suc add.assoc)
  qed
qed simp

end
