(* ===== verification/Cached_Store.thy ===== *)
theory Cached_Store
  imports Go_Prelude
begin

text \<open>
  What the SQL models of the short-URL and book services rely on, and the interface they offer.

  The packages \<^verbatim>\<open>sqlx\<close>, \<^verbatim>\<open>sqlc\<close>, \<^verbatim>\<open>builder\<close> and \<^verbatim>\<open>stringx\<close> are libraries outside the
  repository. They are parameters: the records \<open>SqlConn\<close>, \<open>CachedConn\<close> and \<open>builder_lib\<close> hold
  their functions, over an arbitrary type \<open>'w\<close> of the world (database and cache) and \<open>'c\<close> of
  contexts. The predicates \<open>builder_ok\<close>, \<open>cached_conn_ok\<close> and \<open>sql_table_ok\<close> state the documented
  behaviour the models rely on, for a database and a cache that are up: read-through caching with a
  marker for absent rows, invalidation of the given keys after a successful write, and MySQL's
  meaning of each statement of a table with a primary key under a collation, which may identify
  different strings. They speak of text only: what the database does with strings that are not valid UTF-8 is left open, and
  cache entries live longer than the operations of a property take. They are hypotheses of the theorems;
  \<open>ref_sql\<close> and \<open>ref_cached\<close> below are one implementation that meets them, with a collation that
  ignores case.

  The locale \<open>kv_store\<close> is the interface of a model (\<^verbatim>\<open>Insert\<close>, \<^verbatim>\<open>FindOne\<close>) as a keyed table, and
  \<open>kv_store_full\<close> the one of a model whose writes all keep the cache coherent; the models interpret
  them.
\<close>

section \<open>The libraries as parameters\<close>

datatype sql_arg = SqlStr string | SqlInt "64 word"

type_synonym sql_result = int

definition ErrNotFound :: go_error where "ErrNotFound = Sentinel ''sql: no rows in result set''"

text \<open>
  A method without a context argument (\<^verbatim>\<open>Exec\<close>, \<^verbatim>\<open>QueryRow\<close>) is the same function at the unit context.
\<close>

record ('c, 'r, 'w) SqlConn =
  SqlExec :: "'c \<Rightarrow> string \<Rightarrow> sql_arg list \<Rightarrow> 'w \<Rightarrow> 'w \<times> sql_result result"
  SqlQueryRow :: "'c \<Rightarrow> string \<Rightarrow> sql_arg list \<Rightarrow> 'w \<Rightarrow> 'w \<times> 'r result"

record ('c, 'r, 'w) CachedConn =
  CExec :: "'c \<Rightarrow> ('c \<Rightarrow> ('c, 'r, 'w) SqlConn \<Rightarrow> 'w \<Rightarrow> 'w \<times> sql_result result) \<Rightarrow>
    string list \<Rightarrow> 'w \<Rightarrow> 'w \<times> sql_result result"
  CQueryRow :: "'c \<Rightarrow> string \<Rightarrow> ('c \<Rightarrow> ('c, 'r, 'w) SqlConn \<Rightarrow> 'w \<Rightarrow> 'w \<times> 'r result) \<Rightarrow>
    'w \<Rightarrow> 'w \<times> 'r result"
  CExecNoCache :: "'c \<Rightarrow> string \<Rightarrow> sql_arg list \<Rightarrow> 'w \<Rightarrow> 'w \<times> sql_result result"

text \<open>\<^verbatim>\<open>builder.RawFieldNames\<close>, given the struct's \<^verbatim>\<open>db\<close> tags, and \<^verbatim>\<open>stringx.Remove\<close>.\<close>

record builder_lib =
  RawFieldNames :: "string list \<Rightarrow> string list"
  Remove :: "string list \<Rightarrow> string list \<Rightarrow> string list"

definition builder_ok :: "builder_lib \<Rightarrow> bool" where
  "builder_ok L \<longleftrightarrow>
     (\<forall>ts. RawFieldNames L ts = map (\<lambda>t. ''`'' @ t @ ''`'') ts) \<and>
     (\<forall>xs rs. Remove L xs rs = filter (\<lambda>x. x \<notin> set rs) xs)"

text \<open>\<open>discard\<close> is \<^verbatim>\<open>_, err := ...; return err\<close>.\<close>

fun discard :: "'w \<times> 'a result \<Rightarrow> 'w \<times> unit result" where
  "discard (w, Inl e) = (w, Inl e)"
| "discard (w, Inr x) = (w, Inr ())"

text \<open>The libraries of one service: the query builder, its MySQL connection and \<^verbatim>\<open>sqlc.NewConn\<close> with the
  configured cache.\<close>

record ('c, 'r, 'w) mysql_lib =
  Builder :: builder_lib
  Mysql :: "('c, 'r, 'w) SqlConn"
  NewConn :: "('c, 'r, 'w) SqlConn \<Rightarrow> ('c, 'r, 'w) CachedConn"

text \<open>
  How the contracts look at the world: the row of one table that a primary key selects, the cache entries
  (\<open>Some None\<close> is the marker for an absent row) and the cache's own operations. \<open>collate\<close> gives the weight under which
  the key column compares strings: a case-insensitive collation, as the repository's schemas have, gives \<^verbatim>\<open>AB\<close> and
  \<^verbatim>\<open>ab\<close> one weight. The cache compares its keys byte by byte.
\<close>

record ('r, 'w) store_view =
  collate :: "string \<Rightarrow> string"
  table_of :: "'w \<Rightarrow> string \<rightharpoonup> 'r"
  cache_of :: "'w \<Rightarrow> string \<rightharpoonup> 'r option"
  del_cache :: "string list \<Rightarrow> 'w \<Rightarrow> 'w"
  set_cache :: "string \<Rightarrow> 'r option \<Rightarrow> 'w \<Rightarrow> 'w"

definition cached_conn_ok ::
  "('r, 'w) store_view \<Rightarrow> ('c, 'r, 'w) SqlConn \<Rightarrow> ('c, 'r, 'w) CachedConn \<Rightarrow> bool" where
  "cached_conn_ok V S C \<longleftrightarrow>
     (\<forall>ks w. table_of V (del_cache V ks w) = table_of V w \<and>
        cache_of V (del_cache V ks w) = (\<lambda>k. if k \<in> set ks then None else cache_of V w k)) \<and>
     (\<forall>k v w. table_of V (set_cache V k v w) = table_of V w \<and>
        cache_of V (set_cache V k v w) = (cache_of V w)(k \<mapsto> v)) \<and>
     (\<forall>c f ks w. CExec C c f ks w =
        (case f c S w of
           (w', Inl e) \<Rightarrow> (w', Inl e)
         | (w', Inr r) \<Rightarrow> (del_cache V ks w', Inr r))) \<and>
     (\<forall>c k q w. CQueryRow C c k q w =
        (case cache_of V w k of
           Some (Some r) \<Rightarrow> (w, Inr r)
         | Some None \<Rightarrow> (w, Inl ErrNotFound)
         | None \<Rightarrow>
             (case q c S w of
                (w', Inr r) \<Rightarrow> (set_cache V k (Some r) w', Inr r)
              | (w', Inl e) \<Rightarrow>
                  if e = ErrNotFound then (set_cache V k None w', Inl e) else (w', Inl e)))) \<and>
     (\<forall>c q as w. CExecNoCache C c q as w = SqlExec S c q as w)"

text \<open>
  The statements of a two-column table and its rows. A row that \<open>row_fits\<close> the columns' types is stored as it is, one that is
  \<open>row_refused\<close> is an error; when strings are too long only because of trailing spaces, the database cuts these off and stores
  \<open>row_cut\<close>. \<open>row_text\<close> says that the strings are valid UTF-8. \<open>row_put\<close> is a stored row with another one's value: an update leaves the key as it was stored.
\<close>

record 'r table_spec =
  stmt_insert :: string
  stmt_select :: string
  stmt_update :: string
  stmt_delete :: string
  row_key :: "'r \<Rightarrow> string"
  row_val :: "'r \<Rightarrow> sql_arg"
  row_put :: "'r \<Rightarrow> 'r \<Rightarrow> 'r"
  row_cut :: "'r \<Rightarrow> 'r"
  row_fits :: "'r \<Rightarrow> bool"
  row_refused :: "'r \<Rightarrow> bool"
  row_text :: "'r \<Rightarrow> bool"

text \<open>A string without the characters behind the first \<open>n\<close>, when these are spaces, and one that is longer than that without its
  trailing spaces.\<close>

definition cut_to :: "nat \<Rightarrow> string \<Rightarrow> string" where
  "cut_to n s = take (length s - (utf8_length s - n)) s"

lemma cut_to_short [simp]: "utf8_length s \<le> n \<Longrightarrow> cut_to n s = s"
  by (simp add: cut_to_def)

definition too_long :: "nat \<Rightarrow> string \<Rightarrow> bool" where
  "too_long n s \<longleftrightarrow> n < utf8_length (rev (dropWhile (\<lambda>c. c = CHR '' '') (rev s)))"

lemma too_long_length: "too_long n s \<Longrightarrow> n < utf8_length s"
proof -
  let ?t = "rev (dropWhile (\<lambda>c. c = CHR '' '') (rev s))"
  have "s = ?t @ rev (takeWhile (\<lambda>c. c = CHR '' '') (rev s))"
    by (metis rev_append rev_rev_ident takeWhile_dropWhile_id)
  then have "utf8_length ?t \<le> utf8_length s" by (metis filter_append le_add1 length_append utf8_length_def)
  then show "too_long n s \<Longrightarrow> n < utf8_length s" by (simp add: too_long_def)
qed

text \<open>The table after one key's row has changed: every string of the same weight selects it.\<close>

definition row_set :: "('r, 'w) store_view \<Rightarrow> string \<Rightarrow> 'r option \<Rightarrow> (string \<rightharpoonup> 'r) \<Rightarrow> string \<rightharpoonup> 'r" where
  "row_set V k v m = (\<lambda>k'. if collate V k' = collate V k then v else m k')"

lemma row_set_same [simp]: "row_set V k v m k = v"
  by (simp add: row_set_def)

definition placeholders :: "string \<Rightarrow> nat" where
  "placeholders q = count_list q (CHR ''?'')"

definition sql_table_ok ::
  "('r, 'w) store_view \<Rightarrow> ('c, 'r, 'w) SqlConn \<Rightarrow> 'r table_spec \<Rightarrow> bool" where
  "sql_table_ok V S T \<longleftrightarrow>
     (\<forall>k k' w. collate V k = collate V k' \<longrightarrow> table_of V w k = table_of V w k') \<and>
     (\<forall>d. row_fits T d \<longrightarrow> row_cut T d = d \<and> \<not> row_refused T d \<and> row_text T d \<and> utf8_valid (row_key T d)) \<and>
     (\<forall>c d w. table_of V w (row_key T (row_cut T d)) = None \<and> \<not> row_refused T d \<and> row_text T d \<longrightarrow>
        (\<exists>w' n. SqlExec S c (stmt_insert T) [SqlStr (row_key T d), row_val T d] w = (w', Inr n) \<and>
           table_of V w' = row_set V (row_key T (row_cut T d)) (Some (row_cut T d)) (table_of V w) \<and> cache_of V w' = cache_of V w)) \<and>
     (\<forall>c d w. table_of V w (row_key T (row_cut T d)) \<noteq> None \<or> row_refused T d \<longrightarrow>
        (\<exists>e. SqlExec S c (stmt_insert T) [SqlStr (row_key T d), row_val T d] w = (w, Inl e))) \<and>
     (\<forall>c k w. utf8_valid k \<longrightarrow> SqlQueryRow S c (stmt_select T) [SqlStr k] w =
        (w, case table_of V w k of None \<Rightarrow> Inl ErrNotFound | Some d \<Rightarrow> Inr d)) \<and>
     (\<forall>c d w. row_fits T d \<longrightarrow>
        (\<exists>w' n. SqlExec S c (stmt_update T) [row_val T d, SqlStr (row_key T d)] w = (w', Inr n) \<and>
           table_of V w' = row_set V (row_key T d) (map_option (\<lambda>r. row_put T r d) (table_of V w (row_key T d))) (table_of V w) \<and>
           cache_of V w' = cache_of V w)) \<and>
     (\<forall>c k w. utf8_valid k \<longrightarrow> (\<exists>w' n. SqlExec S c (stmt_delete T) [SqlStr k] w = (w', Inr n) \<and>
        table_of V w' = row_set V k None (table_of V w) \<and> cache_of V w' = cache_of V w)) \<and>
     (\<forall>c q as w. placeholders q \<noteq> length as \<longrightarrow> (\<exists>e. SqlExec S c q as w = (w, Inl e)))"

definition mysql_ok :: "('c, 'r, 'w) mysql_lib \<Rightarrow> ('r, 'w) store_view \<Rightarrow> 'r table_spec \<Rightarrow> bool" where
  "mysql_ok L V T \<longleftrightarrow> builder_ok (Builder L) \<and> cached_conn_ok V (Mysql L) (NewConn L (Mysql L)) \<and>
     sql_table_ok V (Mysql L) T"

section \<open>The contracts as rules\<close>

lemma mysql_okD:
  assumes "mysql_ok L V T"
  shows "builder_ok (Builder L)" "cached_conn_ok V (Mysql L) (NewConn L (Mysql L))"
    "sql_table_ok V (Mysql L) T"
  using assms by (simp_all add: mysql_ok_def)

lemma cexec_ok:
  assumes "cached_conn_ok V S C" "f c S w = (w', Inr r)"
  shows "CExec C c f ks w = (del_cache V ks w', Inr r)"
  using assms by (simp add: cached_conn_ok_def)

lemma cexec_err:
  assumes "cached_conn_ok V S C" "f c S w = (w', Inl e)"
  shows "CExec C c f ks w = (w', Inl e)"
  using assms by (simp add: cached_conn_ok_def)

lemma del_cache_view:
  assumes "cached_conn_ok V S C"
  shows "table_of V (del_cache V ks w) = table_of V w"
    "cache_of V (del_cache V ks w) = (\<lambda>k. if k \<in> set ks then None else cache_of V w k)"
  using assms by (simp_all add: cached_conn_ok_def)

lemma set_cache_view:
  assumes "cached_conn_ok V S C"
  shows "table_of V (set_cache V k v w) = table_of V w"
    "cache_of V (set_cache V k v w) = (cache_of V w)(k \<mapsto> v)"
  using assms by (simp_all add: cached_conn_ok_def)

lemma no_cache_exec: "cached_conn_ok V S C \<Longrightarrow> CExecNoCache C c q as w = SqlExec S c q as w"
  by (simp add: cached_conn_ok_def)

lemma sql_table_okD:
  assumes "sql_table_ok V S T"
  shows "(\<forall>k k' w. collate V k = collate V k' \<longrightarrow> table_of V w k = table_of V w k')"
    "(\<forall>d. row_fits T d \<longrightarrow> row_cut T d = d \<and> \<not> row_refused T d \<and> row_text T d \<and> utf8_valid (row_key T d))"
    "(\<forall>c d w. table_of V w (row_key T (row_cut T d)) = None \<and> \<not> row_refused T d \<and> row_text T d \<longrightarrow>
        (\<exists>w' n. SqlExec S c (stmt_insert T) [SqlStr (row_key T d), row_val T d] w = (w', Inr n) \<and>
           table_of V w' = row_set V (row_key T (row_cut T d)) (Some (row_cut T d)) (table_of V w) \<and> cache_of V w' = cache_of V w))"
    "(\<forall>c d w. table_of V w (row_key T (row_cut T d)) \<noteq> None \<or> row_refused T d \<longrightarrow>
        (\<exists>e. SqlExec S c (stmt_insert T) [SqlStr (row_key T d), row_val T d] w = (w, Inl e)))"
    "(\<forall>c k w. utf8_valid k \<longrightarrow> SqlQueryRow S c (stmt_select T) [SqlStr k] w =
        (w, case table_of V w k of None \<Rightarrow> Inl ErrNotFound | Some d \<Rightarrow> Inr d))"
    "(\<forall>c d w. row_fits T d \<longrightarrow>
        (\<exists>w' n. SqlExec S c (stmt_update T) [row_val T d, SqlStr (row_key T d)] w = (w', Inr n) \<and>
           table_of V w' = row_set V (row_key T d) (map_option (\<lambda>r. row_put T r d) (table_of V w (row_key T d))) (table_of V w) \<and>
           cache_of V w' = cache_of V w))"
    "(\<forall>c k w. utf8_valid k \<longrightarrow> (\<exists>w' n. SqlExec S c (stmt_delete T) [SqlStr k] w = (w', Inr n) \<and>
        table_of V w' = row_set V k None (table_of V w) \<and> cache_of V w' = cache_of V w))"
    "(\<forall>c q as w. placeholders q \<noteq> length as \<longrightarrow> (\<exists>e. SqlExec S c q as w = (w, Inl e)))"
  using assms unfolding sql_table_ok_def by - (elim conjE, assumption)+

lemma insert_new_row:
  assumes "sql_table_ok V S T" "table_of V w (row_key T (row_cut T d)) = None" "\<not> row_refused T d" "row_text T d"
  obtains w' n where "SqlExec S c (stmt_insert T) [SqlStr (row_key T d), row_val T d] w = (w', Inr n)"
    "table_of V w' = row_set V (row_key T (row_cut T d)) (Some (row_cut T d)) (table_of V w)" "cache_of V w' = cache_of V w"
  using sql_table_okD(3) [OF assms(1)] assms(2-4) by blast

lemma insert_dup_row:
  assumes "sql_table_ok V S T" "table_of V w (row_key T (row_cut T d)) \<noteq> None \<or> row_refused T d"
  obtains e where "SqlExec S c (stmt_insert T) [SqlStr (row_key T d), row_val T d] w = (w, Inl e)"
  using sql_table_okD(4) [OF assms(1)] assms(2) by blast

lemma row_fitsD:
  assumes "sql_table_ok V S T" "row_fits T d"
  shows "row_cut T d = d" "\<not> row_refused T d" "row_text T d" "utf8_valid (row_key T d)"
  using sql_table_okD(2) [OF assms(1)] assms(2) by blast+

lemma update_row:
  assumes "sql_table_ok V S T" "row_fits T d"
  obtains w' n where "SqlExec S c (stmt_update T) [row_val T d, SqlStr (row_key T d)] w = (w', Inr n)"
    "table_of V w' = row_set V (row_key T d) (map_option (\<lambda>r. row_put T r d) (table_of V w (row_key T d))) (table_of V w)"
    "cache_of V w' = cache_of V w"
  using sql_table_okD(6) [OF assms(1)] assms(2) by blast

lemma delete_row:
  assumes "sql_table_ok V S T" "utf8_valid k"
  obtains w' n where "SqlExec S c (stmt_delete T) [SqlStr k] w = (w', Inr n)"
    "table_of V w' = row_set V k None (table_of V w)" "cache_of V w' = cache_of V w"
  using sql_table_okD(7) [OF assms(1)] assms(2) by blast

lemma select_row:
  "sql_table_ok V S T \<Longrightarrow> utf8_valid k \<Longrightarrow> SqlQueryRow S c (stmt_select T) [SqlStr k] w =
     (w, case table_of V w k of None \<Rightarrow> Inl ErrNotFound | Some d \<Rightarrow> Inr d)"
  using sql_table_okD(5) by blast

lemma placeholder_mismatch:
  assumes "sql_table_ok V S T" "placeholders q \<noteq> length as"
  obtains e where "SqlExec S c q as w = (w, Inl e)"
  using sql_table_okD(8) [OF assms(1)] assms(2) by blast

text \<open>
  The cache is coherent for a key prefix and a set of keys when every entry under the prefix for one of them says what the
  table says. The keys are spelled consistently when they are text and no two of them have the same weight.
\<close>

definition cache_coherent :: "('r, 'w) store_view \<Rightarrow> string \<Rightarrow> string set \<Rightarrow> 'w \<Rightarrow> bool" where
  "cache_coherent V p K w \<longleftrightarrow> (\<forall>k \<in> K. \<forall>v. cache_of V w (p @ k) = Some v \<longrightarrow> v = table_of V w k)"

definition spelled :: "('r, 'w) store_view \<Rightarrow> string set \<Rightarrow> bool" where
  "spelled V K \<longleftrightarrow> inj_on (collate V) K \<and> (\<forall>k \<in> K. utf8_valid k)"

lemma spelled_one [simp]: "spelled V {k} \<longleftrightarrow> utf8_valid k"
  by (simp add: spelled_def)

lemma spelled_text: "spelled V K \<Longrightarrow> k \<in> K \<Longrightarrow> utf8_valid k"
  by (simp add: spelled_def)

lemma coherent_cached: "cache_coherent V p K w \<Longrightarrow> k \<in> K \<Longrightarrow> cache_of V w (p @ k) = Some v \<Longrightarrow> v = table_of V w k"
  by (simp add: cache_coherent_def)

text \<open>Through a set of consistently spelled keys a change of one row is a plain update of a map.\<close>

lemma row_set_spelled:
  assumes "spelled V K" "k \<in> K"
  shows "row_set V k v m |` K = (m |` K)(k := v)"
  using assms by (auto simp: row_set_def restrict_map_def spelled_def inj_on_def fun_eq_iff)

text \<open>
  Read-through caching of the table's own select: the table is unchanged and the cache still coherent, whatever text the key is; for one of
  the keys of a coherent cache the answer is the table's row.
\<close>

lemma cached_select_state:
  assumes C: "cached_conn_ok V S C" and T: "sql_table_ok V S T" and coh: "cache_coherent V p K w" and u: "utf8_valid k"
    and q: "CQueryRow C c (p @ k) (\<lambda>c conn. SqlQueryRow conn c (stmt_select T) [SqlStr k]) w = (w', res)"
  shows "table_of V w' = table_of V w \<and> cache_coherent V p K w'"
proof (cases "cache_of V w (p @ k)")
  case None
  then have "w' = set_cache V (p @ k) (table_of V w k) w"
    using C q by (simp add: cached_conn_ok_def select_row [OF T u] split: option.splits)
  then show ?thesis using coh by (auto simp: cache_coherent_def set_cache_view [OF C])
next
  case (Some v)
  then show ?thesis using C q coh by (cases v) (simp_all add: cached_conn_ok_def)
qed

lemma cached_select:
  assumes C: "cached_conn_ok V S C" and T: "sql_table_ok V S T" and coh: "cache_coherent V p K w" and k: "k \<in> K" and u: "utf8_valid k"
  shows "\<exists>w'. CQueryRow C c (p @ k) (\<lambda>c conn. SqlQueryRow conn c (stmt_select T) [SqlStr k]) w =
       (w', case table_of V w k of None \<Rightarrow> Inl ErrNotFound | Some d \<Rightarrow> Inr d)"
proof (cases "cache_of V w (p @ k)")
  case None
  then show ?thesis using C by (simp add: cached_conn_ok_def select_row [OF T u] split: option.splits)
next
  case (Some v)
  then show ?thesis
    using C coherent_cached [OF coh k Some] by (simp add: cached_conn_ok_def split: option.splits)
qed

text \<open>A row of text that keeps its key when it is stored.\<close>

definition row_kept :: "'r table_spec \<Rightarrow> 'r \<Rightarrow> bool" where
  "row_kept T d \<longleftrightarrow> row_text T d \<and> row_key T (row_cut T d) = row_key T d"

text \<open>Writes through the cached connection, with the row's key invalidated afterwards: the table
  changes as the statement says and the cache stays coherent.\<close>

lemma coherent_del:
  assumes "cached_conn_ok V S C" "cache_coherent V p K w" "cache_of V w' = cache_of V w" "spelled V K" "k \<in> K"
    and "table_of V w' = row_set V k v (table_of V w)"
  shows "cache_coherent V p K (del_cache V [p @ k] w')"
  using assms
  by (auto simp: cache_coherent_def del_cache_view [OF assms(1)] row_set_def spelled_def inj_on_def split: if_splits)

lemma cached_insert_new:
  assumes C: "cached_conn_ok V S C" and T: "sql_table_ok V S T" and coh: "cache_coherent V p K w"
    and sp: "spelled V K" "row_key T d \<in> K" and kept: "row_kept T d"
    and new: "table_of V w (row_key T d) = None" and ref: "\<not> row_refused T d"
  shows "\<exists>w'. (\<exists>n. CExec C c (\<lambda>c conn. SqlExec conn c (stmt_insert T) [SqlStr (row_key T d), row_val T d])
      [p @ row_key T d] w = (w', Inr n)) \<and>
    table_of V w' = row_set V (row_key T d) (Some (row_cut T d)) (table_of V w) \<and> cache_coherent V p K w'"
proof -
  obtain w1 n where w1: "SqlExec S c (stmt_insert T) [SqlStr (row_key T d), row_val T d] w = (w1, Inr n)"
    "table_of V w1 = row_set V (row_key T d) (Some (row_cut T d)) (table_of V w)" "cache_of V w1 = cache_of V w"
    using insert_new_row [OF T, of w d c] new ref kept by (auto simp: row_kept_def)
  let ?w = "del_cache V [p @ row_key T d] w1"
  have "cache_coherent V p K ?w" by (rule coherent_del [OF C coh w1(3) sp w1(2)])
  moreover have "table_of V ?w = row_set V (row_key T d) (Some (row_cut T d)) (table_of V w)"
    by (simp add: del_cache_view [OF C] w1(2))
  ultimately show ?thesis using cexec_ok [OF C, of _ c w w1 n] w1(1) by auto
qed

lemma cached_insert_dup:
  assumes C: "cached_conn_ok V S C" and T: "sql_table_ok V S T"
    and dup: "table_of V w (row_key T (row_cut T d)) \<noteq> None \<or> row_refused T d"
  shows "\<exists>e. CExec C c (\<lambda>c conn. SqlExec conn c (stmt_insert T) [SqlStr (row_key T d), row_val T d])
      ks w = (w, Inl e)"
proof -
  obtain e where "SqlExec S c (stmt_insert T) [SqlStr (row_key T d), row_val T d] w = (w, Inl e)"
    using insert_dup_row [OF T dup] .
  then show ?thesis using cexec_err [OF C, of _ c w w e] by auto
qed

lemma cached_update:
  assumes C: "cached_conn_ok V S C" and T: "sql_table_ok V S T" and coh: "cache_coherent V p K w"
    and sp: "spelled V K" "row_key T d \<in> K" and fits: "row_fits T d"
  shows "\<exists>w'. discard (CExec C c (\<lambda>c conn. SqlExec conn c (stmt_update T) [row_val T d, SqlStr (row_key T d)])
      [p @ row_key T d] w) = (w', Inr ()) \<and> cache_coherent V p K w' \<and>
    table_of V w' = row_set V (row_key T d) (map_option (\<lambda>r. row_put T r d) (table_of V w (row_key T d))) (table_of V w)"
proof -
  obtain w1 n where w1: "SqlExec S c (stmt_update T) [row_val T d, SqlStr (row_key T d)] w = (w1, Inr n)"
    "table_of V w1 = row_set V (row_key T d) (map_option (\<lambda>r. row_put T r d) (table_of V w (row_key T d))) (table_of V w)" "cache_of V w1 = cache_of V w"
    using update_row [OF T fits] .
  let ?w = "del_cache V [p @ row_key T d] w1"
  have "cache_coherent V p K ?w" by (rule coherent_del [OF C coh w1(3) sp w1(2)])
  moreover have "table_of V ?w = table_of V w1" by (simp add: del_cache_view [OF C])
  ultimately show ?thesis using cexec_ok [OF C, of _ c w w1 n] w1(1,2) by simp
qed

lemma cached_delete:
  assumes C: "cached_conn_ok V S C" and T: "sql_table_ok V S T" and coh: "cache_coherent V p K w"
    and sp: "spelled V K" "k \<in> K"
  shows "\<exists>w'. discard (CExec C c (\<lambda>c conn. SqlExec conn c (stmt_delete T) [SqlStr k]) [p @ k] w) = (w', Inr ()) \<and>
    cache_coherent V p K w' \<and> table_of V w' = row_set V k None (table_of V w)"
proof -
  obtain w1 n where w1: "SqlExec S c (stmt_delete T) [SqlStr k] w = (w1, Inr n)"
    "table_of V w1 = row_set V k None (table_of V w)" "cache_of V w1 = cache_of V w"
    using delete_row [OF T spelled_text [OF sp]] .
  let ?w = "del_cache V [p @ k] w1"
  have "cache_coherent V p K ?w" by (rule coherent_del [OF C coh w1(3) sp w1(2)])
  moreover have "table_of V ?w = row_set V k None (table_of V w)" by (simp add: del_cache_view [OF C] w1(2))
  ultimately show ?thesis using cexec_ok [OF C, of _ c w w1 n] w1(1) by simp
qed

text \<open>An insert that bypasses the cache is coherent only if nothing is cached for the key; a cached
  absence survives it.\<close>

lemma nocache_insert:
  assumes C: "cached_conn_ok V S C" and T: "sql_table_ok V S T" and kept: "row_kept T d"
    and new: "table_of V w (row_key T d) = None" and ref: "\<not> row_refused T d"
  obtains w' n where "CExecNoCache C c (stmt_insert T) [SqlStr (row_key T d), row_val T d] w = (w', Inr n)"
    "table_of V w' = row_set V (row_key T d) (Some (row_cut T d)) (table_of V w)" "cache_of V w' = cache_of V w"
  using insert_new_row [OF T, of w d c] new ref kept no_cache_exec [OF C] by (auto simp: row_kept_def)

lemma nocache_insert_new:
  assumes C: "cached_conn_ok V S C" and T: "sql_table_ok V S T" and coh: "cache_coherent V p K w"
    and sp: "spelled V K" "row_key T d \<in> K" and kept: "row_kept T d"
    and new: "table_of V w (row_key T d) = None" and ref: "\<not> row_refused T d"
    and fresh: "cache_of V w (p @ row_key T d) = None"
  shows "\<exists>w'. (\<exists>n. CExecNoCache C c (stmt_insert T) [SqlStr (row_key T d), row_val T d] w = (w', Inr n)) \<and>
    table_of V w' = row_set V (row_key T d) (Some (row_cut T d)) (table_of V w) \<and> cache_coherent V p K w'"
proof -
  obtain w1 n where w1: "CExecNoCache C c (stmt_insert T) [SqlStr (row_key T d), row_val T d] w = (w1, Inr n)"
    "table_of V w1 = row_set V (row_key T d) (Some (row_cut T d)) (table_of V w)" "cache_of V w1 = cache_of V w"
    using nocache_insert [OF C T kept new ref] .
  have "cache_coherent V p K w1"
    using coh fresh sp by (auto simp: cache_coherent_def w1 row_set_def spelled_def inj_on_def)
  with w1 show ?thesis by auto
qed

lemma nocache_insert_stale:
  assumes C: "cached_conn_ok V S C" and T: "sql_table_ok V S T"
    and new: "table_of V w (row_key T d) = None" and fits: "row_fits T d"
    and stale: "cache_of V w k = Some None"
  shows "\<exists>w' n. CExecNoCache C c (stmt_insert T) [SqlStr (row_key T d), row_val T d] w = (w', Inr n) \<and>
    table_of V w' = row_set V (row_key T d) (Some d) (table_of V w) \<and>
    (\<forall>c q. CQueryRow C c k q w' = (w', Inl ErrNotFound))"
proof -
  note f = row_fitsD [OF T fits]
  obtain w1 n where w1: "CExecNoCache C c (stmt_insert T) [SqlStr (row_key T d), row_val T d] w = (w1, Inr n)"
    "table_of V w1 = row_set V (row_key T d) (Some (row_cut T d)) (table_of V w)" "cache_of V w1 = cache_of V w"
    using nocache_insert [OF C T _ new f(2)] f by (auto simp: row_kept_def)
  have "CQueryRow C c k q w1 = (w1, Inl ErrNotFound)" for c q
    using C stale w1(3) by (simp add: cached_conn_ok_def)
  with w1 f(1) show ?thesis by auto
qed

lemma cached_miss:
  assumes C: "cached_conn_ok V S C" and T: "sql_table_ok V S T"
    and "cache_of V w k = None" "table_of V w r = None" "utf8_valid r"
  shows "CQueryRow C c k (\<lambda>c conn. SqlQueryRow conn c (stmt_select T) [SqlStr r]) w =
    (set_cache V k None w, Inl ErrNotFound)"
  using C assms(3,4) by (simp add: cached_conn_ok_def select_row [OF T assms(5)])

lemma nocache_insert_dup:
  assumes C: "cached_conn_ok V S C" and T: "sql_table_ok V S T"
    and dup: "table_of V w (row_key T (row_cut T d)) \<noteq> None \<or> row_refused T d"
  shows "\<exists>e. CExecNoCache C c (stmt_insert T) [SqlStr (row_key T d), row_val T d] w = (w, Inl e)"
proof -
  obtain e where "SqlExec S c (stmt_insert T) [SqlStr (row_key T d), row_val T d] w = (w, Inl e)"
    using insert_dup_row [OF T dup] .
  then show ?thesis using no_cache_exec [OF C] by auto
qed

section \<open>The interface of a keyed model\<close>

text \<open>
  \<open>good e\<close>: the environment \<open>e\<close> (the libraries) behaves as documented; \<open>keys e\<close>: the keys a client uses, spelled consistently;
  \<open>rows\<close>: the table's content seen through them; \<open>coherent\<close>: the cache agrees with it; \<open>fresh k\<close>: nothing is cached for \<open>k\<close>.
  A lookup of any other key changes nothing of this.
\<close>

locale kv_store =
  fixes good :: "'e \<Rightarrow> bool"
    and keys :: "'e \<Rightarrow> string set"
    and rows :: "'e \<Rightarrow> 'w \<Rightarrow> string \<rightharpoonup> 'd"
    and coherent :: "'e \<Rightarrow> 'w \<Rightarrow> bool"
    and fresh :: "'e \<Rightarrow> string \<Rightarrow> 'w \<Rightarrow> bool"
    and key :: "'d \<Rightarrow> string"
    and trim :: "'d \<Rightarrow> 'd"
    and kept :: "'d \<Rightarrow> bool"
    and refused :: "'d \<Rightarrow> bool"
    and ins :: "'e \<Rightarrow> 'd \<Rightarrow> 'w \<Rightarrow> 'w \<times> sql_result result"
    and find_one :: "'e \<Rightarrow> string \<Rightarrow> 'w \<Rightarrow> 'w \<times> 'd result"
  assumes find_one_law: "good e \<Longrightarrow> coherent e w \<Longrightarrow> k \<in> keys e \<Longrightarrow>
      \<exists>w'. find_one e k w = (w', case rows e w k of None \<Rightarrow> Inl ErrNotFound | Some d \<Rightarrow> Inr d)"
    and find_state: "good e \<Longrightarrow> coherent e w \<Longrightarrow> utf8_valid k \<Longrightarrow>
      rows e (fst (find_one e k w)) = rows e w \<and> coherent e (fst (find_one e k w))"
    and key_text: "good e \<Longrightarrow> k \<in> keys e \<Longrightarrow> utf8_valid k"
    and ins_new_law: "good e \<Longrightarrow> coherent e w \<Longrightarrow> key d \<in> keys e \<Longrightarrow> kept d \<Longrightarrow> fresh e (key d) w \<Longrightarrow>
      rows e w (key d) = None \<Longrightarrow> \<not> refused d \<Longrightarrow>
      \<exists>w' n. ins e d w = (w', Inr n) \<and> rows e w' = (rows e w)(key d \<mapsto> trim d) \<and> coherent e w'"
    and ins_dup_law: "good e \<Longrightarrow> coherent e w \<Longrightarrow> key d \<in> keys e \<Longrightarrow>
      kept d \<and> rows e w (key d) \<noteq> None \<or> refused d \<Longrightarrow> \<exists>x. ins e d w = (w, Inl x)"
begin

lemma find_result:
  "good e \<Longrightarrow> coherent e w \<Longrightarrow> k \<in> keys e \<Longrightarrow>
   snd (find_one e k w) = (case rows e w k of None \<Rightarrow> Inl ErrNotFound | Some d \<Rightarrow> Inr d)"
  using find_one_law [of e w k] by (metis snd_conv)

lemma find_run:
  assumes "good e" "coherent e w" "k \<in> keys e"
  obtains w' where "find_one e k w = (w', case rows e w k of None \<Rightarrow> Inl ErrNotFound | Some d \<Rightarrow> Inr d)"
    "rows e w' = rows e w" "coherent e w'"
  using find_one_law [OF assms] find_state [OF assms(1,2) key_text [OF assms(1,3)]] by auto

lemma insert_then_find:
  assumes "good e" "coherent e w" "key d \<in> keys e" "fresh e (key d) w" "rows e w (key d) = None" "trim d = d" "kept d" "\<not> refused d"
  shows "is_ok (snd (ins e d w)) \<and> snd (find_one e (key d) (fst (ins e d w))) = Inr d"
proof -
  obtain w' n where "ins e d w = (w', Inr n)" "rows e w' = (rows e w)(key d \<mapsto> d)" "coherent e w'"
    using ins_new_law [OF assms(1-3,7,4,5,8)] assms(6) by auto
  with assms(1,3) show ?thesis by (simp add: find_result)
qed

lemma insert_twice_fails:
  assumes "good e" "coherent e w" "key d \<in> keys e" "fresh e (key d) w" "rows e w (key d) = None" "trim d = d" "kept d" "\<not> refused d"
    and "key d' = key d" "kept d'"
  shows "\<exists>x. snd (ins e d' (fst (ins e d w))) = Inl x"
proof -
  obtain w' n where w': "ins e d w = (w', Inr n)" "rows e w' = (rows e w)(key d \<mapsto> d)" "coherent e w'"
    using ins_new_law [OF assms(1-3,7,4,5,8)] assms(6) by auto
  with assms ins_dup_law [of e w' d'] show ?thesis by auto
qed

lemma find_again:
  "good e \<Longrightarrow> coherent e w \<Longrightarrow> k \<in> keys e \<Longrightarrow> utf8_valid k' \<Longrightarrow> snd (find_one e k (fst (find_one e k' w))) = snd (find_one e k w)"
  by (simp add: find_result find_state)

end

text \<open>
  A model whose writes all keep the cache coherent: inserting needs no fresh key, and updates and
  deletions take effect on the next read.
\<close>

datatype 'd kv_op = KvInsert 'd | KvFind string | KvUpdate 'd | KvDelete string

text \<open>An operation stays within the keys: an inserted row is refused or stored under its key, and an updated one fits the table.\<close>

fun op_within :: "('d \<Rightarrow> string) \<Rightarrow> ('d \<Rightarrow> bool) \<Rightarrow> ('d \<Rightarrow> bool) \<Rightarrow> ('d \<Rightarrow> bool) \<Rightarrow> string set \<Rightarrow> 'd kv_op \<Rightarrow> bool" where
  "op_within key kept refused fits K (KvInsert d) = (key d \<in> K \<and> (refused d \<or> kept d))"
| "op_within key kept refused fits K (KvFind k) = (k \<in> K)"
| "op_within key kept refused fits K (KvUpdate d) = (key d \<in> K \<and> fits d)"
| "op_within key kept refused fits K (KvDelete k) = (k \<in> K)"

datatype 'd kv_out = OutInsert bool | OutFind "'d result" | OutDone bool

text \<open>The plain keyed table: \<open>trim\<close> is the row as it is stored, \<open>put\<close> gives a stored row another one's value.\<close>

fun kv_abs ::
  "('d \<Rightarrow> string) \<Rightarrow> ('d \<Rightarrow> 'd) \<Rightarrow> ('d \<Rightarrow> bool) \<Rightarrow> ('d \<Rightarrow> 'd \<Rightarrow> 'd) \<Rightarrow> 'd kv_op \<Rightarrow> (string \<rightharpoonup> 'd) \<Rightarrow> (string \<rightharpoonup> 'd) \<times> 'd kv_out" where
  "kv_abs key trim refused put (KvInsert d) m =
     (if m (key d) = None \<and> \<not> refused d then (m(key d \<mapsto> trim d), OutInsert True) else (m, OutInsert False))"
| "kv_abs key trim refused put (KvFind k) m = (m, OutFind (case m k of None \<Rightarrow> Inl ErrNotFound | Some d \<Rightarrow> Inr d))"
| "kv_abs key trim refused put (KvUpdate d) m = (m(key d := map_option (\<lambda>r. put r d) (m (key d))), OutDone True)"
| "kv_abs key trim refused put (KvDelete k) m = (m(k := None), OutDone True)"

fun kv_abs_run ::
  "('d \<Rightarrow> string) \<Rightarrow> ('d \<Rightarrow> 'd) \<Rightarrow> ('d \<Rightarrow> bool) \<Rightarrow> ('d \<Rightarrow> 'd \<Rightarrow> 'd) \<Rightarrow> 'd kv_op list \<Rightarrow> (string \<rightharpoonup> 'd) \<Rightarrow>
   (string \<rightharpoonup> 'd) \<times> 'd kv_out list" where
  "kv_abs_run key trim refused put [] m = (m, [])"
| "kv_abs_run key trim refused put (x # xs) m =
     (let (m', o1) = kv_abs key trim refused put x m; (m'', os) = kv_abs_run key trim refused put xs m' in (m'', o1 # os))"

text \<open>A model's operations with their visible outcomes.\<close>

definition succeeded :: "'a result \<Rightarrow> bool" where
  "succeeded r = (case r of Inl _ \<Rightarrow> False | Inr _ \<Rightarrow> True)"

lemma succeeded_simps [simp]: "succeeded (Inl e) = False" "succeeded (Inr x) = True"
  by (simp_all add: succeeded_def)

record ('d, 'w) kv_ops =
  op_insert :: "'d \<Rightarrow> 'w \<Rightarrow> 'w \<times> sql_result result"
  op_find :: "string \<Rightarrow> 'w \<Rightarrow> 'w \<times> 'd result"
  op_update :: "'d \<Rightarrow> 'w \<Rightarrow> 'w \<times> unit result"
  op_delete :: "string \<Rightarrow> 'w \<Rightarrow> 'w \<times> unit result"

fun kv_conc :: "('d, 'w) kv_ops \<Rightarrow> 'd kv_op \<Rightarrow> 'w \<Rightarrow> 'w \<times> 'd kv_out" where
  "kv_conc M (KvInsert d) w = map_prod id (\<lambda>r. OutInsert (succeeded r)) (op_insert M d w)"
| "kv_conc M (KvFind k) w = map_prod id OutFind (op_find M k w)"
| "kv_conc M (KvUpdate d) w = map_prod id (\<lambda>r. OutDone (succeeded r)) (op_update M d w)"
| "kv_conc M (KvDelete k) w = map_prod id (\<lambda>r. OutDone (succeeded r)) (op_delete M k w)"

fun kv_run :: "('d, 'w) kv_ops \<Rightarrow> 'd kv_op list \<Rightarrow> 'w \<Rightarrow> 'w \<times> 'd kv_out list" where
  "kv_run M [] w = (w, [])"
| "kv_run M (x # xs) w = (let (w', o1) = kv_conc M x w; (w'', os) = kv_run M xs w' in (w'', o1 # os))"

locale kv_store_full = kv_store good keys rows coherent "\<lambda>_ _ _. True" key trim kept refused ins find_one
  for good :: "'e \<Rightarrow> bool" and keys and rows :: "'e \<Rightarrow> 'w \<Rightarrow> string \<rightharpoonup> 'd" and coherent key trim kept refused ins find_one +
  fixes fits :: "'d \<Rightarrow> bool"
    and put :: "'d \<Rightarrow> 'd \<Rightarrow> 'd"
    and upd :: "'e \<Rightarrow> 'd \<Rightarrow> 'w \<Rightarrow> 'w \<times> unit result"
    and del :: "'e \<Rightarrow> string \<Rightarrow> 'w \<Rightarrow> 'w \<times> unit result"
  assumes upd_law: "good e \<Longrightarrow> coherent e w \<Longrightarrow> key d \<in> keys e \<Longrightarrow> fits d \<Longrightarrow>
      \<exists>w'. upd e d w = (w', Inr ()) \<and> coherent e w' \<and>
        rows e w' = (rows e w)(key d := map_option (\<lambda>r. put r d) (rows e w (key d)))"
    and del_law: "good e \<Longrightarrow> coherent e w \<Longrightarrow> k \<in> keys e \<Longrightarrow>
      \<exists>w'. del e k w = (w', Inr ()) \<and> coherent e w' \<and> rows e w' = (rows e w)(k := None)"
begin

definition ops :: "'e \<Rightarrow> ('d, 'w) kv_ops" where
  "ops e = \<lparr>op_insert = ins e, op_find = find_one e, op_update = upd e, op_delete = del e\<rparr>"

lemma kv_conc_refines:
  assumes "good e" "coherent e w" and x: "op_within key kept refused fits (keys e) x"
  shows "coherent e (fst (kv_conc (ops e) x w)) \<and>
    (rows e (fst (kv_conc (ops e) x w)), snd (kv_conc (ops e) x w)) = kv_abs key trim refused put x (rows e w)"
proof (cases x)
  case (KvInsert d)
  then have d: "key d \<in> keys e" "refused d \<or> kept d" using x by simp_all
  show ?thesis
  proof (cases "rows e w (key d) = None \<and> \<not> refused d")
    case True
    then show ?thesis using ins_new_law [OF assms(1,2) d(1)] d(2) KvInsert by (auto simp: ops_def)
  next
    case False
    then have "kept d \<and> rows e w (key d) \<noteq> None \<or> refused d" using d(2) by auto
    from ins_dup_law [OF assms(1,2) d(1) this] False show ?thesis
      using assms KvInsert by (auto simp: ops_def)
  qed
next
  case (KvFind k)
  then have "k \<in> keys e" using x by simp
  from find_run [OF assms(1,2) this] obtain w' where
    "find_one e k w = (w', case rows e w k of None \<Rightarrow> Inl ErrNotFound | Some d \<Rightarrow> Inr d)" "rows e w' = rows e w" "coherent e w'" .
  with KvFind show ?thesis by (simp add: ops_def)
next
  case (KvUpdate d)
  then show ?thesis using upd_law [OF assms(1,2), of d] x by (auto simp: ops_def)
next
  case (KvDelete k)
  then show ?thesis using del_law [OF assms(1,2), of k] x by (auto simp: ops_def)
qed

lemma kv_run_refines:
  "good e \<Longrightarrow> coherent e w \<Longrightarrow> \<forall>x \<in> set xs. op_within key kept refused fits (keys e) x \<Longrightarrow>
   (rows e (fst (kv_run (ops e) xs w)), snd (kv_run (ops e) xs w)) = kv_abs_run key trim refused put xs (rows e w)"
proof (induction xs arbitrary: w)
  case Nil
  then show ?case by simp
next
  case (Cons x xs)
  obtain w1 o1 where c: "kv_conc (ops e) x w = (w1, o1)" by fastforce
  with kv_conc_refines [OF Cons.prems(1,2), of x] Cons.prems(3)
  have 1: "coherent e w1" "kv_abs key trim refused put x (rows e w) = (rows e w1, o1)" by auto
  from Cons.IH [OF Cons.prems(1) 1(1)] Cons.prems(3) c 1(2) show ?case
    by (cases "kv_run (ops e) xs w1"; cases "kv_abs_run key trim refused put xs (rows e w1)") auto
qed

end

section \<open>An implementation of the libraries\<close>

text \<open>
  The world is a table and a cache. These functions meet the contracts; they show that the
  hypotheses can hold and give the witnesses something to run on. The table is kept by weights; the collation ignores
  the case of ASCII letters. They model no code of the repository.
\<close>

definition lower_char :: "char \<Rightarrow> char" where
  "lower_char c = (case map_of (zip ''ABCDEFGHIJKLMNOPQRSTUVWXYZ'' ''abcdefghijklmnopqrstuvwxyz'') c of None \<Rightarrow> c | Some d \<Rightarrow> d)"

definition lower :: "string \<Rightarrow> string" where
  "lower = map lower_char"

type_synonym 'r ref_world = "(string \<rightharpoonup> 'r) \<times> (string \<rightharpoonup> 'r option)"

definition ref_builder :: builder_lib where
  "ref_builder = \<lparr>RawFieldNames = map (\<lambda>t. ''`'' @ t @ ''`''),
     Remove = (\<lambda>xs rs. filter (\<lambda>x. x \<notin> set rs) xs)\<rparr>"

definition ref_view :: "('r, 'r ref_world) store_view" where
  "ref_view = \<lparr>collate = lower, table_of = (\<lambda>w k. fst w (lower k)), cache_of = snd,
     del_cache = (\<lambda>ks w. (fst w, \<lambda>k. if k \<in> set ks then None else snd w k)),
     set_cache = (\<lambda>k v w. (fst w, (snd w)(k \<mapsto> v)))\<rparr>"

definition ref_sql :: "'r table_spec \<Rightarrow> (string \<Rightarrow> sql_arg \<Rightarrow> 'r) \<Rightarrow> ('c, 'r, 'r ref_world) SqlConn" where
  "ref_sql T mk = \<lparr>
     SqlExec = (\<lambda>c q as w.
       if placeholders q \<noteq> length as then (w, Inl (Errorf ''wrong number of arguments''))
       else if q = stmt_insert T then
         (case as of
            [SqlStr k, v] \<Rightarrow> (let d = row_cut T (mk k v)
                              in if fst w (lower (row_key T d)) = None \<and> \<not> row_refused T (mk k v)
                                 then (((fst w)(lower (row_key T d) \<mapsto> d), snd w), Inr 1)
                                 else (w, Inl (Errorf ''Duplicate entry'')))
          | _ \<Rightarrow> (w, Inl (Errorf ''bad arguments'')))
       else if q = stmt_update T then
         (case as of
            [v, SqlStr k] \<Rightarrow> (((fst w)(lower k := map_option (\<lambda>r. row_put T r (mk k v)) (fst w (lower k))), snd w), Inr 1)
          | _ \<Rightarrow> (w, Inl (Errorf ''bad arguments'')))
       else if q = stmt_delete T then
         (case as of
            [SqlStr k] \<Rightarrow> (((fst w)(lower k := None), snd w), Inr (if fst w (lower k) = None then 0 else 1))
          | _ \<Rightarrow> (w, Inl (Errorf ''bad arguments'')))
       else (w, Inl (Errorf ''syntax error''))),
     SqlQueryRow = (\<lambda>c q as w.
       if q = stmt_select T then
         (case as of
            [SqlStr k] \<Rightarrow> (w, case fst w (lower k) of None \<Rightarrow> Inl ErrNotFound | Some d \<Rightarrow> Inr d)
          | _ \<Rightarrow> (w, Inl (Errorf ''bad arguments'')))
       else (w, Inl (Errorf ''syntax error'')))\<rparr>"

definition ref_cached :: "('c, 'r, 'r ref_world) SqlConn \<Rightarrow> ('c, 'r, 'r ref_world) CachedConn" where
  "ref_cached S = \<lparr>
     CExec = (\<lambda>c f ks w. case f c S w of
        (w', Inl e) \<Rightarrow> (w', Inl e)
      | (w', Inr r) \<Rightarrow> ((fst w', \<lambda>k. if k \<in> set ks then None else snd w' k), Inr r)),
     CQueryRow = (\<lambda>c k q w. case snd w k of
        Some (Some r) \<Rightarrow> (w, Inr r)
      | Some None \<Rightarrow> (w, Inl ErrNotFound)
      | None \<Rightarrow> (case q c S w of
          (w', Inr r) \<Rightarrow> ((fst w', (snd w')(k \<mapsto> Some r)), Inr r)
        | (w', Inl e) \<Rightarrow> if e = ErrNotFound then ((fst w', (snd w')(k \<mapsto> None)), Inl e) else (w', Inl e))),
     CExecNoCache = (\<lambda>c q as w. SqlExec S c q as w)\<rparr>"

lemma ref_builder_ok: "builder_ok ref_builder"
  by (simp add: builder_ok_def ref_builder_def)

lemma ref_view_fields [simp]:
  "collate ref_view = lower" "table_of ref_view w k = fst w (lower k)" "cache_of ref_view = snd"
  "del_cache ref_view ks w = (fst w, \<lambda>k. if k \<in> set ks then None else snd w k)"
  "set_cache ref_view k v w = (fst w, (snd w)(k \<mapsto> v))"
  by (simp_all add: ref_view_def)

lemma ref_cached_ok: "cached_conn_ok ref_view S (ref_cached S)"
  by (auto simp: cached_conn_ok_def ref_cached_def fun_eq_iff split: option.splits sum.splits prod.splits if_splits)

lemma ref_sql_ok:
  assumes "distinct [stmt_insert T, stmt_update T, stmt_delete T]"
    and "placeholders (stmt_insert T) = 2" "placeholders (stmt_update T) = 2"
    and "placeholders (stmt_delete T) = 1"
    and "\<And>d. mk (row_key T d) (row_val T d) = d" and "\<And>d. row_fits T d \<Longrightarrow> row_cut T d = d \<and> \<not> row_refused T d \<and> row_text T d \<and> utf8_valid (row_key T d)"
  shows "sql_table_ok ref_view (ref_sql T mk) T"
  unfolding sql_table_ok_def
proof (intro conjI allI impI, goal_cases)
  case (9 c d w)
  show ?case by (cases w) (use assms in \<open>auto simp: ref_sql_def row_set_def\<close>)
next
  case (10 c k w)
  show ?case by (cases w) (use assms in \<open>auto simp: ref_sql_def row_set_def\<close>)
qed (use assms in \<open>auto simp: ref_sql_def row_set_def Let_def\<close>)

lemma ref_coherent_empty: "cache_coherent ref_view p K (m, Map.empty)"
  by (simp add: cache_coherent_def)

end
