(* ===== verification/Book_Model.thy ===== *)
theory Book_Model
  imports Cached_Store
begin

text \<open>
  The \<^verbatim>\<open>book\<close> table model of the bookstore (\<^verbatim>\<open>bookstore/rpc/model/bookmodel.go\<close>). Unlike the short-URL
  model it inserts past the cache, and its list of updated columns keeps the primary key: the
  properties show what follows from each. It interprets \<open>kv_store\<close>, where an insert needs a key for
  which nothing is cached.
\<close>

section \<open>Rows and statements\<close>

record Book =
  Book_Book :: string
  Book_Price :: "64 word"

definition book_tags :: "string list" where
  "book_tags = [''book'', ''price'']"

definition bookFieldNames :: "builder_lib \<Rightarrow> string list" where
  "bookFieldNames L = RawFieldNames L book_tags"

definition bookRows :: "builder_lib \<Rightarrow> string" where
  "bookRows L = join '','' (bookFieldNames L)"

definition bookRowsExpectAutoSet :: "builder_lib \<Rightarrow> string" where
  "bookRowsExpectAutoSet L = join '','' (Remove L (bookFieldNames L) [''create_time'', ''update_time''])"

definition bookRowsWithPlaceHolder :: "builder_lib \<Rightarrow> string" where
  "bookRowsWithPlaceHolder L =
     join ''=?,'' (Remove L (bookFieldNames L) [''book'', ''create_time'', ''update_time'']) @ ''=?''"

definition cacheBookPrefix :: string where
  "cacheBookPrefix = ''cache#Book#book#''"

section \<open>The model and its operations\<close>

text \<open>The operations take no context.\<close>

record 'w defaultBookModel =
  bm_conn :: "(unit, Book, 'w) CachedConn"
  bm_table :: string
  bm_lib :: builder_lib

definition NewBookModel :: "(unit, Book, 'w) mysql_lib \<Rightarrow> (unit, Book, 'w) SqlConn \<Rightarrow> 'w defaultBookModel" where
  "NewBookModel L conn = \<lparr>bm_conn = NewConn L conn, bm_table = ''book'', bm_lib = Builder L\<rparr>"

definition Book_Insert :: "'w defaultBookModel \<Rightarrow> Book \<Rightarrow> 'w \<Rightarrow> 'w \<times> sql_result result" where
  "Book_Insert m data w =
     (let query = ''insert into '' @ bm_table m @ '' ('' @ bookRowsExpectAutoSet (bm_lib m) @ '') values (?, ?)''
      in CExecNoCache (bm_conn m) () query [SqlStr (Book_Book data), SqlInt (Book_Price data)] w)"

definition Book_FindOne :: "'w defaultBookModel \<Rightarrow> string \<Rightarrow> 'w \<Rightarrow> 'w \<times> Book result" where
  "Book_FindOne m book w =
     (let bookKey = cacheBookPrefix @ book
      in case CQueryRow (bm_conn m) () bookKey
                (\<lambda>ctx conn.
                   let query = ''select '' @ bookRows (bm_lib m) @ '' from '' @ bm_table m @ '' where book = ? limit 1''
                   in SqlQueryRow conn ctx query [SqlStr book]) w of
           (w', Inr resp) \<Rightarrow> (w', Inr resp)
         | (w', Inl err) \<Rightarrow> if err = ErrNotFound then (w', Inl ErrNotFound) else (w', Inl err))"

definition Book_Update :: "'w defaultBookModel \<Rightarrow> Book \<Rightarrow> 'w \<Rightarrow> 'w \<times> unit result" where
  "Book_Update m data w =
     (let bookKey = cacheBookPrefix @ Book_Book data
      in discard (CExec (bm_conn m) ()
           (\<lambda>ctx conn.
              let query = ''update '' @ bm_table m @ '' set '' @ bookRowsWithPlaceHolder (bm_lib m) @ '' where book = ?''
              in SqlExec conn ctx query [SqlInt (Book_Price data), SqlStr (Book_Book data)])
           [bookKey] w))"

definition Book_Delete :: "'w defaultBookModel \<Rightarrow> string \<Rightarrow> 'w \<Rightarrow> 'w \<times> unit result" where
  "Book_Delete m book w =
     (let bookKey = cacheBookPrefix @ book
      in discard (CExec (bm_conn m) ()
           (\<lambda>ctx conn.
              let query = ''delete from '' @ bm_table m @ '' where book = ?''
              in SqlExec conn ctx query [SqlStr book])
           [bookKey] w))"

definition Book_formatPrimary :: "'w defaultBookModel \<Rightarrow> string \<Rightarrow> string" where
  "Book_formatPrimary m primary = cacheBookPrefix @ primary"

definition Book_queryPrimary ::
  "'w defaultBookModel \<Rightarrow> (unit, Book, 'w) SqlConn \<Rightarrow> string \<Rightarrow> 'w \<Rightarrow> 'w \<times> Book result" where
  "Book_queryPrimary m conn primary =
     (let query = ''select '' @ bookRows (bm_lib m) @ '' from '' @ bm_table m @ '' where book = ? limit 1''
      in SqlQueryRow conn () query [SqlStr primary])"

section \<open>The statements as the database sees them\<close>

text \<open>
  The repository has two schemas of the table, with names of up to 255 characters: \<^verbatim>\<open>bookstore/rpc/model/book.sql\<close> gives
  prices 32 bits, \<^verbatim>\<open>bookstore/init.sql\<close> 64; \<open>n\<close> is the price column's width. The update is the one that sets the price of a book.
\<close>

definition book_spec :: "nat \<Rightarrow> Book table_spec" where
  "book_spec n = \<lparr>
     stmt_insert = ''insert into book (`book`,`price`) values (?, ?)'',
     stmt_select = ''select `book`,`price` from book where book = ? limit 1'',
     stmt_update = ''update book set `price`=? where book = ?'',
     stmt_delete = ''delete from book where book = ?'',
     row_key = Book_Book, row_val = (\<lambda>d. SqlInt (Book_Price d)), row_put = (\<lambda>r d. r\<lparr>Book_Price := Book_Price d\<rparr>),
     row_cut = (\<lambda>d. d\<lparr>Book_Book := cut_to 255 (Book_Book d)\<rparr>),
     row_fits = (\<lambda>d. utf8_valid (Book_Book d) \<and> utf8_length (Book_Book d) \<le> 255 \<and> - (2 ^ (n - 1)) \<le> sint (Book_Price d) \<and> sint (Book_Price d) < 2 ^ (n - 1)),
     row_refused = (\<lambda>d. too_long 255 (Book_Book d) \<or> \<not> (- (2 ^ (n - 1)) \<le> sint (Book_Price d) \<and> sint (Book_Price d) < 2 ^ (n - 1))), row_text = (\<lambda>d. utf8_valid (Book_Book d))\<rparr>"

lemma book_rows_of_spec [simp]:
  "row_key (book_spec n) = Book_Book" "row_val (book_spec n) d = SqlInt (Book_Price d)"
  "row_cut (book_spec n) d = d\<lparr>Book_Book := cut_to 255 (Book_Book d)\<rparr>" "row_text (book_spec n) d \<longleftrightarrow> utf8_valid (Book_Book d)"
  by (simp_all add: book_spec_def)

lemma book_fitsD: "row_fits (book_spec n) d \<Longrightarrow> row_cut (book_spec n) d = d \<and> row_kept (book_spec n) d \<and> \<not> row_refused (book_spec n) d"
  by (auto simp: book_spec_def row_kept_def dest: too_long_length)

text \<open>The names to remove are given without the backquotes the field names have, so nothing is
  removed: the update sets both columns and has three placeholders.\<close>

lemma book_columns:
  assumes "builder_ok L"
  shows "bookRows L = ''`book`,`price`''" "bookRowsExpectAutoSet L = ''`book`,`price`''"
    "bookRowsWithPlaceHolder L = ''`book`=?,`price`=?''"
  using assms
  by (simp_all add: builder_ok_def bookRows_def bookRowsExpectAutoSet_def bookRowsWithPlaceHolder_def
      bookFieldNames_def book_tags_def)

abbreviation book_model :: "(unit, Book, 'w) mysql_lib \<Rightarrow> 'w defaultBookModel" where
  "book_model L \<equiv> NewBookModel L (Mysql L)"

lemma book_unfold:
  assumes "builder_ok (Builder L)"
  shows "Book_Insert (book_model L) d w =
      CExecNoCache (NewConn L (Mysql L)) () (stmt_insert (book_spec n))
        [SqlStr (row_key (book_spec n) d), row_val (book_spec n) d] w"
    "Book_Update (book_model L) d w =
      discard (CExec (NewConn L (Mysql L)) ()
        (\<lambda>c conn. SqlExec conn c ''update book set `book`=?,`price`=? where book = ?''
            [row_val (book_spec n) d, SqlStr (row_key (book_spec n) d)])
        [cacheBookPrefix @ Book_Book d] w)"
    "Book_Delete (book_model L) k w =
      discard (CExec (NewConn L (Mysql L)) ()
        (\<lambda>c conn. SqlExec conn c (stmt_delete (book_spec n)) [SqlStr k])
        [cacheBookPrefix @ k] w)"
    "Book_FindOne (book_model L) k w =
      CQueryRow (NewConn L (Mysql L)) () (cacheBookPrefix @ k)
        (\<lambda>c conn. SqlQueryRow conn c (stmt_select (book_spec n)) [SqlStr k]) w"
  by (simp_all add: Book_Insert_def Book_Update_def Book_Delete_def Book_FindOne_def NewBookModel_def
      book_columns [OF assms] book_spec_def Let_def split: prod.splits sum.splits)

section \<open>The model as a keyed table\<close>

text \<open>An environment is the libraries, the view of the world and the keys a client uses.\<close>

type_synonym 'w book_env = "(unit, Book, 'w) mysql_lib \<times> (Book, 'w) store_view \<times> string set"

definition bk_good :: "nat \<Rightarrow> 'w book_env \<Rightarrow> bool" where
  "bk_good n = (\<lambda>(L, V, K). mysql_ok L V (book_spec n) \<and> spelled V K)"

definition bk_keys :: "'w book_env \<Rightarrow> string set" where
  "bk_keys = (\<lambda>(L, V, K). K)"

definition bk_rows :: "'w book_env \<Rightarrow> 'w \<Rightarrow> string \<rightharpoonup> Book" where
  "bk_rows = (\<lambda>(L, V, K) w. table_of V w |` K)"

definition bk_coherent :: "'w book_env \<Rightarrow> 'w \<Rightarrow> bool" where
  "bk_coherent = (\<lambda>(L, V, K). cache_coherent V cacheBookPrefix K)"

definition bk_fresh :: "'w book_env \<Rightarrow> string \<Rightarrow> 'w \<Rightarrow> bool" where
  "bk_fresh = (\<lambda>(L, V, K) k w. cache_of V w (cacheBookPrefix @ k) = None)"

lemmas bk_defs = bk_good_def bk_keys_def bk_rows_def bk_coherent_def bk_fresh_def

lemma bk_goodD:
  assumes "bk_good n (L, V, K)"
  shows "builder_ok (Builder L)" "cached_conn_ok V (Mysql L) (NewConn L (Mysql L))" "sql_table_ok V (Mysql L) (book_spec n)"
    "spelled V K"
  using assms by (simp_all add: bk_good_def mysql_ok_def)

interpretation bk: kv_store "bk_good n" bk_keys bk_rows bk_coherent bk_fresh Book_Book "row_cut (book_spec n)" "row_kept (book_spec n)" "row_refused (book_spec n)"
  "\<lambda>(L, V, K). Book_Insert (book_model L)" "\<lambda>(L, V, K). Book_FindOne (book_model L)" for n
proof (unfold_locales, goal_cases)
  case (1 e w k)
  obtain L V K where e: "e = (L, V, K)" by (cases e)
  note g = bk_goodD [OF 1(1) [unfolded e]]
  show ?case
    using cached_select [OF g(2,3), of cacheBookPrefix K w k "()"] 1 spelled_text [OF g(4)]
    by (simp add: e bk_defs book_unfold(4) [OF g(1), where n = n])
next
  case (2 e w k)
  obtain L V K where e: "e = (L, V, K)" by (cases e)
  note g = bk_goodD [OF 2(1) [unfolded e]]
  show ?case
    using cached_select_state [OF g(2,3), of cacheBookPrefix K w k "()"] 2(2,3)
    by (auto simp: e bk_defs book_unfold(4) [OF g(1), where n = n] prod_eq_iff)
next
  case (3 e k)
  then show ?case by (cases e) (auto simp: bk_defs intro: spelled_text)
next
  case (4 e w d)
  obtain L V K where e: "e = (L, V, K)" by (cases e)
  note g = bk_goodD [OF 4(1) [unfolded e]]
  show ?case
    using nocache_insert_new [OF g(2,3), of cacheBookPrefix K w d "()"] 4 row_set_spelled [OF g(4)]
    by (auto simp: e bk_defs book_unfold(1) [OF g(1), where n = n])
next
  case (5 e w d)
  obtain L V K where e: "e = (L, V, K)" by (cases e)
  note g = bk_goodD [OF 5(1) [unfolded e]]
  show ?case
    using nocache_insert_dup [OF g(2,3), of w d "()"] 5
    by (auto simp: row_kept_def e bk_defs book_unfold(1) [OF g(1), where n = n])
qed

lemma book_delete:
  assumes "mysql_ok L V (book_spec n)" "cache_coherent V cacheBookPrefix {k} w" "utf8_valid k"
  shows "\<exists>w'. Book_Delete (book_model L) k w = (w', Inr ()) \<and> cache_coherent V cacheBookPrefix {k} w' \<and>
    table_of V w' k = None"
  using cached_delete [OF mysql_okD(2,3) [OF assms(1)] assms(2), of k "()"] assms(3)
  by (auto simp: book_unfold(3) [OF mysql_okD(1) [OF assms(1)], where n = n])

lemma book_model_hidden:
  assumes "mysql_ok L V (book_spec n)" "table_of V w (Book_Book d) = None" "row_fits (book_spec n) d"
    and "cache_of V w (cacheBookPrefix @ Book_Book d) = None"
  shows "\<exists>w1 w2 n. Book_FindOne (NewBookModel L (Mysql L)) (Book_Book d) w = (w1, Inl ErrNotFound) \<and>
    Book_Insert (NewBookModel L (Mysql L)) d w1 = (w2, Inr n) \<and>
    table_of V w2 (Book_Book d) = Some d \<and>
    Book_FindOne (NewBookModel L (Mysql L)) (Book_Book d) w2 = (w2, Inl ErrNotFound)"
proof -
  note C = mysql_okD(2) [OF assms(1)] and T = mysql_okD(3) [OF assms(1)]
  let ?k = "cacheBookPrefix @ Book_Book d"
  let ?w1 = "set_cache V ?k None w"
  have 1: "Book_FindOne (book_model L) (Book_Book d) w = (?w1, Inl ErrNotFound)"
    using cached_miss [OF C T assms(4,2)] row_fitsD(4) [OF T assms(3)] by (simp add: book_unfold(4) [OF mysql_okD(1) [OF assms(1)], where n = n])
  have "table_of V ?w1 (row_key (book_spec n) d) = None" "cache_of V ?w1 ?k = Some None"
    using assms(2) by (simp_all add: set_cache_view [OF C])
  from nocache_insert_stale [OF C T this(1) assms(3) this(2), of "()"] 1 show ?thesis
    by (auto simp: book_unfold(1,4) [OF mysql_okD(1) [OF assms(1)], where n = n])
qed

lemma book_model_inserted:
  assumes "mysql_ok L V (book_spec n)" "table_of V w (Book_Book d) = None" "row_fits (book_spec n) d"
    and "cache_of V w (cacheBookPrefix @ Book_Book d) = None"
  shows "\<exists>w1 w2 i. Book_Insert (book_model L) d w = (w1, Inr i) \<and>
    Book_FindOne (book_model L) (Book_Book d) w1 = (w2, Inr d) \<and> bk_coherent (L, V, {Book_Book d}) w2 \<and>
    table_of V w2 (Book_Book d) = Some d"
proof -
  let ?e = "(L, V, {Book_Book d})"
  have u: "utf8_valid (Book_Book d)" using assms(3) by (simp add: book_spec_def)
  have g: "bk_good n ?e" "bk_coherent ?e w" "Book_Book d \<in> bk_keys ?e" "bk_fresh ?e (Book_Book d) w" "bk_rows ?e w (Book_Book d) = None"
    using assms u by (simp_all add: bk_defs cache_coherent_def)
  have f: "row_cut (book_spec n) d = d" "row_kept (book_spec n) d" "\<not> row_refused (book_spec n) d" "cut_to 255 (Book_Book d) = Book_Book d"
    using book_fitsD [OF assms(3)] assms(3) by (simp_all add: book_spec_def)
  obtain w1 i where w1: "Book_Insert (book_model L) d w = (w1, Inr i)" "bk_coherent ?e w1"
    "bk_rows ?e w1 = (bk_rows ?e w)(Book_Book d \<mapsto> d)"
    using bk.ins_new_law [OF g(1-3) f(2) g(4,5) f(3)] f(1) by auto
  from bk.find_run [OF g(1) w1(2) g(3)] obtain w2
    where "Book_FindOne (book_model L) (Book_Book d) w1 = (w2, Inr d)" "bk_rows ?e w2 = bk_rows ?e w1" "bk_coherent ?e w2"
    using w1(3) by auto
  with w1 show ?thesis by (auto simp: bk_rows_def fun_eq_iff restrict_map_def split: if_splits)
qed

section \<open>Properties\<close>

definition ref_book_lib :: "(unit, Book, Book ref_world) mysql_lib" where
  "ref_book_lib = \<lparr>Builder = ref_builder,
     Mysql = ref_sql (book_spec 64) (\<lambda>k v. case v of SqlInt i \<Rightarrow> \<lparr>Book_Book = k, Book_Price = i\<rparr> | _ \<Rightarrow> \<lparr>Book_Book = k, Book_Price = 0\<rparr>),
     NewConn = ref_cached\<rparr>"

lemma ref_book_ok: "mysql_ok ref_book_lib ref_view (book_spec 64)"
  unfolding mysql_ok_def ref_book_lib_def
  by (simp add: ref_builder_ok ref_cached_ok)
    (rule ref_sql_ok; auto simp: book_spec_def placeholders_def dest: too_long_length)

text \<open>
  C13. The book model's \<^verbatim>\<open>Update\<close> never succeeds: the statement it builds has three placeholders, for
  the key column too, and is given two arguments, so every call returns an error and leaves the
  database and the cache as they were.
\<close>

theorem book_update_always_fails:
  assumes "mysql_ok L V (book_spec n)"
  shows "\<exists>err. Book_Update (NewBookModel L (Mysql L)) d w = (w, Inl err)"
proof -
  let ?q = "''update book set `book`=?,`price`=? where book = ?''"
  have "placeholders ?q \<noteq> length [row_val (book_spec n) d, SqlStr (row_key (book_spec n) d)]"
    by (simp add: placeholders_def)
  from placeholder_mismatch [OF mysql_okD(3) [OF assms] this]
  obtain e where "SqlExec (Mysql L) () ?q [row_val (book_spec n) d, SqlStr (row_key (book_spec n) d)] w = (w, Inl e)" .
  then show ?thesis
    by (simp add: book_unfold(2) [OF mysql_okD(1) [OF assms], where n = n] cexec_err [OF mysql_okD(2) [OF assms]])
qed

theorem book_update_always_fails_witness:
  "\<exists>err. Book_Update (NewBookModel ref_book_lib (Mysql ref_book_lib)) \<lparr>Book_Book = ''sicp'', Book_Price = 40\<rparr>
     ([''sicp'' \<mapsto> \<lparr>Book_Book = ''sicp'', Book_Price = 30\<rparr>], Map.empty) =
     (([''sicp'' \<mapsto> \<lparr>Book_Book = ''sicp'', Book_Price = 30\<rparr>], Map.empty), Inl err)"
  by (rule book_update_always_fails [OF ref_book_ok])

text \<open>
  C14. A lookup that misses hides a later insert: after \<^verbatim>\<open>FindOne\<close> of an absent book has cached the
  absence (no stored name equals its name under the column's collation), \<^verbatim>\<open>Insert\<close> of that book, whose name and price fit the columns,
  succeeds and puts it in the table, but \<^verbatim>\<open>FindOne\<close> goes on answering not found as long as that entry lives, because the insert bypasses the cache and does not invalidate the key.
\<close>

theorem book_stale_absence:
  assumes "mysql_ok L V (book_spec n)" "table_of V w (Book_Book d) = None" "row_fits (book_spec n) d"
    and "cache_of V w (cacheBookPrefix @ Book_Book d) = None"
  shows "\<exists>w1 w2 n. Book_FindOne (NewBookModel L (Mysql L)) (Book_Book d) w = (w1, Inl ErrNotFound) \<and>
    Book_Insert (NewBookModel L (Mysql L)) d w1 = (w2, Inr n) \<and>
    table_of V w2 (Book_Book d) = Some d \<and>
    Book_FindOne (NewBookModel L (Mysql L)) (Book_Book d) w2 = (w2, Inl ErrNotFound)"
  using assms by (rule book_model_hidden)

theorem book_stale_absence_witness:
  "\<exists>w1 w2 n. Book_FindOne (NewBookModel ref_book_lib (Mysql ref_book_lib)) ''sicp'' (Map.empty, Map.empty) = (w1, Inl ErrNotFound) \<and>
    Book_Insert (NewBookModel ref_book_lib (Mysql ref_book_lib)) \<lparr>Book_Book = ''sicp'', Book_Price = 30\<rparr> w1 = (w2, Inr n) \<and>
    fst w2 ''sicp'' = Some \<lparr>Book_Book = ''sicp'', Book_Price = 30\<rparr> \<and>
    Book_FindOne (NewBookModel ref_book_lib (Mysql ref_book_lib)) ''sicp'' w2 = (w2, Inl ErrNotFound)"
  using book_stale_absence [OF ref_book_ok, of "(Map.empty, Map.empty)" "\<lparr>Book_Book = ''sicp'', Book_Price = 30\<rparr>"]
  by (simp add: book_spec_def utf8_length_def utf8_cont_def utf8_range_def lower_def lower_char_def)

text \<open>
  With nothing cached for its key, an inserted book is found with its price, and stays found by
  repeated lookups; a deleted book is gone for the next lookup; a second insert of the name fails
  and changes nothing.
\<close>

theorem book_model_roundtrip:
  assumes "mysql_ok L V (book_spec n)" "table_of V w (Book_Book d) = None" "row_fits (book_spec n) d"
    and "cache_of V w (cacheBookPrefix @ Book_Book d) = None"
  shows "\<exists>w1 w2 w3 n. Book_Insert (NewBookModel L (Mysql L)) d w = (w1, Inr n) \<and>
    Book_FindOne (NewBookModel L (Mysql L)) (Book_Book d) w1 = (w2, Inr d) \<and>
    (\<exists>err. Book_Insert (NewBookModel L (Mysql L)) (d\<lparr>Book_Price := p\<rparr>) w2 = (w2, Inl err)) \<and>
    snd (Book_FindOne (NewBookModel L (Mysql L)) (Book_Book d) w2) = Inr d \<and>
    Book_Delete (NewBookModel L (Mysql L)) (Book_Book d) w2 = (w3, Inr ()) \<and>
    snd (Book_FindOne (NewBookModel L (Mysql L)) (Book_Book d) w3) = Inl ErrNotFound"
proof -
  let ?e = "(L, V, {Book_Book d})"
  have u: "utf8_valid (Book_Book d)" using assms(3) by (simp add: book_spec_def)
  then have g: "bk_good n ?e" "Book_Book d \<in> bk_keys ?e" using assms by (simp_all add: bk_defs)
  obtain w1 w2 i where w1: "Book_Insert (book_model L) d w = (w1, Inr i)"
    and w2: "Book_FindOne (book_model L) (Book_Book d) w1 = (w2, Inr d)" "bk_coherent ?e w2" "table_of V w2 (Book_Book d) = Some d"
    using book_model_inserted [OF assms] by blast
  have "cut_to 255 (Book_Book d) = Book_Book d" using assms(3) by (simp add: book_spec_def)
  then have dup: "\<exists>err. Book_Insert (book_model L) (d\<lparr>Book_Price := p\<rparr>) w2 = (w2, Inl err)"
    using bk.ins_dup_law [OF g(1) w2(2), of "d\<lparr>Book_Price := p\<rparr>"] g(2) w2(3) u by (simp add: bk_rows_def row_kept_def)
  have again: "snd (Book_FindOne (book_model L) (Book_Book d) w2) = Inr d"
    using bk.find_result [OF g(1) w2(2) g(2)] w2(3) by (simp add: bk_rows_def)
  obtain w3 where w3: "Book_Delete (book_model L) (Book_Book d) w2 = (w3, Inr ())" "bk_coherent ?e w3"
    "table_of V w3 (Book_Book d) = None"
    using book_delete [OF assms(1), of "Book_Book d" w2] w2(2) u by (auto simp: bk_coherent_def)
  have "snd (Book_FindOne (book_model L) (Book_Book d) w3) = Inl ErrNotFound"
    using bk.find_result [OF g(1) w3(2) g(2)] w3(3) by (simp add: bk_rows_def)
  with w1 w2(1) w3(1) dup again show ?thesis by blast
qed

theorem book_model_roundtrip_witness:
  "\<exists>w1 w2 w3 n. Book_Insert (NewBookModel ref_book_lib (Mysql ref_book_lib)) \<lparr>Book_Book = ''sicp'', Book_Price = 30\<rparr> (Map.empty, Map.empty) = (w1, Inr n) \<and>
    Book_FindOne (NewBookModel ref_book_lib (Mysql ref_book_lib)) ''sicp'' w1 = (w2, Inr \<lparr>Book_Book = ''sicp'', Book_Price = 30\<rparr>) \<and>
    Book_Delete (NewBookModel ref_book_lib (Mysql ref_book_lib)) ''sicp'' w2 = (w3, Inr ()) \<and>
    snd (Book_FindOne (NewBookModel ref_book_lib (Mysql ref_book_lib)) ''sicp'' w3) = Inl ErrNotFound"
  using book_model_roundtrip [OF ref_book_ok, of "(Map.empty, Map.empty)" "\<lparr>Book_Book = ''sicp'', Book_Price = 30\<rparr>"]
  by (simp add: book_spec_def utf8_length_def utf8_cont_def utf8_range_def) blast

end
