(* ===== verification/Service_Lib.thy ===== *)
theory Service_Lib
  imports Go_Prelude "HOL-Library.Word" "HOL-Library.Countable"
begin

text \<open>
  The libraries the services of the repository are built on, as parameters with contracts, and the
  interfaces between the layers of a service.

  \<^item> gRPC: \<^verbatim>\<open>grpc.Invoke\<close> on the client side, \<^verbatim>\<open>grpc.ServiceDesc\<close> and the unary handlers on the server
    side. \<open>grpc_ok\<close> says that a call of a registered method runs its handler on the decoded request
    and brings back the response, or the error as a status.
  \<^item> JSON: \<^verbatim>\<open>jsonx.Marshal\<close> and \<^verbatim>\<open>jsonx.Unmarshal\<close> on the structs' tagged fields.
  \<^item> HTTP: \<^verbatim>\<open>httpx.Parse\<close>, and what a handler writes to its response writer.

  The locale \<open>unary_rpc\<close> is the interface of one RPC method seen from the client, \<open>parsed_handler\<close>
  the one of an HTTP handler over its logic.
\<close>

section \<open>gRPC\<close>

text \<open>
  Requests and responses travel as dynamically typed values \<open>'m\<close> (\<^verbatim>\<open>interface{}\<close>). A handler gets the
  service implementation, the context, the decoder of the request (into a fresh message) and the
  server's interceptor, if any.
\<close>

type_synonym ('c, 'm, 'w) unary_call = "'c \<Rightarrow> 'm \<Rightarrow> 'w \<Rightarrow> 'w \<times> 'm result"
type_synonym ('c, 'm, 'w) interceptor =
  "'c \<Rightarrow> 'm \<Rightarrow> string \<Rightarrow> ('c, 'm, 'w) unary_call \<Rightarrow> 'w \<Rightarrow> 'w \<times> 'm result"
type_synonym ('s, 'c, 'm, 'w) method_handler =
  "'s \<Rightarrow> 'c \<Rightarrow> ('m \<Rightarrow> 'm result) \<Rightarrow> ('c, 'm, 'w) interceptor option \<Rightarrow> 'w \<Rightarrow> 'w \<times> 'm result"
type_synonym ('c, 'm, 'w) grpc_conn = "'c \<Rightarrow> string \<Rightarrow> 'm \<Rightarrow> 'w \<Rightarrow> 'w \<times> 'm result"

record ('s, 'c, 'm, 'w) ServiceDesc =
  ServiceName :: string
  Methods :: "(string \<times> ('s, 'c, 'm, 'w) method_handler) list"
  Streams :: "string list"
  Metadata :: string

definition full_method :: "string \<Rightarrow> string \<Rightarrow> string" where
  "full_method svc m = ''/'' @ svc @ ''/'' @ m"

text \<open>The status an error of a handler has on the client: statuses pass, other errors become
  \<^verbatim>\<open>Unknown\<close> (2), a recovered panic \<^verbatim>\<open>Internal\<close> (13).\<close>

fun status_of :: "go_error \<Rightarrow> go_error" where
  "status_of (Status c s) = Status c s"
| "status_of (Panicked p) = Status 13 (err_text (Panicked p))"
| "status_of e = Status 2 (err_text e)"

text \<open>A typed message as the result of a call, and back.\<close>

definition wrap :: "('a \<Rightarrow> 'm) \<Rightarrow> 'w \<times> 'a result \<Rightarrow> 'w \<times> 'm result" where
  "wrap f = map_prod id (map_sum id f)"

lemma wrap_simps [simp]: "wrap f (w, Inl e) = (w, Inl e)" "wrap f (w, Inr x) = (w, Inr (f x))"
  by (simp_all add: wrap_def)

fun unwrap :: "('m \<Rightarrow> 'a option) \<Rightarrow> 'w \<times> 'm result \<Rightarrow> 'w \<times> 'a result" where
  "unwrap g (w, Inl e) = (w, Inl e)"
| "unwrap g (w, Inr m) =
     (case g m of None \<Rightarrow> (w, Inl (Status 13 ''cannot decode'')) | Some x \<Rightarrow> (w, Inr x))"

fun map_err :: "(go_error \<Rightarrow> go_error) \<Rightarrow> 'w \<times> 'a result \<Rightarrow> 'w \<times> 'a result" where
  "map_err f (w, Inl e) = (w, Inl (f e))"
| "map_err f (w, Inr x) = (w, Inr x)"

definition transparent :: "('c, 'm, 'w) interceptor option \<Rightarrow> bool" where
  "transparent ic \<longleftrightarrow> (case ic of None \<Rightarrow> True | Some i \<Rightarrow> (\<forall>c m p h w. i c m p h w = h c m w))"

text \<open>
  The connection \<open>I\<close> reaches a server with description \<open>D\<close> and implementation \<open>s\<close>. \<open>kind\<close> is a
  message's type, \<open>wfm\<close> says that it can be encoded, \<open>sc\<close> gives the server's context for the
  client's. A decoder gives the request back when it is asked for its own type.
\<close>

definition grpc_ok ::
  "('c, 'm, 'w) grpc_conn \<Rightarrow> ('s, 'c, 'm, 'w) ServiceDesc \<Rightarrow> 's \<Rightarrow> ('c, 'm, 'w) interceptor option \<Rightarrow>
   ('m \<Rightarrow> 'k) \<Rightarrow> ('m \<Rightarrow> bool) \<Rightarrow> ('c \<Rightarrow> 'c) \<Rightarrow> bool" where
  "grpc_ok I D s ic kind wfm sc \<longleftrightarrow> transparent ic \<and>
     (\<forall>c n h m w. map_of (Methods D) n = Some h \<and> wfm m \<longrightarrow>
        (\<exists>dec. (\<forall>m0. kind m0 = kind m \<longrightarrow> dec m0 = Inr m) \<and>
           I c (full_method (ServiceName D) n) m w =
             map_err status_of (h s (sc c) dec ic w)))"

lemma grpc_ok_transparent: "grpc_ok I D s ic kind wfm sc \<Longrightarrow> transparent ic"
  by (simp add: grpc_ok_def)

lemma grpc_call:
  assumes "grpc_ok I D s ic kind wfm sc" "map_of (Methods D) n = Some h" "wfm m"
    and "path = full_method (ServiceName D) n"
    and "\<And>dec. \<forall>m0. kind m0 = kind m \<longrightarrow> dec m0 = Inr m \<Longrightarrow> h s (sc c) dec ic w = r"
  shows "I c path m w = map_err status_of r"
proof -
  obtain dec where "\<forall>m0. kind m0 = kind m \<longrightarrow> dec m0 = Inr m"
    "I c path m w = map_err status_of (h s (sc c) dec ic w)"
    using assms(1-4) unfolding grpc_ok_def by metis
  with assms(5) show ?thesis by simp
qed

text \<open>The body that \<^verbatim>\<open>protoc\<close> generates for every unary handler runs the method, whatever
  transparent interceptor is installed.\<close>

lemma transparent_cases:
  assumes "transparent ic"
  shows "(case ic of None \<Rightarrow> h c m w | Some i \<Rightarrow> i c m p h w) = h c m w"
  using assms by (cases ic) (simp_all add: transparent_def)

lemma unwrap_wrap: "(\<And>x. g (f x) = Some x) \<Longrightarrow> unwrap g (map_err h (wrap f r)) = map_err h r"
  by (cases r; cases "snd r") auto

text \<open>A connection that serves a description in process; it meets the contract.\<close>

definition local_conn ::
  "('s, 'c, 'm, 'w) ServiceDesc \<Rightarrow> 's \<Rightarrow> ('c, 'm, 'w) interceptor option \<Rightarrow> ('m \<Rightarrow> 'k) \<Rightarrow>
   ('c, 'm, 'w) grpc_conn" where
  "local_conn D s ic kind c path m w =
     (case find (\<lambda>(n, h). full_method (ServiceName D) n = path) (Methods D) of
        None \<Rightarrow> (w, Inl (Status 12 ''unknown method''))
      | Some (n, h) \<Rightarrow>
          map_err status_of
            (h s c (\<lambda>m0. if kind m0 = kind m then Inr m else Inl (Status 13 ''cannot decode'')) ic w))"

lemma find_full_method:
  "find (\<lambda>(n', h). full_method svc n' = full_method svc n) ms = map_option (Pair n) (map_of ms n)"
  by (induction ms) (auto simp: full_method_def)

lemma local_conn_ok: "transparent ic \<Longrightarrow> grpc_ok (local_conn D s ic kind) D s ic kind wfm id"
  unfolding grpc_ok_def
proof (intro conjI allI impI, assumption, elim conjE)
  fix c n h m w
  assume "map_of (Methods D) n = Some h"
  then show "\<exists>dec. (\<forall>m0. kind m0 = kind m \<longrightarrow> dec m0 = Inr m) \<and>
    local_conn D s ic kind c (full_method (ServiceName D) n) m w = map_err status_of (h s (id c) dec ic w)"
    by (intro exI [of _ "\<lambda>m0. if kind m0 = kind m then Inr m else Inl (Status 13 ''cannot decode'')"])
      (simp add: local_conn_def find_full_method)
qed

text \<open>
  One method seen from the client: under \<open>linked e\<close>, the client's call has the outcome of the server's
  method, with its errors as statuses.
\<close>

locale unary_rpc =
  fixes linked :: "'e \<Rightarrow> bool"
    and wfm :: "'a \<Rightarrow> bool"
    and call :: "'e \<Rightarrow> 'c \<Rightarrow> 'a \<Rightarrow> 'w \<Rightarrow> 'w \<times> 'b result"
    and impl :: "'e \<Rightarrow> 'c \<Rightarrow> 'a \<Rightarrow> 'w \<Rightarrow> 'w \<times> 'b result"
  assumes call_law: "linked e \<Longrightarrow> wfm a \<Longrightarrow> call e c a w = map_err status_of (impl e c a w)"
begin

lemma call_ok: "linked e \<Longrightarrow> wfm a \<Longrightarrow> impl e c a w = (w', Inr b) \<Longrightarrow> call e c a w = (w', Inr b)"
  by (simp add: call_law)

lemma call_err:
  "linked e \<Longrightarrow> wfm a \<Longrightarrow> impl e c a w = (w', Inl x) \<Longrightarrow> call e c a w = (w', Inl (status_of x))"
  by (simp add: call_law)

lemma call_ok_iff:
  "linked e \<Longrightarrow> wfm a \<Longrightarrow> call e c a w = (w', Inr b) \<longleftrightarrow> impl e c a w = (w', Inr b)"
  by (cases "impl e c a w"; cases "snd (impl e c a w)") (auto simp: call_law)

lemma call_world: "linked e \<Longrightarrow> wfm a \<Longrightarrow> fst (call e c a w) = fst (impl e c a w)"
  by (cases "impl e c a w"; cases "snd (impl e c a w)") (auto simp: call_law)

end

text \<open>
  The same contract for a server with any interceptor, and an interceptor that passes on and then has
  an effect of its own, such as a log line.
\<close>

definition grpc_serves ::
  "('c, 'm, 'w) grpc_conn \<Rightarrow> ('s, 'c, 'm, 'w) ServiceDesc \<Rightarrow> 's \<Rightarrow> ('c, 'm, 'w) interceptor option \<Rightarrow>
   ('m \<Rightarrow> 'k) \<Rightarrow> ('m \<Rightarrow> bool) \<Rightarrow> ('c \<Rightarrow> 'c) \<Rightarrow> bool" where
  "grpc_serves I D s ic kind wfm sc \<longleftrightarrow>
     (\<forall>c n h m w. map_of (Methods D) n = Some h \<and> wfm m \<longrightarrow>
        (\<exists>dec. (\<forall>m0. kind m0 = kind m \<longrightarrow> dec m0 = Inr m) \<and>
           I c (full_method (ServiceName D) n) m w = map_err status_of (h s (sc c) dec ic w)))"

lemma grpc_ok_iff: "grpc_ok I D s ic kind wfm sc \<longleftrightarrow> transparent ic \<and> grpc_serves I D s ic kind wfm sc"
  by (simp add: grpc_ok_def grpc_serves_def)

lemma local_conn_serves: "grpc_serves (local_conn D s ic kind) D s ic kind wfm id"
  unfolding grpc_serves_def
proof (intro allI impI, elim conjE)
  fix c n h m w
  assume "map_of (Methods D) n = Some h"
  then show "\<exists>dec. (\<forall>m0. kind m0 = kind m \<longrightarrow> dec m0 = Inr m) \<and>
    local_conn D s ic kind c (full_method (ServiceName D) n) m w = map_err status_of (h s (id c) dec ic w)"
    by (intro exI [of _ "\<lambda>m0. if kind m0 = kind m then Inr m else Inl (Status 13 ''cannot decode'')"])
      (simp add: local_conn_def find_full_method)
qed

definition after :: "(string \<Rightarrow> 'w \<Rightarrow> 'w) \<Rightarrow> ('c, 'm, 'w) interceptor" where
  "after note c m path h w = (case h c m w of (w', r) \<Rightarrow> (note path w', r))"

text \<open>
  One generated method: its description \<open>D\<close> registers the handler under \<open>meth\<close>, the handler reports
  \<open>full\<close> to an interceptor, the stub calls the registered path. Under an interceptor of the form
  \<open>after note\<close> the stub's call is the implementation's, followed by the note.
\<close>

locale generated_stub =
  fixes D :: "('s, 'c, 'm, 'w) ServiceDesc"
    and meth :: string
    and full :: string
    and handler :: "('s, 'c, 'm, 'w) method_handler"
    and impl :: "'s \<Rightarrow> 'c \<Rightarrow> 'a \<Rightarrow> 'w \<Rightarrow> 'w \<times> 'b result"
    and kind :: "'m \<Rightarrow> 'k"
    and wfm :: "'m \<Rightarrow> bool"
    and req :: "'a \<Rightarrow> 'm"
    and resp :: "'b \<Rightarrow> 'm"
    and as_resp :: "'m \<Rightarrow> 'b option"
    and stub :: "('c, 'm, 'w) grpc_conn \<Rightarrow> 'c \<Rightarrow> 'a \<Rightarrow> 'w \<Rightarrow> 'w \<times> 'b result"
  assumes registered: "map_of (Methods D) meth = Some handler"
    and stub_law: "stub I c a w = unwrap as_resp (I c (full_method (ServiceName D) meth) (req a) w)"
    and as_resp_law: "as_resp (resp b) = Some b"
    and handler_plain: "(\<And>m0. kind m0 = kind (req a) \<Longrightarrow> dec m0 = Inr (req a)) \<Longrightarrow>
      handler s c dec None w = wrap resp (impl s c a w)"
    and handler_noted: "(\<And>m0. kind m0 = kind (req a) \<Longrightarrow> dec m0 = Inr (req a)) \<Longrightarrow>
      handler s c dec (Some (after note)) w = (case wrap resp (impl s c a w) of (w', r) \<Rightarrow> (note full w', r))"
begin

lemma stub_plain:
  assumes "grpc_serves I D s None kind wfm sc" "wfm (req a)"
  shows "stub I c a w = map_err status_of (impl s (sc c) a w)"
proof -
  obtain dec where d: "\<forall>m0. kind m0 = kind (req a) \<longrightarrow> dec m0 = Inr (req a)"
    and i: "I c (full_method (ServiceName D) meth) (req a) w = map_err status_of (handler s (sc c) dec None w)"
    using assms registered unfolding grpc_serves_def by metis
  have "handler s (sc c) dec None w = wrap resp (impl s (sc c) a w)" by (rule handler_plain) (use d in simp)
  then show ?thesis by (simp add: stub_law i unwrap_wrap as_resp_law)
qed

lemma stub_noted:
  assumes "grpc_serves I D s (Some (after note)) kind wfm sc" "wfm (req a)"
  shows "stub I c a w = (case impl s (sc c) a w of (w', r) \<Rightarrow> map_err status_of (note full w', r))"
proof -
  obtain dec where d: "\<forall>m0. kind m0 = kind (req a) \<longrightarrow> dec m0 = Inr (req a)"
    and i: "I c (full_method (ServiceName D) meth) (req a) w = map_err status_of (handler s (sc c) dec (Some (after note)) w)"
    using assms registered unfolding grpc_serves_def by metis
  have h: "handler s (sc c) dec (Some (after note)) w = (case wrap resp (impl s (sc c) a w) of (w', r) \<Rightarrow> (note full w', r))"
    by (rule handler_noted) (use d in simp)
  obtain w' r where "impl s (sc c) a w = (w', r)" by fastforce
  then show ?thesis by (cases r) (simp_all add: stub_law i h as_resp_law)
qed

end

section \<open>JSON\<close>

datatype json_val = JStr string | JInt "64 word" | JBool bool

text \<open>
  What reflection sees of a struct: for each field the name of its \<^verbatim>\<open>json\<close> tag, whether the tag has
  \<^verbatim>\<open>omitempty\<close>, and the value. Unmarshalling gets the target's fields with their zero values.
\<close>

type_synonym json_fields = "(string \<times> bool \<times> json_val) list"

record json_lib =
  Marshal :: "json_fields \<Rightarrow> string result"
  Unmarshal :: "string \<Rightarrow> (string \<times> json_val) list \<Rightarrow> json_val list result"

fun json_zero :: "json_val \<Rightarrow> json_val" where
  "json_zero (JStr s) = JStr []"
| "json_zero (JInt i) = JInt 0"
| "json_zero (JBool b) = JBool False"

fun json_text_ok :: "json_val \<Rightarrow> bool" where
  "json_text_ok (JStr s) = utf8_valid s"
| "json_text_ok v = True"

definition json_lookup :: "json_fields \<Rightarrow> string \<times> json_val \<Rightarrow> json_val" where
  "json_lookup fs t = (case map_of fs (fst t) of None \<Rightarrow> snd t | Some (om, v) \<Rightarrow> v)"

text \<open>
  Marshalling a struct whose strings are valid UTF-8 and reading the text into a struct with matching
  fields copies the values; a field that \<^verbatim>\<open>omitempty\<close> left out is the zero value of its type.
\<close>

definition json_ok :: "json_lib \<Rightarrow> bool" where
  "json_ok J \<longleftrightarrow>
     (\<forall>fs. distinct (map fst fs) \<and> (\<forall>(n, om, v) \<in> set fs. json_text_ok v) \<longrightarrow>
        (\<exists>b. Marshal J fs = Inr b \<and>
           (\<forall>ts. (\<forall>(n, z) \<in> set ts. \<exists>om v. map_of fs n = Some (om, v) \<and> json_zero v = z) \<longrightarrow>
              Unmarshal J b ts = Inr (map (json_lookup fs) ts))))"

lemma json_copy:
  assumes "json_ok J" "distinct (map fst fs)" "\<forall>(n, om, v) \<in> set fs. json_text_ok v"
    and "\<forall>(n, z) \<in> set ts. \<exists>om v. map_of fs n = Some (om, v) \<and> json_zero v = z"
  obtains b where "Marshal J fs = Inr b" "Unmarshal J b ts = Inr (map (json_lookup fs) ts)"
  using assms unfolding json_ok_def by blast

text \<open>
  The conversion the generated RPC clients make on requests and responses: marshal one struct,
  unmarshal into another, and report \<^verbatim>\<open>errJsonConvert\<close> when either fails.
\<close>

definition json_convert ::
  "json_lib \<Rightarrow> go_error \<Rightarrow> json_fields \<Rightarrow> (string \<times> json_val) list \<Rightarrow> json_val list result" where
  "json_convert J e fs ts =
     (case Marshal J fs of
        Inl _ \<Rightarrow> Inl e
      | Inr bts \<Rightarrow> (case Unmarshal J bts ts of Inl _ \<Rightarrow> Inl e | Inr vs \<Rightarrow> Inr vs))"

lemma json_convert_one:
  assumes "json_ok J" "json_text_ok v"
  shows "json_convert J e [(n, om, v)] [(n, json_zero v)] = Inr [v]"
proof -
  obtain b where "Marshal J [(n, om, v)] = Inr b"
    "Unmarshal J b [(n, json_zero v)] = Inr (map (json_lookup [(n, om, v)]) [(n, json_zero v)])"
    using json_copy [OF assms(1), of "[(n, om, v)]" "[(n, json_zero v)]"] assms(2) by auto
  then show ?thesis by (simp add: json_convert_def json_lookup_def)
qed

lemma json_convert_two:
  assumes "json_ok J" "json_text_ok v" "json_text_ok v'" "n \<noteq> n'"
  shows "json_convert J e [(n, om, v), (n', om', v')] [(n, json_zero v), (n', json_zero v')] = Inr [v, v']"
proof -
  let ?fs = "[(n, om, v), (n', om', v')]" and ?ts = "[(n, json_zero v), (n', json_zero v')]"
  obtain b where "Marshal J ?fs = Inr b" "Unmarshal J b ?ts = Inr (map (json_lookup ?fs) ?ts)"
    using json_copy [OF assms(1), of ?fs ?ts] assms(2-4) by auto
  with assms(4) show ?thesis by (simp add: json_convert_def json_lookup_def)
qed

text \<open>Reading a target's fields back: the \<open>i\<close>-th value, or the zero value.\<close>

fun js_str :: "json_val \<Rightarrow> string" where
  "js_str (JStr s) = s"
| "js_str _ = []"

fun js_int :: "json_val \<Rightarrow> 64 word" where
  "js_int (JInt i) = i"
| "js_int _ = 0"

fun js_bool :: "json_val \<Rightarrow> bool" where
  "js_bool (JBool b) = b"
| "js_bool _ = False"

definition field_str :: "nat \<Rightarrow> json_val list \<Rightarrow> string" where
  "field_str i vs = (if i < length vs then js_str (vs ! i) else [])"

definition field_int :: "nat \<Rightarrow> json_val list \<Rightarrow> 64 word" where
  "field_int i vs = (if i < length vs then js_int (vs ! i) else 0)"

definition field_bool :: "nat \<Rightarrow> json_val list \<Rightarrow> bool" where
  "field_bool i vs = (if i < length vs then js_bool (vs ! i) else False)"

lemma field_simps [simp]:
  "field_str 0 (v # vs) = js_str v" "field_str (Suc i) (v # vs) = field_str i vs"
  "field_int 0 (v # vs) = js_int v" "field_int (Suc i) (v # vs) = field_int i vs"
  "field_bool 0 (v # vs) = js_bool v" "field_bool (Suc i) (v # vs) = field_bool i vs"
  by (simp_all add: field_str_def field_int_def field_bool_def)

text \<open>A library that meets the contract: it numbers the field lists and writes the number in unary.\<close>

instance json_val :: countable
  by countable_datatype

definition ref_json :: json_lib where
  "ref_json = \<lparr>Marshal = (\<lambda>fs. Inr (replicate (to_nat fs) (CHR ''1''))),
     Unmarshal = (\<lambda>b ts. Inr (map (json_lookup (from_nat (length b))) ts))\<rparr>"

lemma ref_json_ok: "json_ok ref_json"
  by (simp add: json_ok_def ref_json_def)

section \<open>HTTP\<close>

text \<open>
  \<^verbatim>\<open>httpx.Parse\<close> fills a request struct from path, form, header and body by the struct's tags; \<open>'q\<close> is
  the request. What a handler writes: an error (\<^verbatim>\<open>httpx.Error\<close>), a JSON body, a status line only, plain
  text, a header, an error text with its status (\<^verbatim>\<open>http.Error\<close>), a JSON string,
  or a JSON string with a status (\<^verbatim>\<open>httpx.WriteJson\<close>).
\<close>

datatype form_kind = FormField | JsonField | PathField | HeaderField

datatype http_write =
    HttpError go_error
  | HttpJson nat json_fields
  | HttpStatus nat
  | HttpText string
  | HttpHeader string string
  | HttpErrorText nat string
  | HttpJsonStr string
  | HttpJsonStatus nat string

type_synonym 'q http_parse = "'q \<Rightarrow> (form_kind \<times> string \<times> json_val) list \<Rightarrow> json_val list result"

text \<open>The request's context, its remote address and \<^verbatim>\<open>httpx.Parse\<close>.\<close>

record ('q, 'c) http_lib =
  Context :: "'q \<Rightarrow> 'c"
  RemoteAddr :: "'q \<Rightarrow> string"
  Parse :: "'q http_parse"

record ('q, 'c, 'w) Route =
  Method :: string
  Path :: string
  Handler :: "'q \<Rightarrow> 'w \<Rightarrow> 'w \<times> http_write list"

definition route_for :: "('q, 'c, 'w) Route list \<Rightarrow> string \<Rightarrow> string \<Rightarrow> ('q \<Rightarrow> 'w \<Rightarrow> 'w \<times> http_write list) option" where
  "route_for rs m p = map_option Handler (find (\<lambda>r. Method r = m \<and> Path r = p) rs)"

text \<open>The router dispatches on method and path; a path known under another method gets 405, an unknown one 404.\<close>

definition serve ::
  "('q, 'c, 'w) Route list \<Rightarrow> string \<times> string \<times> 'q \<Rightarrow> 'w \<Rightarrow> 'w \<times> http_write list" where
  "serve rs = (\<lambda>(m, p, q) w. case route_for rs m p of
       None \<Rightarrow> (w, [HttpStatus (if list_ex (\<lambda>r. Path r = p) rs then 405 else 404)])
     | Some h \<Rightarrow> h q w)"

definition serve_all :: "('q, 'c, 'w) Route list \<Rightarrow> (string \<times> string \<times> 'q) list \<Rightarrow> 'w \<Rightarrow> 'w" where
  "serve_all rs = fold (\<lambda>r w. fst (serve rs r w))"

lemma serve_all_simps [simp]:
  "serve_all rs [] w = w" "serve_all rs (r # qs) w = serve_all rs qs (fst (serve rs r w))"
  by (simp_all add: serve_all_def)

lemma serve_all_inv:
  "(\<And>r w. r \<in> set qs \<Longrightarrow> P w \<Longrightarrow> P (fst (serve rs r w))) \<Longrightarrow> P w \<Longrightarrow> P (serve_all rs qs w)"
  by (induction qs arbitrary: w) auto

text \<open>
  The goctl handler: parse the request, run the logic, answer. \<open>logged_handler\<close> is the interface of a
  handler that also notes each stage in its log; \<open>parsed_handler\<close> the one of a handler that does not.
\<close>

locale logged_handler =
  fixes parse :: "'e \<Rightarrow> 'q \<Rightarrow> 'a result"
    and logic :: "'e \<Rightarrow> 'q \<Rightarrow> 'a \<Rightarrow> 'w \<Rightarrow> 'w \<times> 'b result"
    and reply :: "'b \<Rightarrow> http_write list"
    and note_bad :: "'e \<Rightarrow> 'q \<Rightarrow> go_error \<Rightarrow> 'w \<Rightarrow> 'w"
    and note_req :: "'e \<Rightarrow> 'q \<Rightarrow> 'a \<Rightarrow> 'w \<Rightarrow> 'w"
    and note_err :: "'e \<Rightarrow> 'q \<Rightarrow> go_error \<Rightarrow> 'w \<Rightarrow> 'w"
    and note_ok :: "'e \<Rightarrow> 'q \<Rightarrow> 'b \<Rightarrow> 'w \<Rightarrow> 'w"
    and handler :: "'e \<Rightarrow> 'q \<Rightarrow> 'w \<Rightarrow> 'w \<times> http_write list"
  assumes handler_bad: "parse e q = Inl x \<Longrightarrow> handler e q w = (note_bad e q x w, [HttpError x])"
    and handler_err: "parse e q = Inr a \<Longrightarrow> logic e q a (note_req e q a w) = (w', Inl x) \<Longrightarrow>
      handler e q w = (note_err e q x w', [HttpError x])"
    and handler_ok: "parse e q = Inr a \<Longrightarrow> logic e q a (note_req e q a w) = (w', Inr b) \<Longrightarrow>
      handler e q w = (note_ok e q b w', reply b)"
begin

text \<open>Every request gets exactly one answer: an error, or the reply to the logic's result.\<close>

lemma handler_cases:
  "snd (handler e q w) =
     (case parse e q of Inl x \<Rightarrow> [HttpError x]
      | Inr a \<Rightarrow> (case snd (logic e q a (note_req e q a w)) of Inl x \<Rightarrow> [HttpError x] | Inr b \<Rightarrow> reply b))"
proof (cases "parse e q")
  case (Inl x)
  then show ?thesis by (simp add: handler_bad)
next
  case (Inr a)
  then show ?thesis
    by (cases "logic e q a (note_req e q a w)"; cases "snd (logic e q a (note_req e q a w))")
      (auto simp: handler_err handler_ok)
qed

end

locale parsed_handler =
  fixes parse :: "'e \<Rightarrow> 'q \<Rightarrow> 'a result"
    and logic :: "'e \<Rightarrow> 'q \<Rightarrow> 'a \<Rightarrow> 'w \<Rightarrow> 'w \<times> 'b result"
    and reply :: "'b \<Rightarrow> http_write list"
    and handler :: "'e \<Rightarrow> 'q \<Rightarrow> 'w \<Rightarrow> 'w \<times> http_write list"
  assumes handler_plain: "handler e q w =
    (case parse e q of
       Inl x \<Rightarrow> (w, [HttpError x])
     | Inr a \<Rightarrow> (case logic e q a w of (w', Inl x) \<Rightarrow> (w', [HttpError x]) | (w', Inr b) \<Rightarrow> (w', reply b)))"

sublocale parsed_handler \<subseteq> silent: logged_handler parse logic reply
  "\<lambda>_ _ _ w. w" "\<lambda>_ _ _ w. w" "\<lambda>_ _ _ w. w" "\<lambda>_ _ _ w. w" handler
  by unfold_locales (simp_all add: handler_plain)

context parsed_handler
begin

lemma handler_world: "parse e q = Inr a \<Longrightarrow> fst (handler e q w) = fst (logic e q a w)"
  by (cases "logic e q a w"; cases "snd (logic e q a w)") (auto simp: handler_plain)

text \<open>A request that does not parse has no effect.\<close>

lemma handler_no_effect: "parse e q = Inl x \<Longrightarrow> fst (handler e q w) = w"
  by (simp add: handler_plain)

end

section \<open>Logging\<close>

text \<open>
  A world with a log in front of it: the lines written so far, oldest first. A call to a component
  that does not log keeps the log.
\<close>

datatype log_level = LInfo | LError

type_synonym 'w logged = "(log_level \<times> string) list \<times> 'w"

definition log_line :: "log_level \<Rightarrow> string \<Rightarrow> 'w logged \<Rightarrow> 'w logged" where
  "log_line lv s w = (fst w @ [(lv, s)], snd w)"

definition no_log :: "('w \<Rightarrow> 'w \<times> 'a) \<Rightarrow> 'w logged \<Rightarrow> 'w logged \<times> 'a" where
  "no_log f w = ((fst w, fst (f (snd w))), snd (f (snd w)))"

lemma snd_log_line [simp]: "snd (log_line lv s w) = snd w"
  by (simp add: log_line_def)

lemma fst_log_line [simp]: "fst (log_line lv s w) = fst w @ [(lv, s)]"
  by (simp add: log_line_def)

lemma no_log_eq: "f (snd w) = (v, r) \<Longrightarrow> no_log f w = ((fst w, v), r)"
  by (simp add: no_log_def)

text \<open>\<^verbatim>\<open>data, _ := json.Marshal(x)\<close>: nil on error.\<close>

definition marshal_or_nil :: "json_lib \<Rightarrow> json_fields \<Rightarrow> string" where
  "marshal_or_nil J fs = (case Marshal J fs of Inl _ \<Rightarrow> [] | Inr b \<Rightarrow> b)"

end
