(* ===== verification/Book_Service.thy ===== *)
theory Book_Service
  imports Book_Model Service_Lib
begin

text \<open>
  The bookstore above its model: the \<^verbatim>\<open>add\<close> and \<^verbatim>\<open>check\<close> RPC services (\<^verbatim>\<open>bookstore/rpc/add\<close>,
  \<^verbatim>\<open>bookstore/rpc/check\<close>: messages, stubs, handlers, logic, servers and client packages) and the HTTP
  API over both (\<^verbatim>\<open>bookstore/api\<close>). The logic and the handlers write log lines; the world is a log in
  front of the database (\<open>'w logged\<close>), with the lines of all processes in the order they are written.
\<close>

section \<open>Messages\<close>

text \<open>The run-time fields of the generated structs (\<^verbatim>\<open>state\<close>, \<^verbatim>\<open>sizeCache\<close>, \<^verbatim>\<open>unknownFields\<close>) belong to
  the protobuf library.\<close>

record pb_AddReq =
  AddReq_Book :: string
  AddReq_Price :: "64 word"
record pb_AddResp = AddResp_Ok :: bool
record pb_CheckReq = CheckReq_Book :: string
record pb_CheckResp =
  CheckResp_Found :: bool
  CheckResp_Price :: "64 word"

definition AddReq_Reset :: pb_AddReq where "AddReq_Reset = \<lparr>AddReq_Book = [], AddReq_Price = 0\<rparr>"
definition AddResp_Reset :: pb_AddResp where "AddResp_Reset = \<lparr>AddResp_Ok = False\<rparr>"
definition CheckReq_Reset :: pb_CheckReq where "CheckReq_Reset = \<lparr>CheckReq_Book = []\<rparr>"
definition CheckResp_Reset :: pb_CheckResp where "CheckResp_Reset = \<lparr>CheckResp_Found = False, CheckResp_Price = 0\<rparr>"

definition AddReq_GetBook :: "pb_AddReq option \<Rightarrow> string" where
  "AddReq_GetBook x = (case x of Some x \<Rightarrow> AddReq_Book x | None \<Rightarrow> [])"
definition AddReq_GetPrice :: "pb_AddReq option \<Rightarrow> 64 word" where
  "AddReq_GetPrice x = (case x of Some x \<Rightarrow> AddReq_Price x | None \<Rightarrow> 0)"
definition AddResp_GetOk :: "pb_AddResp option \<Rightarrow> bool" where
  "AddResp_GetOk x = (case x of Some x \<Rightarrow> AddResp_Ok x | None \<Rightarrow> False)"
definition CheckReq_GetBook :: "pb_CheckReq option \<Rightarrow> string" where
  "CheckReq_GetBook x = (case x of Some x \<Rightarrow> CheckReq_Book x | None \<Rightarrow> [])"
definition CheckResp_GetFound :: "pb_CheckResp option \<Rightarrow> bool" where
  "CheckResp_GetFound x = (case x of Some x \<Rightarrow> CheckResp_Found x | None \<Rightarrow> False)"
definition CheckResp_GetPrice :: "pb_CheckResp option \<Rightarrow> 64 word" where
  "CheckResp_GetPrice x = (case x of Some x \<Rightarrow> CheckResp_Price x | None \<Rightarrow> 0)"

datatype add_msg = AddReq_msg pb_AddReq | AddResp_msg pb_AddResp
datatype check_msg = CheckReq_msg pb_CheckReq | CheckResp_msg pb_CheckResp

text \<open>The types in the order of \<^verbatim>\<open>file_add_proto_goTypes\<close> and \<^verbatim>\<open>file_check_proto_goTypes\<close>.\<close>

fun add_goType :: "add_msg \<Rightarrow> nat" where
  "add_goType (AddReq_msg _) = 0"
| "add_goType (AddResp_msg _) = 1"

fun check_goType :: "check_msg \<Rightarrow> nat" where
  "check_goType (CheckReq_msg _) = 0"
| "check_goType (CheckResp_msg _) = 1"

fun add_msg_wf :: "add_msg \<Rightarrow> bool" where
  "add_msg_wf (AddReq_msg m) = utf8_valid (AddReq_Book m)"
| "add_msg_wf (AddResp_msg m) = True"

fun check_msg_wf :: "check_msg \<Rightarrow> bool" where
  "check_msg_wf (CheckReq_msg m) = utf8_valid (CheckReq_Book m)"
| "check_msg_wf (CheckResp_msg m) = True"

section \<open>Stubs and handlers\<close>

definition adderClient_Add ::
  "('c, add_msg, 'w) grpc_conn \<Rightarrow> 'c \<Rightarrow> pb_AddReq \<Rightarrow> 'w \<Rightarrow> 'w \<times> pb_AddResp result" where
  "adderClient_Add cc ctx req w =
     unwrap (\<lambda>out. case out of AddResp_msg r \<Rightarrow> Some r | _ \<Rightarrow> None) (cc ctx ''/add.adder/add'' (AddReq_msg req) w)"

definition checkerClient_Check ::
  "('c, check_msg, 'w) grpc_conn \<Rightarrow> 'c \<Rightarrow> pb_CheckReq \<Rightarrow> 'w \<Rightarrow> 'w \<times> pb_CheckResp result" where
  "checkerClient_Check cc ctx req w =
     unwrap (\<lambda>out. case out of CheckResp_msg r \<Rightarrow> Some r | _ \<Rightarrow> None)
       (cc ctx ''/check.checker/check'' (CheckReq_msg req) w)"

type_synonym ('c, 'w) AdderServer = "'c \<Rightarrow> pb_AddReq \<Rightarrow> 'w \<Rightarrow> 'w \<times> pb_AddResp result"
type_synonym ('c, 'w) CheckerServer = "'c \<Rightarrow> pb_CheckReq \<Rightarrow> 'w \<Rightarrow> 'w \<times> pb_CheckResp result"

definition UnimplementedAdderServer_Add :: "('c, 'w) AdderServer" where
  "UnimplementedAdderServer_Add ctx req w = (w, Inl (Status 12 ''method Add not implemented''))"

definition UnimplementedCheckerServer_Check :: "('c, 'w) CheckerServer" where
  "UnimplementedCheckerServer_Check ctx req w = (w, Inl (Status 12 ''method Check not implemented''))"

definition Adder_Add_Handler :: "(('c, 'w) AdderServer, 'c, add_msg, 'w) method_handler" where
  "Adder_Add_Handler srv ctx dec interceptor w =
     (case dec (AddReq_msg AddReq_Reset) of
        Inl err \<Rightarrow> (w, Inl err)
      | Inr req \<Rightarrow>
          let handler = (\<lambda>ctx req w. case req of
                AddReq_msg r \<Rightarrow> wrap AddResp_msg (srv ctx r w)
              | _ \<Rightarrow> (w, Inl (Panicked TypeAssertion)))
          in case interceptor of
               None \<Rightarrow> handler ctx req w
             | Some i \<Rightarrow> i ctx req ''/add.adder/Add'' handler w)"

definition Checker_Check_Handler :: "(('c, 'w) CheckerServer, 'c, check_msg, 'w) method_handler" where
  "Checker_Check_Handler srv ctx dec interceptor w =
     (case dec (CheckReq_msg CheckReq_Reset) of
        Inl err \<Rightarrow> (w, Inl err)
      | Inr req \<Rightarrow>
          let handler = (\<lambda>ctx req w. case req of
                CheckReq_msg r \<Rightarrow> wrap CheckResp_msg (srv ctx r w)
              | _ \<Rightarrow> (w, Inl (Panicked TypeAssertion)))
          in case interceptor of
               None \<Rightarrow> handler ctx req w
             | Some i \<Rightarrow> i ctx req ''/check.checker/Check'' handler w)"

definition Adder_serviceDesc :: "(('c, 'w) AdderServer, 'c, add_msg, 'w) ServiceDesc" where
  "Adder_serviceDesc = \<lparr>ServiceName = ''add.adder'', Methods = [(''add'', Adder_Add_Handler)],
     Streams = [], Metadata = ''add.proto''\<rparr>"

definition Checker_serviceDesc :: "(('c, 'w) CheckerServer, 'c, check_msg, 'w) ServiceDesc" where
  "Checker_serviceDesc = \<lparr>ServiceName = ''check.checker'', Methods = [(''check'', Checker_Check_Handler)],
     Streams = [], Metadata = ''check.proto''\<rparr>"

section \<open>The RPC servers\<close>

text \<open>\<^verbatim>\<open>ServiceContext\<close> holds the model; the two services have one each.\<close>

definition add_NewServiceContext :: "(unit, Book, 'w) mysql_lib \<Rightarrow> 'w defaultBookModel" where
  "add_NewServiceContext L = NewBookModel L (Mysql L)"

definition check_NewServiceContext :: "(unit, Book, 'w) mysql_lib \<Rightarrow> 'w defaultBookModel" where
  "check_NewServiceContext L = NewBookModel L (Mysql L)"

record ('c, 's) book_logic =
  bl_ctx :: 'c
  bl_svcCtx :: 's

definition add_NewAddLogic :: "'c \<Rightarrow> 's \<Rightarrow> ('c, 's) book_logic" where
  "add_NewAddLogic ctx svcCtx = \<lparr>bl_ctx = ctx, bl_svcCtx = svcCtx\<rparr>"

definition check_NewCheckLogic :: "'c \<Rightarrow> 's \<Rightarrow> ('c, 's) book_logic" where
  "check_NewCheckLogic ctx svcCtx = \<lparr>bl_ctx = ctx, bl_svcCtx = svcCtx\<rparr>"

definition add_Add ::
  "json_lib \<Rightarrow> ('c, 'w defaultBookModel) book_logic \<Rightarrow> pb_AddReq \<Rightarrow> 'w logged \<Rightarrow> 'w logged \<times> pb_AddResp result" where
  "add_Add J l req w =
     (let reqData = marshal_or_nil J [(''book'', True, JStr (AddReq_Book req)), (''price'', True, JInt (AddReq_Price req))];
          w = log_line LInfo (''Add RPC received request: '' @ reqData) w;
          book = \<lparr>Book_Book = AddReq_Book req, Book_Price = AddReq_Price req\<rparr>;
          bookData = marshal_or_nil J [(''Book'', False, JStr (Book_Book book)), (''Price'', False, JInt (Book_Price book))];
          w = log_line LInfo (''Add RPC insert into database: '' @ bookData) w
      in case no_log (Book_Insert (bl_svcCtx l) book) w of
           (w, Inl err) \<Rightarrow>
             (log_line LError (''Add RPC database insert failed, error: '' @ err_text err) w, Inl err)
         | (w, Inr _) \<Rightarrow>
             let resp = \<lparr>AddResp_Ok = True\<rparr>;
                 respData = marshal_or_nil J [(''ok'', True, JBool (AddResp_Ok resp))]
             in (log_line LInfo (''Add RPC response: '' @ respData) w, Inr resp))"

definition check_Check ::
  "json_lib \<Rightarrow> ('c, 'w defaultBookModel) book_logic \<Rightarrow> pb_CheckReq \<Rightarrow> 'w logged \<Rightarrow> 'w logged \<times> pb_CheckResp result" where
  "check_Check J l req w =
     (let reqData = marshal_or_nil J [(''book'', True, JStr (CheckReq_Book req))];
          w = log_line LInfo (''Check RPC received request: '' @ reqData) w;
          w = log_line LInfo (''Check RPC query database for book: '' @ CheckReq_Book req) w
      in case no_log (Book_FindOne (bl_svcCtx l) (CheckReq_Book req)) w of
           (w, Inl err) \<Rightarrow>
             (log_line LError (''Check RPC database query failed, error: '' @ err_text err) w, Inl err)
         | (w, Inr resp) \<Rightarrow>
             let dbData = marshal_or_nil J [(''Book'', False, JStr (Book_Book resp)), (''Price'', False, JInt (Book_Price resp))];
                 w = log_line LInfo (''Check RPC database result: '' @ dbData) w;
                 checkResp = \<lparr>CheckResp_Found = True, CheckResp_Price = Book_Price resp\<rparr>;
                 respData = marshal_or_nil J [(''found'', True, JBool (CheckResp_Found checkResp)),
                                              (''price'', True, JInt (CheckResp_Price checkResp))]
             in (log_line LInfo (''Check RPC response: '' @ respData) w, Inr checkResp))"

definition NewAdderServer :: "json_lib \<Rightarrow> 'w defaultBookModel \<Rightarrow> ('c, 'w logged) AdderServer" where
  "NewAdderServer J svcCtx = (\<lambda>ctx req. add_Add J (add_NewAddLogic ctx svcCtx) req)"

definition NewCheckerServer :: "json_lib \<Rightarrow> 'w defaultBookModel \<Rightarrow> ('c, 'w logged) CheckerServer" where
  "NewCheckerServer J svcCtx = (\<lambda>ctx req. check_Check J (check_NewCheckLogic ctx svcCtx) req)"

section \<open>The client packages\<close>

text \<open>Here the client's types are aliases of the messages, and a call is the stub's.\<close>

definition defaultAdder_Add ::
  "('c, add_msg, 'w) grpc_conn \<Rightarrow> 'c \<Rightarrow> pb_AddReq \<Rightarrow> 'w \<Rightarrow> 'w \<times> pb_AddResp result" where
  "defaultAdder_Add cli ctx req = adderClient_Add cli ctx req"

definition defaultChecker_Check ::
  "('c, check_msg, 'w) grpc_conn \<Rightarrow> 'c \<Rightarrow> pb_CheckReq \<Rightarrow> 'w \<Rightarrow> 'w \<times> pb_CheckResp result" where
  "defaultChecker_Check cli ctx req = checkerClient_Check cli ctx req"

section \<open>The HTTP API\<close>

record ty_AddReq =
  tyAddReq_Book :: string
  tyAddReq_Price :: "64 word"
record ty_AddResp = tyAddResp_Ok :: bool
record ty_CheckReq = tyCheckReq_Book :: string
record ty_CheckResp =
  tyCheckResp_Found :: bool
  tyCheckResp_Price :: "64 word"

record ('c, 'w) book_ServiceContext =
  Adder :: "'c \<Rightarrow> pb_AddReq \<Rightarrow> 'w \<Rightarrow> 'w \<times> pb_AddResp result"
  Checker :: "'c \<Rightarrow> pb_CheckReq \<Rightarrow> 'w \<Rightarrow> 'w \<times> pb_CheckResp result"

definition book_NewServiceContext ::
  "('c, add_msg, 'w) grpc_conn \<Rightarrow> ('c, check_msg, 'w) grpc_conn \<Rightarrow> ('c, 'w) book_ServiceContext" where
  "book_NewServiceContext addConn checkConn =
     \<lparr>Adder = defaultAdder_Add addConn, Checker = defaultChecker_Check checkConn\<rparr>"

definition api_NewAddLogic :: "'c \<Rightarrow> 's \<Rightarrow> ('c, 's) book_logic" where
  "api_NewAddLogic ctx svcCtx = \<lparr>bl_ctx = ctx, bl_svcCtx = svcCtx\<rparr>"

definition api_NewCheckLogic :: "'c \<Rightarrow> 's \<Rightarrow> ('c, 's) book_logic" where
  "api_NewCheckLogic ctx svcCtx = \<lparr>bl_ctx = ctx, bl_svcCtx = svcCtx\<rparr>"

definition api_Add ::
  "json_lib \<Rightarrow> ('c, ('c, 'w logged) book_ServiceContext) book_logic \<Rightarrow> ty_AddReq \<Rightarrow> 'w logged \<Rightarrow>
   'w logged \<times> ty_AddResp result" where
  "api_Add J l req w =
     (let rpcReq = \<lparr>AddReq_Book = tyAddReq_Book req, AddReq_Price = tyAddReq_Price req\<rparr>;
          rpcReqData = marshal_or_nil J [(''book'', True, JStr (AddReq_Book rpcReq)), (''price'', True, JInt (AddReq_Price rpcReq))];
          w = log_line LInfo (''AddLogic call RPC request: '' @ rpcReqData) w
      in case Adder (bl_svcCtx l) (bl_ctx l) rpcReq w of
           (w, Inl err) \<Rightarrow> (log_line LError (''AddLogic call RPC failed, error: '' @ err_text err) w, Inl err)
         | (w, Inr resp) \<Rightarrow>
             let rpcRespData = marshal_or_nil J [(''ok'', True, JBool (AddResp_Ok resp))]
             in (log_line LInfo (''AddLogic call RPC response: '' @ rpcRespData) w,
                 Inr \<lparr>tyAddResp_Ok = AddResp_Ok resp\<rparr>))"

text \<open>On an error the code returns an empty response with it; the handler looks at the error only.\<close>

definition api_Check ::
  "json_lib \<Rightarrow> ('c, ('c, 'w logged) book_ServiceContext) book_logic \<Rightarrow> ty_CheckReq \<Rightarrow> 'w logged \<Rightarrow>
   'w logged \<times> ty_CheckResp result" where
  "api_Check J l req w =
     (let rpcReq = \<lparr>CheckReq_Book = tyCheckReq_Book req\<rparr>;
          rpcReqData = marshal_or_nil J [(''book'', True, JStr (CheckReq_Book rpcReq))];
          w = log_line LInfo (''CheckLogic call RPC request: '' @ rpcReqData) w
      in case Checker (bl_svcCtx l) (bl_ctx l) rpcReq w of
           (w, Inl err) \<Rightarrow> (log_line LError (''CheckLogic call RPC failed, error: '' @ err_text err) w, Inl err)
         | (w, Inr resp) \<Rightarrow>
             let rpcRespData = marshal_or_nil J [(''found'', True, JBool (CheckResp_Found resp)),
                                                 (''price'', True, JInt (CheckResp_Price resp))]
             in (log_line LInfo (''CheckLogic call RPC response: '' @ rpcRespData) w,
                 Inr \<lparr>tyCheckResp_Found = CheckResp_Found resp, tyCheckResp_Price = CheckResp_Price resp\<rparr>))"

definition AddHandler ::
  "json_lib \<Rightarrow> ('q, 'c) http_lib \<Rightarrow> ('c, 'w logged) book_ServiceContext \<Rightarrow> 'q \<Rightarrow> 'w logged \<Rightarrow>
   'w logged \<times> http_write list" where
  "AddHandler J H ctx r w =
     (let clientIP = RemoteAddr H r
      in case Parse H r [(FormField, ''book'', JStr []), (FormField, ''price'', JInt 0)] of
           Inl err \<Rightarrow>
             (log_line LError (''['' @ clientIP @ ''] AddHandler parse request failed, error: '' @ err_text err) w,
              [HttpError err])
         | Inr vs \<Rightarrow>
             let req = \<lparr>tyAddReq_Book = field_str 0 vs, tyAddReq_Price = field_int 1 vs\<rparr>;
                 reqData = marshal_or_nil J [(''Book'', False, JStr (tyAddReq_Book req)), (''Price'', False, JInt (tyAddReq_Price req))];
                 w = log_line LInfo (''['' @ clientIP @ ''] AddHandler request: '' @ reqData) w;
                 l = api_NewAddLogic (Context H r) ctx
             in case api_Add J l req w of
                  (w, Inl err) \<Rightarrow>
                    (log_line LError (''['' @ clientIP @ ''] AddHandler response error: '' @ err_text err) w, [HttpError err])
                | (w, Inr resp) \<Rightarrow>
                    let respData = marshal_or_nil J [(''ok'', False, JBool (tyAddResp_Ok resp))]
                    in (log_line LInfo (''['' @ clientIP @ ''] AddHandler response: '' @ respData) w,
                        [HttpJson 200 [(''ok'', False, JBool (tyAddResp_Ok resp))]]))"

definition CheckHandler ::
  "json_lib \<Rightarrow> ('q, 'c) http_lib \<Rightarrow> ('c, 'w logged) book_ServiceContext \<Rightarrow> 'q \<Rightarrow> 'w logged \<Rightarrow>
   'w logged \<times> http_write list" where
  "CheckHandler J H ctx r w =
     (let clientIP = RemoteAddr H r
      in case Parse H r [(FormField, ''book'', JStr [])] of
           Inl err \<Rightarrow>
             (log_line LError (''['' @ clientIP @ ''] CheckHandler parse request failed, error: '' @ err_text err) w,
              [HttpError err])
         | Inr vs \<Rightarrow>
             let req = \<lparr>tyCheckReq_Book = field_str 0 vs\<rparr>;
                 reqData = marshal_or_nil J [(''Book'', False, JStr (tyCheckReq_Book req))];
                 w = log_line LInfo (''['' @ clientIP @ ''] CheckHandler request: '' @ reqData) w;
                 l = api_NewCheckLogic (Context H r) ctx
             in case api_Check J l req w of
                  (w, Inl err) \<Rightarrow>
                    (log_line LError (''['' @ clientIP @ ''] CheckHandler response error: '' @ err_text err) w, [HttpError err])
                | (w, Inr resp) \<Rightarrow>
                    let respData = marshal_or_nil J [(''found'', False, JBool (tyCheckResp_Found resp)),
                                                     (''price'', False, JInt (tyCheckResp_Price resp))]
                    in (log_line LInfo (''['' @ clientIP @ ''] CheckHandler response: '' @ respData) w,
                        [HttpJson 200 [(''found'', False, JBool (tyCheckResp_Found resp)),
                                       (''price'', False, JInt (tyCheckResp_Price resp))]]))"

definition book_routes ::
  "json_lib \<Rightarrow> ('q, 'c) http_lib \<Rightarrow> ('c, 'w logged) book_ServiceContext \<Rightarrow> ('q, 'c, 'w logged) Route list" where
  "book_routes J H serverCtx =
     [\<lparr>Method = ''GET'', Path = ''/add'', Handler = AddHandler J H serverCtx\<rparr>,
      \<lparr>Method = ''GET'', Path = ''/check'', Handler = CheckHandler J H serverCtx\<rparr>]"

section \<open>The layers meet their interfaces\<close>

definition add_linked ::
  "('c, add_msg, 'w) grpc_conn \<times> ('c, 'w) AdderServer \<times> ('c, add_msg, 'w) interceptor option \<times> ('c \<Rightarrow> 'c) \<Rightarrow> bool" where
  "add_linked = (\<lambda>(I, s, ic, sc). grpc_ok I Adder_serviceDesc s ic add_goType add_msg_wf sc)"

definition check_linked ::
  "('c, check_msg, 'w) grpc_conn \<times> ('c, 'w) CheckerServer \<times> ('c, check_msg, 'w) interceptor option \<times> ('c \<Rightarrow> 'c) \<Rightarrow> bool" where
  "check_linked = (\<lambda>(I, s, ic, sc). grpc_ok I Checker_serviceDesc s ic check_goType check_msg_wf sc)"

interpretation rpc_add: unary_rpc add_linked "\<lambda>r. utf8_valid (AddReq_Book r)"
  "\<lambda>(I, s, ic, sc). defaultAdder_Add I" "\<lambda>(I, s, ic, sc) c. s (sc c)"
proof (unfold_locales, goal_cases)
  case (1 e a c w)
  obtain I s ic sc where e: "e = (I, s, ic, sc)" by (cases e)
  with 1 have g: "grpc_ok I Adder_serviceDesc s ic add_goType add_msg_wf sc" by (simp add: add_linked_def)
  have "I c ''/add.adder/add'' (AddReq_msg a) w = map_err status_of (wrap AddResp_msg (s (sc c) a w))"
    by (rule grpc_call [OF g, of "''add''" Adder_Add_Handler])
      (use 1 in \<open>simp_all add: Adder_serviceDesc_def full_method_def Adder_Add_Handler_def Let_def
        transparent_cases [OF grpc_ok_transparent [OF g]]\<close>)
  then show ?case by (simp add: e defaultAdder_Add_def adderClient_Add_def unwrap_wrap)
qed

interpretation rpc_check: unary_rpc check_linked "\<lambda>r. utf8_valid (CheckReq_Book r)"
  "\<lambda>(I, s, ic, sc). defaultChecker_Check I" "\<lambda>(I, s, ic, sc) c. s (sc c)"
proof (unfold_locales, goal_cases)
  case (1 e a c w)
  obtain I s ic sc where e: "e = (I, s, ic, sc)" by (cases e)
  with 1 have g: "grpc_ok I Checker_serviceDesc s ic check_goType check_msg_wf sc" by (simp add: check_linked_def)
  have "I c ''/check.checker/check'' (CheckReq_msg a) w = map_err status_of (wrap CheckResp_msg (s (sc c) a w))"
    by (rule grpc_call [OF g, of "''check''" Checker_Check_Handler])
      (use 1 in \<open>simp_all add: Checker_serviceDesc_def full_method_def Checker_Check_Handler_def Let_def
        transparent_cases [OF grpc_ok_transparent [OF g]]\<close>)
  then show ?case by (simp add: e defaultChecker_Check_def checkerClient_Check_def unwrap_wrap)
qed

definition ip_note :: "log_level \<Rightarrow> string \<Rightarrow> ('q, 'c) http_lib \<Rightarrow> 'q \<Rightarrow> string \<Rightarrow> 'w logged \<Rightarrow> 'w logged" where
  "ip_note lv what H q s = log_line lv (''['' @ RemoteAddr H q @ what @ s)"

interpretation h_add: logged_handler
  "\<lambda>(J, H, s) q. map_sum id (\<lambda>vs. \<lparr>tyAddReq_Book = field_str 0 vs, tyAddReq_Price = field_int 1 vs\<rparr>)
     (Parse H q [(FormField, ''book'', JStr []), (FormField, ''price'', JInt 0)])"
  "\<lambda>(J, H, s) q. api_Add J (api_NewAddLogic (Context H q) s)"
  "\<lambda>resp. [HttpJson 200 [(''ok'', False, JBool (tyAddResp_Ok resp))]]"
  "\<lambda>(J, H, s) q x. ip_note LError ''] AddHandler parse request failed, error: '' H q (err_text x)"
  "\<lambda>(J, H, s) q a. ip_note LInfo ''] AddHandler request: '' H q
     (marshal_or_nil J [(''Book'', False, JStr (tyAddReq_Book a)), (''Price'', False, JInt (tyAddReq_Price a))])"
  "\<lambda>(J, H, s) q x. ip_note LError ''] AddHandler response error: '' H q (err_text x)"
  "\<lambda>(J, H, s) q b. ip_note LInfo ''] AddHandler response: '' H q (marshal_or_nil J [(''ok'', False, JBool (tyAddResp_Ok b))])"
  "\<lambda>(J, H, s). AddHandler J H s"
  by unfold_locales (auto simp: AddHandler_def ip_note_def Let_def split: sum.splits)

interpretation h_check: logged_handler
  "\<lambda>(J, H, s) q. map_sum id (\<lambda>vs. \<lparr>tyCheckReq_Book = field_str 0 vs\<rparr>) (Parse H q [(FormField, ''book'', JStr [])])"
  "\<lambda>(J, H, s) q. api_Check J (api_NewCheckLogic (Context H q) s)"
  "\<lambda>resp. [HttpJson 200 [(''found'', False, JBool (tyCheckResp_Found resp)), (''price'', False, JInt (tyCheckResp_Price resp))]]"
  "\<lambda>(J, H, s) q x. ip_note LError ''] CheckHandler parse request failed, error: '' H q (err_text x)"
  "\<lambda>(J, H, s) q a. ip_note LInfo ''] CheckHandler request: '' H q
     (marshal_or_nil J [(''Book'', False, JStr (tyCheckReq_Book a))])"
  "\<lambda>(J, H, s) q x. ip_note LError ''] CheckHandler response error: '' H q (err_text x)"
  "\<lambda>(J, H, s) q b. ip_note LInfo ''] CheckHandler response: '' H q
     (marshal_or_nil J [(''found'', False, JBool (tyCheckResp_Found b)), (''price'', False, JInt (tyCheckResp_Price b))])"
  "\<lambda>(J, H, s). CheckHandler J H s"
  by unfold_locales (auto simp: CheckHandler_def ip_note_def Let_def split: sum.splits)

section \<open>The whole stack\<close>

text \<open>\<open>n\<close> is the width of the price column.\<close>

definition book_stack ::
  "nat \<Rightarrow> json_lib \<Rightarrow> ('c, add_msg, 'w logged) grpc_conn \<Rightarrow> ('c, check_msg, 'w logged) grpc_conn \<Rightarrow>
   (unit, Book, 'w) mysql_lib \<Rightarrow> (Book, 'w) store_view \<Rightarrow> ('c, add_msg, 'w logged) interceptor option \<Rightarrow>
   ('c, check_msg, 'w logged) interceptor option \<Rightarrow> ('c \<Rightarrow> 'c) \<Rightarrow> bool" where
  "book_stack n J Ia Ic L V ica icc sc \<longleftrightarrow> mysql_ok L V (book_spec n) \<and>
     grpc_ok Ia Adder_serviceDesc (NewAdderServer J (add_NewServiceContext L)) ica add_goType add_msg_wf sc \<and>
     grpc_ok Ic Checker_serviceDesc (NewCheckerServer J (check_NewServiceContext L)) icc check_goType check_msg_wf sc"

lemma book_stackD:
  assumes "book_stack n J Ia Ic L V ica icc sc"
  shows "mysql_ok L V (book_spec n)" "add_linked (Ia, NewAdderServer J (add_NewServiceContext L), ica, sc)"
    "check_linked (Ic, NewCheckerServer J (check_NewServiceContext L), icc, sc)"
  using assms by (simp_all add: book_stack_def add_linked_def check_linked_def)

abbreviation book_api ::
  "json_lib \<Rightarrow> ('q, 'c) http_lib \<Rightarrow> ('c, add_msg, 'w logged) grpc_conn \<Rightarrow> ('c, check_msg, 'w logged) grpc_conn \<Rightarrow>
   ('q, 'c, 'w logged) Route list" where
  "book_api J H Ia Ic \<equiv> book_routes J H (book_NewServiceContext Ia Ic)"

lemma book_serve:
  "serve (book_routes J H s) (''GET'', ''/add'', q) = AddHandler J H s q"
  "serve (book_routes J H s) (''GET'', ''/check'', q) = CheckHandler J H s q"
  by (simp_all add: serve_def route_for_def book_routes_def fun_eq_iff)

text \<open>The lines a request adds, by level.\<close>

definition errors_logged :: "(log_level \<times> string) list \<Rightarrow> nat" where
  "errors_logged ls = length (filter (\<lambda>l. fst l = LError) ls)"

lemma errors_logged_simps [simp]:
  "errors_logged [] = 0" "errors_logged ((LError, s) # ls) = Suc (errors_logged ls)"
  "errors_logged ((LInfo, s) # ls) = errors_logged ls" "errors_logged (xs @ ys) = errors_logged xs + errors_logged ys"
  by (simp_all add: errors_logged_def)

lemma add_run:
  assumes st: "book_stack n J Ia Ic L V ica icc sc"
    and q: "Parse H q [(FormField, ''book'', JStr []), (FormField, ''price'', JInt 0)] = Inr [JStr b, JInt p]"
    and b: "utf8_valid b"
    and ins: "Book_Insert (book_model L) \<lparr>Book_Book = b, Book_Price = p\<rparr> (snd w) = (v, r)"
  shows "\<exists>ls. serve (book_api J H Ia Ic) (''GET'', ''/add'', q) w =
      ((fst w @ ls, v), case r of Inl e \<Rightarrow> [HttpError (status_of e)] | Inr _ \<Rightarrow> [HttpJson 200 [(''ok'', False, JBool True)]]) \<and>
    errors_logged ls = (case r of Inl _ \<Rightarrow> 3 | Inr _ \<Rightarrow> 0)"
proof -
  note call = rpc_add.call_law [OF book_stackD(2) [OF st], of "\<lparr>AddReq_Book = b, AddReq_Price = p\<rparr>" "Context H q"]
  show ?thesis
    using q b ins call
    by (cases r)
      (auto simp: book_serve AddHandler_def api_Add_def api_NewAddLogic_def book_NewServiceContext_def
        NewAdderServer_def add_Add_def add_NewAddLogic_def add_NewServiceContext_def no_log_def log_line_def Let_def)
qed

lemma check_run:
  assumes st: "book_stack n J Ia Ic L V ica icc sc"
    and q: "Parse H q [(FormField, ''book'', JStr [])] = Inr [JStr b]" and b: "utf8_valid b"
    and fnd: "Book_FindOne (book_model L) b (snd w) = (v, r)"
  shows "\<exists>ls. serve (book_api J H Ia Ic) (''GET'', ''/check'', q) w =
      ((fst w @ ls, v), case r of
          Inl e \<Rightarrow> [HttpError (status_of e)]
        | Inr d \<Rightarrow> [HttpJson 200 [(''found'', False, JBool True), (''price'', False, JInt (Book_Price d))]]) \<and>
    errors_logged ls = (case r of Inl _ \<Rightarrow> 3 | Inr _ \<Rightarrow> 0)"
proof -
  note call = rpc_check.call_law [OF book_stackD(3) [OF st], of "\<lparr>CheckReq_Book = b\<rparr>" "Context H q"]
  show ?thesis
    using q b fnd call
    by (cases r)
      (auto simp: book_serve CheckHandler_def api_Check_def api_NewCheckLogic_def book_NewServiceContext_def
        NewCheckerServer_def check_Check_def check_NewCheckLogic_def check_NewServiceContext_def no_log_def log_line_def Let_def)
qed

section \<open>Properties\<close>

definition ref_add_conn :: "(unit, add_msg, Book ref_world logged) grpc_conn" where
  "ref_add_conn = local_conn Adder_serviceDesc (NewAdderServer ref_json (add_NewServiceContext ref_book_lib)) None add_goType"

definition ref_check_conn :: "(unit, check_msg, Book ref_world logged) grpc_conn" where
  "ref_check_conn = local_conn Checker_serviceDesc (NewCheckerServer ref_json (check_NewServiceContext ref_book_lib)) None check_goType"

definition ref_book_http :: "(string, unit) http_lib" where
  "ref_book_http = \<lparr>Context = (\<lambda>_. ()), RemoteAddr = (\<lambda>_. ''127.0.0.1''),
     Parse = (\<lambda>q ts. if length ts = 2 then Inr [JStr q, JInt 30] else Inr [JStr q])\<rparr>"

lemma ref_book_stack: "book_stack 64 ref_json ref_add_conn ref_check_conn ref_book_lib ref_view None None id"
  by (simp add: book_stack_def ref_book_ok ref_add_conn_def ref_check_conn_def local_conn_ok transparent_def)

text \<open>
  End to end: with nothing cached for the name, \<^verbatim>\<open>GET /add\<close> of a new book answers \<^verbatim>\<open>ok: true\<close> and a
  \<^verbatim>\<open>GET /check\<close> that follows answers that it is found, with exactly the price that was added, through
  both RPC services and the model they share; neither request logs an error.
\<close>

theorem book_add_then_check:
  assumes "book_stack n J Ia Ic L V ica icc sc"
    and "Parse H q1 [(FormField, ''book'', JStr []), (FormField, ''price'', JInt 0)] = Inr [JStr b, JInt p]"
    and "Parse H q2 [(FormField, ''book'', JStr [])] = Inr [JStr b]"
    and "utf8_valid b" "row_fits (book_spec n) \<lparr>Book_Book = b, Book_Price = p\<rparr>"
    and "table_of V (snd w) b = None" "cache_of V (snd w) (cacheBookPrefix @ b) = None"
  shows "\<exists>w1 w2 ls. serve (book_routes J H (book_NewServiceContext Ia Ic)) (''GET'', ''/add'', q1) w =
      (w1, [HttpJson 200 [(''ok'', False, JBool True)]]) \<and>
    serve (book_routes J H (book_NewServiceContext Ia Ic)) (''GET'', ''/check'', q2) w1 =
      (w2, [HttpJson 200 [(''found'', False, JBool True), (''price'', False, JInt p)]]) \<and>
    fst w2 = fst w @ ls \<and> errors_logged ls = 0"
proof -
  let ?d = "\<lparr>Book_Book = b, Book_Price = p\<rparr>"
  have "table_of V (snd w) (Book_Book ?d) = None" "cache_of V (snd w) (cacheBookPrefix @ Book_Book ?d) = None"
    using assms(6,7) by simp_all
  from book_model_inserted [OF book_stackD(1) [OF assms(1)] this(1) assms(5) this(2)]
  obtain v1 v2 n where v: "Book_Insert (book_model L) ?d (snd w) = (v1, Inr n)"
    "Book_FindOne (book_model L) b v1 = (v2, Inr ?d)" by auto
  obtain l1 where l1: "serve (book_api J H Ia Ic) (''GET'', ''/add'', q1) w = ((fst w @ l1, v1), [HttpJson 200 [(''ok'', False, JBool True)]])"
    "errors_logged l1 = 0"
    using add_run [OF assms(1,2,4) v(1)] by auto
  obtain l2 where "serve (book_api J H Ia Ic) (''GET'', ''/check'', q2) (fst w @ l1, v1) =
      ((fst w @ l1 @ l2, v2), [HttpJson 200 [(''found'', False, JBool True), (''price'', False, JInt p)]])"
    "errors_logged l2 = 0"
    using check_run [OF assms(1,3,4), of "(fst w @ l1, v1)"] v(2) by auto
  with l1 show ?thesis by fastforce
qed

theorem book_add_then_check_witness:
  "\<exists>w1 w2 ls. serve (book_routes ref_json ref_book_http (book_NewServiceContext ref_add_conn ref_check_conn)) (''GET'', ''/add'', ''sicp'')
        ([], (Map.empty, Map.empty)) = (w1, [HttpJson 200 [(''ok'', False, JBool True)]]) \<and>
      serve (book_routes ref_json ref_book_http (book_NewServiceContext ref_add_conn ref_check_conn)) (''GET'', ''/check'', ''sicp'') w1 =
        (w2, [HttpJson 200 [(''found'', False, JBool True), (''price'', False, JInt 30)]]) \<and>
      fst w2 = ls \<and> errors_logged ls = 0"
  using book_add_then_check [OF ref_book_stack, of ref_book_http "''sicp''" "''sicp''" 30 "''sicp''" "([], (Map.empty, Map.empty))"]
  by (simp add: ref_book_http_def book_spec_def utf8_length_def utf8_cont_def utf8_range_def lower_def lower_char_def)

text \<open>
  Checking a book before it is added makes it invisible: if \<^verbatim>\<open>GET /check\<close> of an unknown book comes
  first, \<^verbatim>\<open>GET /add\<close> still answers \<^verbatim>\<open>ok: true\<close> and the book is in the table, but the \<^verbatim>\<open>GET /check\<close> after
  it answers the not-found error again, until the cached absence expires.
\<close>

theorem book_check_add_check:
  assumes "book_stack n J Ia Ic L V ica icc sc"
    and "Parse H q1 [(FormField, ''book'', JStr []), (FormField, ''price'', JInt 0)] = Inr [JStr b, JInt p]"
    and "Parse H q2 [(FormField, ''book'', JStr [])] = Inr [JStr b]"
    and "utf8_valid b" "row_fits (book_spec n) \<lparr>Book_Book = b, Book_Price = p\<rparr>"
    and "table_of V (snd w) b = None" "cache_of V (snd w) (cacheBookPrefix @ b) = None"
  shows "\<exists>w1 w2 w3. serve (book_routes J H (book_NewServiceContext Ia Ic)) (''GET'', ''/check'', q2) w =
      (w1, [HttpError (Status 2 ''sql: no rows in result set'')]) \<and>
    serve (book_routes J H (book_NewServiceContext Ia Ic)) (''GET'', ''/add'', q1) w1 =
      (w2, [HttpJson 200 [(''ok'', False, JBool True)]]) \<and>
    table_of V (snd w2) b = Some \<lparr>Book_Book = b, Book_Price = p\<rparr> \<and>
    serve (book_routes J H (book_NewServiceContext Ia Ic)) (''GET'', ''/check'', q2) w2 =
      (w3, [HttpError (Status 2 ''sql: no rows in result set'')])"
proof -
  let ?d = "\<lparr>Book_Book = b, Book_Price = p\<rparr>"
  have "table_of V (snd w) (Book_Book ?d) = None" "cache_of V (snd w) (cacheBookPrefix @ Book_Book ?d) = None"
    using assms(6,7) by simp_all
  from book_model_hidden [OF book_stackD(1) [OF assms(1)] this(1) assms(5) this(2)]
  obtain v1 v2 n where v: "Book_FindOne (book_model L) b (snd w) = (v1, Inl ErrNotFound)"
    "Book_Insert (book_model L) ?d v1 = (v2, Inr n)" "table_of V v2 b = Some ?d"
    "Book_FindOne (book_model L) b v2 = (v2, Inl ErrNotFound)" by auto
  obtain l1 where l1: "serve (book_api J H Ia Ic) (''GET'', ''/check'', q2) w =
      ((fst w @ l1, v1), [HttpError (Status 2 ''sql: no rows in result set'')])"
    using check_run [OF assms(1,3,4) v(1)] by (auto simp: ErrNotFound_def)
  obtain l2 where l2: "serve (book_api J H Ia Ic) (''GET'', ''/add'', q1) (fst w @ l1, v1) =
      (((fst w @ l1) @ l2, v2), [HttpJson 200 [(''ok'', False, JBool True)]])"
    using add_run [OF assms(1,2,4), of "(fst w @ l1, v1)"] v(2) by auto
  obtain l3 where l3: "serve (book_api J H Ia Ic) (''GET'', ''/check'', q2) ((fst w @ l1) @ l2, v2) =
      ((((fst w @ l1) @ l2) @ l3, v2), [HttpError (Status 2 ''sql: no rows in result set'')])"
    using check_run [OF assms(1,3,4), of "((fst w @ l1) @ l2, v2)"] v(4) by (auto simp: ErrNotFound_def)
  show ?thesis
    by (rule exI [of _ "(fst w @ l1, v1)"], rule exI [of _ "((fst w @ l1) @ l2, v2)"], rule exI)
      (use l1 l2 l3 v(3) in simp)
qed

theorem book_check_add_check_witness:
  "\<exists>w1 w2 w3. serve (book_routes ref_json ref_book_http (book_NewServiceContext ref_add_conn ref_check_conn)) (''GET'', ''/check'', ''sicp'')
        ([], (Map.empty, Map.empty)) = (w1, [HttpError (Status 2 ''sql: no rows in result set'')]) \<and>
      serve (book_routes ref_json ref_book_http (book_NewServiceContext ref_add_conn ref_check_conn)) (''GET'', ''/add'', ''sicp'') w1 =
        (w2, [HttpJson 200 [(''ok'', False, JBool True)]]) \<and>
      fst (snd w2) ''sicp'' = Some \<lparr>Book_Book = ''sicp'', Book_Price = 30\<rparr> \<and>
      serve (book_routes ref_json ref_book_http (book_NewServiceContext ref_add_conn ref_check_conn)) (''GET'', ''/check'', ''sicp'') w2 =
        (w3, [HttpError (Status 2 ''sql: no rows in result set'')])"
  using book_check_add_check [OF ref_book_stack, of ref_book_http "''sicp''" "''sicp''" 30 "''sicp''" "([], (Map.empty, Map.empty))"]
  by (simp add: ref_book_http_def book_spec_def utf8_length_def utf8_cont_def utf8_range_def lower_def lower_char_def)

text \<open>
  A refused addition is visible and harmless: adding a book whose name is taken (under the column's collation), or that the
  table refuses (a name over 255 characters without its trailing spaces, a price outside the column's width), answers an error with a gRPC
  status, leaves database and cache as they were, and each of the three layers it passes (RPC logic,
  API logic, handler) logs the failure once.
\<close>

theorem book_add_rejected:
  assumes "book_stack n J Ia Ic L V ica icc sc"
    and "Parse H q [(FormField, ''book'', JStr []), (FormField, ''price'', JInt 0)] = Inr [JStr b, JInt p]"
    and "utf8_valid b"
    and "table_of V (snd w) (cut_to 255 b) \<noteq> None \<or> row_refused (book_spec n) \<lparr>Book_Book = b, Book_Price = p\<rparr>"
  shows "\<exists>ls e. serve (book_routes J H (book_NewServiceContext Ia Ic)) (''GET'', ''/add'', q) w =
      ((fst w @ ls, snd w), [HttpError (status_of e)]) \<and> errors_logged ls = 3"
proof -
  let ?d = "\<lparr>Book_Book = b, Book_Price = p\<rparr>"
  note ok = mysql_okD [OF book_stackD(1) [OF assms(1)]]
  obtain x where "Book_Insert (book_model L) ?d (snd w) = (snd w, Inl x)"
    using nocache_insert_dup [OF ok(2,3), of "snd w" ?d "()"] assms(4) by (auto simp: book_unfold(1) [OF ok(1), where n = n])
  from add_run [OF assms(1,2,3) this] show ?thesis by auto
qed

theorem book_add_rejected_witness:
  "let w = ([], ([''sicp'' \<mapsto> \<lparr>Book_Book = ''sicp'', Book_Price = 10\<rparr>], Map.empty))
   in \<exists>ls e. serve (book_routes ref_json ref_book_http (book_NewServiceContext ref_add_conn ref_check_conn)) (''GET'', ''/add'', ''sicp'') w =
        ((ls, snd w), [HttpError (status_of e)]) \<and> errors_logged ls = 3"
  using book_add_rejected [OF ref_book_stack, of ref_book_http "''sicp''" "''sicp''" 30
      "([], ([''sicp'' \<mapsto> \<lparr>Book_Book = ''sicp'', Book_Price = 10\<rparr>], Map.empty))"]
  by (simp add: ref_book_http_def utf8_range_def utf8_length_def utf8_cont_def lower_def lower_char_def)

end
