(* ===== verification/Shorturl_Model.thy ===== *)
theory Shorturl_Model
  imports Cached_Store
begin

text \<open>
  The \<^verbatim>\<open>shorturl\<close> table model of the short-URL service
  (\<^verbatim>\<open>shorturl/rpc/transform/model/shorturlmodel_gen.go\<close>, \<^verbatim>\<open>shorturlmodel.go\<close>): the statements it builds,
  the cache keys it uses, and its four operations. The model interprets \<open>kv_store_full\<close>; the
  properties say that any sequence of its operations behaves as a plain keyed table, whatever the
  cache holds, as long as the cache started out coherent and every key is always spelled the same way; and what happens
  when a key is not.
\<close>

section \<open>Rows and statements\<close>

record Shorturl =
  Shorten :: string
  Url :: string

text \<open>The \<^verbatim>\<open>db\<close> tags of the struct.\<close>

definition shorturl_tags :: "string list" where
  "shorturl_tags = [''shorten'', ''url'']"

definition shorturlFieldNames :: "builder_lib \<Rightarrow> string list" where
  "shorturlFieldNames L = RawFieldNames L shorturl_tags"

definition shorturlRows :: "builder_lib \<Rightarrow> string" where
  "shorturlRows L = join '','' (shorturlFieldNames L)"

definition shorturlRowsExpectAutoSet :: "builder_lib \<Rightarrow> string" where
  "shorturlRowsExpectAutoSet L =
     join '','' (Remove L (shorturlFieldNames L)
       [''`create_time`'', ''`update_time`'', ''`create_at`'', ''`update_at`''])"

definition shorturlRowsWithPlaceHolder :: "builder_lib \<Rightarrow> string" where
  "shorturlRowsWithPlaceHolder L =
     join ''=?,'' (Remove L (shorturlFieldNames L)
       [''`shorten`'', ''`create_time`'', ''`update_time`'', ''`create_at`'', ''`update_at`'']) @ ''=?''"

definition cacheShorturlShortenPrefix :: string where
  "cacheShorturlShortenPrefix = ''cache:shorturl:shorten:''"

section \<open>The model and its operations\<close>

record ('c, 'w) defaultShorturlModel =
  sm_conn :: "('c, Shorturl, 'w) CachedConn"
  sm_table :: string
  sm_lib :: builder_lib

definition newShorturlModel ::
  "('c, Shorturl, 'w) mysql_lib \<Rightarrow> ('c, Shorturl, 'w) SqlConn \<Rightarrow> ('c, 'w) defaultShorturlModel" where
  "newShorturlModel L conn = \<lparr>sm_conn = NewConn L conn, sm_table = ''`shorturl`'', sm_lib = Builder L\<rparr>"

definition NewShorturlModel ::
  "('c, Shorturl, 'w) mysql_lib \<Rightarrow> ('c, Shorturl, 'w) SqlConn \<Rightarrow> ('c, 'w) defaultShorturlModel" where
  "NewShorturlModel L conn = newShorturlModel L conn"

definition Shorturl_formatPrimary :: "('c, 'w) defaultShorturlModel \<Rightarrow> string \<Rightarrow> string" where
  "Shorturl_formatPrimary m primary = cacheShorturlShortenPrefix @ primary"

definition Shorturl_queryPrimary ::
  "('c, 'w) defaultShorturlModel \<Rightarrow> 'c \<Rightarrow> ('c, Shorturl, 'w) SqlConn \<Rightarrow> string \<Rightarrow> 'w \<Rightarrow> 'w \<times> Shorturl result" where
  "Shorturl_queryPrimary m ctx conn primary =
     (let query = ''select '' @ shorturlRows (sm_lib m) @ '' from '' @ sm_table m @ '' where `shorten` = ? limit 1''
      in SqlQueryRow conn ctx query [SqlStr primary])"

definition Shorturl_tableName :: "('c, 'w) defaultShorturlModel \<Rightarrow> string" where
  "Shorturl_tableName m = sm_table m"

definition Shorturl_Delete :: "('c, 'w) defaultShorturlModel \<Rightarrow> 'c \<Rightarrow> string \<Rightarrow> 'w \<Rightarrow> 'w \<times> unit result" where
  "Shorturl_Delete m ctx shorten w =
     (let shorturlShortenKey = cacheShorturlShortenPrefix @ shorten
      in discard (CExec (sm_conn m) ctx
           (\<lambda>ctx conn.
              let query = ''delete from '' @ sm_table m @ '' where `shorten` = ?''
              in SqlExec conn ctx query [SqlStr shorten])
           [shorturlShortenKey] w))"

definition Shorturl_FindOne :: "('c, 'w) defaultShorturlModel \<Rightarrow> 'c \<Rightarrow> string \<Rightarrow> 'w \<Rightarrow> 'w \<times> Shorturl result" where
  "Shorturl_FindOne m ctx shorten w =
     (let shorturlShortenKey = cacheShorturlShortenPrefix @ shorten
      in case CQueryRow (sm_conn m) ctx shorturlShortenKey
                (\<lambda>ctx conn.
                   let query = ''select '' @ shorturlRows (sm_lib m) @ '' from '' @ sm_table m @
                               '' where `shorten` = ? limit 1''
                   in SqlQueryRow conn ctx query [SqlStr shorten]) w of
           (w', Inr resp) \<Rightarrow> (w', Inr resp)
         | (w', Inl err) \<Rightarrow> if err = ErrNotFound then (w', Inl ErrNotFound) else (w', Inl err))"

definition Shorturl_Insert :: "('c, 'w) defaultShorturlModel \<Rightarrow> 'c \<Rightarrow> Shorturl \<Rightarrow> 'w \<Rightarrow> 'w \<times> sql_result result" where
  "Shorturl_Insert m ctx data w =
     (let shorturlShortenKey = cacheShorturlShortenPrefix @ Shorten data
      in CExec (sm_conn m) ctx
           (\<lambda>ctx conn.
              let query = ''insert into '' @ sm_table m @ '' ('' @ shorturlRowsExpectAutoSet (sm_lib m) @
                          '') values (?, ?)''
              in SqlExec conn ctx query [SqlStr (Shorten data), SqlStr (Url data)])
           [shorturlShortenKey] w)"

definition Shorturl_Update :: "('c, 'w) defaultShorturlModel \<Rightarrow> 'c \<Rightarrow> Shorturl \<Rightarrow> 'w \<Rightarrow> 'w \<times> unit result" where
  "Shorturl_Update m ctx data w =
     (let shorturlShortenKey = cacheShorturlShortenPrefix @ Shorten data
      in discard (CExec (sm_conn m) ctx
           (\<lambda>ctx conn.
              let query = ''update '' @ sm_table m @ '' set '' @ shorturlRowsWithPlaceHolder (sm_lib m) @
                          '' where `shorten` = ?''
              in SqlExec conn ctx query [SqlStr (Url data), SqlStr (Shorten data)])
           [shorturlShortenKey] w))"

section \<open>The statements as the database sees them\<close>

definition shorturl_spec :: "Shorturl table_spec" where
  "shorturl_spec = \<lparr>
     stmt_insert = ''insert into `shorturl` (`shorten`,`url`) values (?, ?)'',
     stmt_select = ''select `shorten`,`url` from `shorturl` where `shorten` = ? limit 1'',
     stmt_update = ''update `shorturl` set `url`=? where `shorten` = ?'',
     stmt_delete = ''delete from `shorturl` where `shorten` = ?'',
     row_key = Shorten, row_val = (\<lambda>d. SqlStr (Url d)), row_put = (\<lambda>r d. r\<lparr>Url := Url d\<rparr>),
     row_cut = (\<lambda>d. \<lparr>Shorten = cut_to 255 (Shorten d), Url = cut_to 255 (Url d)\<rparr>),
     row_fits = (\<lambda>d. utf8_valid (Shorten d) \<and> utf8_valid (Url d) \<and> utf8_length (Shorten d) \<le> 255 \<and> utf8_length (Url d) \<le> 255),
     row_refused = (\<lambda>d. too_long 255 (Shorten d) \<or> too_long 255 (Url d)), row_text = (\<lambda>d. utf8_valid (Shorten d) \<and> utf8_valid (Url d))\<rparr>"

lemma shorturl_columns:
  assumes "builder_ok L"
  shows "shorturlRows L = ''`shorten`,`url`''" "shorturlRowsExpectAutoSet L = ''`shorten`,`url`''"
    "shorturlRowsWithPlaceHolder L = ''`url`=?''"
  using assms
  by (simp_all add: builder_ok_def shorturlRows_def shorturlRowsExpectAutoSet_def
      shorturlRowsWithPlaceHolder_def shorturlFieldNames_def shorturl_tags_def)

lemma shorturl_rows_of_spec [simp]:
  "row_key shorturl_spec = Shorten" "row_val shorturl_spec d = SqlStr (Url d)" "row_put shorturl_spec r d = r\<lparr>Url := Url d\<rparr>"
  by (simp_all add: shorturl_spec_def)

abbreviation shorturl_model :: "('c, Shorturl, 'w) mysql_lib \<Rightarrow> ('c, 'w) defaultShorturlModel" where
  "shorturl_model L \<equiv> NewShorturlModel L (Mysql L)"

lemma shorturl_model_fields:
  "sm_conn (shorturl_model L) = NewConn L (Mysql L)" "sm_table (shorturl_model L) = ''`shorturl`''"
  "sm_lib (shorturl_model L) = Builder L"
  by (simp_all add: NewShorturlModel_def newShorturlModel_def)

text \<open>Each operation runs its own statement of the table, under the row's cache key.\<close>

lemma shorturl_unfold:
  assumes "builder_ok (Builder L)"
  shows "Shorturl_Insert (shorturl_model L) c d w =
      CExec (NewConn L (Mysql L)) c
        (\<lambda>c conn. SqlExec conn c (stmt_insert shorturl_spec)
            [SqlStr (row_key shorturl_spec d), row_val shorturl_spec d])
        [cacheShorturlShortenPrefix @ Shorten d] w"
    "Shorturl_Update (shorturl_model L) c d w =
      discard (CExec (NewConn L (Mysql L)) c
        (\<lambda>c conn. SqlExec conn c (stmt_update shorturl_spec)
            [row_val shorturl_spec d, SqlStr (row_key shorturl_spec d)])
        [cacheShorturlShortenPrefix @ Shorten d] w)"
    "Shorturl_Delete (shorturl_model L) c k w =
      discard (CExec (NewConn L (Mysql L)) c
        (\<lambda>c conn. SqlExec conn c (stmt_delete shorturl_spec) [SqlStr k])
        [cacheShorturlShortenPrefix @ k] w)"
    "Shorturl_FindOne (shorturl_model L) c k w =
      CQueryRow (NewConn L (Mysql L)) c (cacheShorturlShortenPrefix @ k)
        (\<lambda>c conn. SqlQueryRow conn c (stmt_select shorturl_spec) [SqlStr k]) w"
  by (simp_all add: Shorturl_Insert_def Shorturl_Update_def Shorturl_Delete_def Shorturl_FindOne_def
      shorturl_columns [OF assms] shorturl_model_fields shorturl_spec_def Let_def
      split: prod.splits sum.splits)

section \<open>The model is a keyed table\<close>

type_synonym ('c, 'w) shorturl_env = "('c, Shorturl, 'w) mysql_lib \<times> (Shorturl, 'w) store_view \<times> 'c \<times> string set"

definition su_good :: "('c, 'w) shorturl_env \<Rightarrow> bool" where
  "su_good = (\<lambda>(L, V, c, K). mysql_ok L V shorturl_spec \<and> spelled V K)"

definition su_keys :: "('c, 'w) shorturl_env \<Rightarrow> string set" where
  "su_keys = (\<lambda>(L, V, c, K). K)"

definition su_rows :: "('c, 'w) shorturl_env \<Rightarrow> 'w \<Rightarrow> string \<rightharpoonup> Shorturl" where
  "su_rows = (\<lambda>(L, V, c, K) w. table_of V w |` K)"

definition su_coherent :: "('c, 'w) shorturl_env \<Rightarrow> 'w \<Rightarrow> bool" where
  "su_coherent = (\<lambda>(L, V, c, K). cache_coherent V cacheShorturlShortenPrefix K)"

lemmas su_defs = su_good_def su_keys_def su_rows_def su_coherent_def

lemma su_goodD:
  assumes "su_good (L, V, c, K)"
  shows "builder_ok (Builder L)" "cached_conn_ok V (Mysql L) (NewConn L (Mysql L))" "sql_table_ok V (Mysql L) shorturl_spec"
    "spelled V K"
  using assms by (simp_all add: su_good_def mysql_ok_def)

interpretation su: kv_store_full su_good su_keys su_rows su_coherent Shorten "row_cut shorturl_spec" "row_kept shorturl_spec" "row_refused shorturl_spec"
  "\<lambda>(L, V, c, K). Shorturl_Insert (shorturl_model L) c" "\<lambda>(L, V, c, K). Shorturl_FindOne (shorturl_model L) c"
  "row_fits shorturl_spec" "row_put shorturl_spec"
  "\<lambda>(L, V, c, K). Shorturl_Update (shorturl_model L) c" "\<lambda>(L, V, c, K). Shorturl_Delete (shorturl_model L) c"
proof (unfold_locales, goal_cases)
  case (1 e w k)
  obtain L V c K where e: "e = (L, V, c, K)" by (cases e)
  note g = su_goodD [OF 1(1) [unfolded e]]
  show ?case
    using cached_select [OF g(2,3), of cacheShorturlShortenPrefix K w k c] 1 spelled_text [OF g(4)]
    by (simp add: e su_defs shorturl_unfold(4) [OF g(1)])
next
  case (2 e w k)
  obtain L V c K where e: "e = (L, V, c, K)" by (cases e)
  note g = su_goodD [OF 2(1) [unfolded e]]
  show ?case
    using cached_select_state [OF g(2,3), of cacheShorturlShortenPrefix K w k c] 2(2,3)
    by (auto simp: e su_defs shorturl_unfold(4) [OF g(1)] prod_eq_iff)
next
  case (3 e k)
  then show ?case by (cases e) (auto simp: su_defs intro: spelled_text)
next
  case (4 e w d)
  obtain L V c K where e: "e = (L, V, c, K)" by (cases e)
  note g = su_goodD [OF 4(1) [unfolded e]]
  show ?case
    using cached_insert_new [OF g(2,3), of cacheShorturlShortenPrefix K w d c] 4 row_set_spelled [OF g(4)]
    by (auto simp: e su_defs shorturl_unfold(1) [OF g(1)])
next
  case (5 e w d)
  obtain L V c K where e: "e = (L, V, c, K)" by (cases e)
  note g = su_goodD [OF 5(1) [unfolded e]]
  show ?case
    using cached_insert_dup [OF g(2,3), of w d c "[cacheShorturlShortenPrefix @ Shorten d]"] 5
    by (auto simp: row_kept_def e su_defs shorturl_unfold(1) [OF g(1)])
next
  case (6 e w d)
  obtain L V c K where e: "e = (L, V, c, K)" by (cases e)
  note g = su_goodD [OF 6(1) [unfolded e]]
  show ?case
    using cached_update [OF g(2,3), of cacheShorturlShortenPrefix K w d c] 6 row_set_spelled [OF g(4)]
    by (auto simp: e su_defs shorturl_unfold(2) [OF g(1)])
next
  case (7 e w k)
  obtain L V c K where e: "e = (L, V, c, K)" by (cases e)
  note g = su_goodD [OF 7(1) [unfolded e]]
  show ?case
    using cached_delete [OF g(2,3), of cacheShorturlShortenPrefix K w k c] 7 row_set_spelled [OF g(4)]
    by (auto simp: e su_defs shorturl_unfold(3) [OF g(1)])
qed

section \<open>Properties\<close>

definition shorturl_ops :: "('c, 'w) defaultShorturlModel \<Rightarrow> 'c \<Rightarrow> (Shorturl, 'w) kv_ops" where
  "shorturl_ops m c = \<lparr>op_insert = Shorturl_Insert m c, op_find = Shorturl_FindOne m c,
     op_update = Shorturl_Update m c, op_delete = Shorturl_Delete m c\<rparr>"

definition ref_shorturl_lib :: "('c, Shorturl, Shorturl ref_world) mysql_lib" where
  "ref_shorturl_lib = \<lparr>Builder = ref_builder,
     Mysql = ref_sql shorturl_spec (\<lambda>k v. case v of SqlStr u \<Rightarrow> \<lparr>Shorten = k, Url = u\<rparr> | _ \<Rightarrow> \<lparr>Shorten = k, Url = []\<rparr>),
     NewConn = ref_cached\<rparr>"

lemma ref_shorturl_ok: "mysql_ok ref_shorturl_lib ref_view shorturl_spec"
  unfolding mysql_ok_def ref_shorturl_lib_def
  by (simp add: ref_builder_ok ref_cached_ok)
    (rule ref_sql_ok; auto simp: shorturl_spec_def placeholders_def dest: too_long_length)

text \<open>
  C9. Refinement: take any sequence of \<^verbatim>\<open>Insert\<close>, \<^verbatim>\<open>FindOne\<close>, \<^verbatim>\<open>Update\<close> and \<^verbatim>\<open>Delete\<close> on the short-URL model whose strings are valid UTF-8 and whose keys are spelled
  consistently, that is, the column's collation does not identify two of them. Through the statements the model builds and the cache
  keys it invalidates, it has the outcomes of the same sequence on a finite map (trailing spaces over the columns' length are cut off, other rows that are too long
  are refused), and leaves the table, seen through these keys, equal to that map: no read of them is ever served a stale
  row or a stale absence.
\<close>

theorem shorturl_model_refines:
  assumes "mysql_ok L V shorturl_spec" "spelled V K" "cache_coherent V cacheShorturlShortenPrefix K w"
    and "\<forall>x \<in> set xs. op_within Shorten (row_kept shorturl_spec) (row_refused shorturl_spec) (row_fits shorturl_spec) K x"
  shows "(let r = kv_run (shorturl_ops (NewShorturlModel L (Mysql L)) c) xs w
          in (table_of V (fst r) |` K, snd r)) =
    kv_abs_run Shorten (row_cut shorturl_spec) (row_refused shorturl_spec) (\<lambda>r d. r\<lparr>Url := Url d\<rparr>) xs (table_of V w |` K)"
proof -
  have "su_good (L, V, c, K)" "su_coherent (L, V, c, K) w" using assms by (simp_all add: su_defs)
  from su.kv_run_refines [OF this] assms(4) show ?thesis
    by (simp add: su.ops_def su_rows_def su_keys_def shorturl_ops_def shorturl_spec_def Let_def)
qed

theorem shorturl_model_refines_witness:
  "(let u = ''http://go-zero.dev''; d = \<lparr>Shorten = ''ab12cd'', Url = u\<rparr>; d' = d\<lparr>Url := ''http://x''\<rparr>;
        r = kv_run (shorturl_ops (NewShorturlModel ref_shorturl_lib (Mysql ref_shorturl_lib)) ())
              [KvFind ''ab12cd'', KvInsert d, KvFind ''ab12cd'', KvInsert d, KvUpdate d', KvFind ''ab12cd'',
               KvDelete ''ab12cd'', KvFind ''ab12cd''] (Map.empty, Map.empty)
    in snd r = [OutFind (Inl ErrNotFound), OutInsert True, OutFind (Inr d), OutInsert False, OutDone True,
                OutFind (Inr d'), OutDone True, OutFind (Inl ErrNotFound)])"
  using shorturl_model_refines [OF ref_shorturl_ok _ ref_coherent_empty [of _ "{''ab12cd''}" Map.empty], of
      "let u = ''http://go-zero.dev''; d = \<lparr>Shorten = ''ab12cd'', Url = u\<rparr>; d' = d\<lparr>Url := ''http://x''\<rparr>
       in [KvFind ''ab12cd'', KvInsert d, KvFind ''ab12cd'', KvInsert d, KvUpdate d', KvFind ''ab12cd'',
           KvDelete ''ab12cd'', KvFind ''ab12cd'']" "()"]
  by (simp add: Let_def shorturl_spec_def row_kept_def too_long_def utf8_length_def utf8_cont_def utf8_range_def)

text \<open>
  C22. Two spellings of one key see different rows. When the collation identifies a row's key with another string, \<^verbatim>\<open>FindOne\<close> of the other
  spelling finds the row and caches it under that spelling; \<^verbatim>\<open>Update\<close> and \<^verbatim>\<open>Delete\<close> of the row invalidate its own spelling only, so a
  second \<^verbatim>\<open>FindOne\<close> of the other spelling goes on answering the old row, after an update and even after the deletion, while
  its own spelling answers the new state.
\<close>

theorem shorturl_spellings_stale:
  assumes "mysql_ok L V shorturl_spec" "collate V a = collate V (Shorten d)" "a \<noteq> Shorten d" "utf8_valid a" "row_fits shorturl_spec d"
    and "table_of V w (Shorten d) = Some old"
    and "cache_of V w (cacheShorturlShortenPrefix @ a) = None" "cache_of V w (cacheShorturlShortenPrefix @ Shorten d) = None"
  shows "(let m = NewShorturlModel L (Mysql L); (w1, r1) = Shorturl_FindOne m c a w; (w2, r2) = Shorturl_Update m c d w1;
      (w3, r3) = Shorturl_FindOne m c (Shorten d) w2; (w4, r4) = Shorturl_FindOne m c a w3;
      (w5, r5) = Shorturl_Delete m c (Shorten d) w4; (w6, r6) = Shorturl_FindOne m c (Shorten d) w5; (w7, r7) = Shorturl_FindOne m c a w6
    in r1 = Inr old \<and> r2 = Inr () \<and> r3 = Inr (old\<lparr>Url := Url d\<rparr>) \<and> r4 = Inr old \<and> r5 = Inr () \<and> r6 = Inl ErrNotFound \<and> r7 = Inr old)"
proof -
  note C = mysql_okD(2) [OF assms(1)] and T = mysql_okD(3) [OF assms(1)] and U = shorturl_unfold [OF mysql_okD(1) [OF assms(1)]]
  let ?b = "Shorten d" and ?p = cacheShorturlShortenPrefix
  have ub: "utf8_valid ?b" using row_fitsD(4) [OF T assms(5)] by simp
  have row: "table_of V w a = Some old" using sql_table_okD(1) [OF T] assms(2,6) by metis
  let ?w1 = "set_cache V (?p @ a) (Some old) w"
  have 1: "Shorturl_FindOne (shorturl_model L) c a w = (?w1, Inr old)"
    using C assms(7) row by (simp add: U(4) cached_conn_ok_def select_row [OF T assms(4)])
  obtain v2 n where v2: "SqlExec (Mysql L) c (stmt_update shorturl_spec) [row_val shorturl_spec d, SqlStr (row_key shorturl_spec d)] ?w1 = (v2, Inr n)"
    "table_of V v2 = row_set V ?b (Some (old\<lparr>Url := Url d\<rparr>)) (table_of V w)" "cache_of V v2 = (cache_of V w)(?p @ a \<mapsto> Some old)"
    using update_row [OF T assms(5), of c ?w1] assms(6) by (auto simp: set_cache_view [OF C])
  let ?w2 = "del_cache V [?p @ ?b] v2"
  have 2: "Shorturl_Update (shorturl_model L) c d ?w1 = (?w2, Inr ())"
    by (simp only: U(2) cexec_ok [OF C, of "\<lambda>c conn. SqlExec conn c (stmt_update shorturl_spec) [row_val shorturl_spec d, SqlStr (row_key shorturl_spec d)]", OF v2(1)] discard.simps)
  have c2: "cache_of V ?w2 (?p @ ?b) = None" "cache_of V ?w2 (?p @ a) = Some (Some old)" "table_of V ?w2 ?b = Some (old\<lparr>Url := Url d\<rparr>)"
    using assms(3) by (simp_all add: del_cache_view [OF C] v2)
  let ?w3 = "set_cache V (?p @ ?b) (Some (old\<lparr>Url := Url d\<rparr>)) ?w2"
  have 3: "Shorturl_FindOne (shorturl_model L) c ?b ?w2 = (?w3, Inr (old\<lparr>Url := Url d\<rparr>))"
    using C c2 by (simp add: U(4) cached_conn_ok_def select_row [OF T ub])
  have c3: "cache_of V ?w3 (?p @ a) = Some (Some old)" using c2(2) assms(3) by (simp add: set_cache_view [OF C])
  have 4: "Shorturl_FindOne (shorturl_model L) c a ?w3 = (?w3, Inr old)" using C c3 by (simp add: U(4) cached_conn_ok_def)
  obtain v5 n5 where v5: "SqlExec (Mysql L) c (stmt_delete shorturl_spec) [SqlStr ?b] ?w3 = (v5, Inr n5)"
    "table_of V v5 = row_set V ?b None (table_of V ?w3)" "cache_of V v5 = cache_of V ?w3"
    using delete_row [OF T ub] .
  let ?w5 = "del_cache V [?p @ ?b] v5"
  have 5: "Shorturl_Delete (shorturl_model L) c ?b ?w3 = (?w5, Inr ())"
    by (simp only: U(3) cexec_ok [OF C, of "\<lambda>c conn. SqlExec conn c (stmt_delete shorturl_spec) [SqlStr ?b]", OF v5(1)] discard.simps)
  have c5: "cache_of V ?w5 (?p @ ?b) = None" "cache_of V ?w5 (?p @ a) = Some (Some old)" "table_of V ?w5 ?b = None"
    using assms(3) c3 by (simp_all add: del_cache_view [OF C] v5)
  let ?w6 = "set_cache V (?p @ ?b) None ?w5"
  have 6: "Shorturl_FindOne (shorturl_model L) c ?b ?w5 = (?w6, Inl ErrNotFound)"
    using cached_miss [OF C T c5(1,3) ub] by (simp add: U(4))
  have "cache_of V ?w6 (?p @ a) = Some (Some old)" using c5(2) assms(3) by (simp add: set_cache_view [OF C])
  then have 7: "Shorturl_FindOne (shorturl_model L) c a ?w6 = (?w6, Inr old)" using C by (simp add: U(4) cached_conn_ok_def)
  show ?thesis by (simp add: Let_def 1 2 3 4 5 6 7)
qed

theorem shorturl_spellings_stale_witness:
  "(let m = NewShorturlModel ref_shorturl_lib (Mysql ref_shorturl_lib); d = \<lparr>Shorten = ''ab'', Url = ''http://new''\<rparr>; old = \<lparr>Shorten = ''ab'', Url = ''http://old''\<rparr>;
      (w1, r1) = Shorturl_FindOne m () ''AB'' ([''ab'' \<mapsto> old], Map.empty); (w2, r2) = Shorturl_Update m () d w1;
      (w3, r3) = Shorturl_FindOne m () ''ab'' w2; (w4, r4) = Shorturl_FindOne m () ''AB'' w3
    in r3 = Inr d \<and> r4 = Inr old)"
  using shorturl_spellings_stale [OF ref_shorturl_ok, of "''AB''" "\<lparr>Shorten = ''ab'', Url = ''http://new''\<rparr>" "([''ab'' \<mapsto> \<lparr>Shorten = ''ab'', Url = ''http://old''\<rparr>], Map.empty)"
      "\<lparr>Shorten = ''ab'', Url = ''http://old''\<rparr>" "()"]
  by (auto simp: Let_def lower_def lower_char_def shorturl_spec_def utf8_length_def utf8_cont_def utf8_range_def split: prod.splits)

end
