(* ===== verification/Shorturl_Service.thy ===== *)
theory Shorturl_Service
  imports Shorturl_Model Service_Lib
begin

text \<open>
  The short-URL service above its model, layer by layer: the protobuf messages, client stub and
  server handlers (\<^verbatim>\<open>shorturl/rpc/transform/pb/transform.pb.go\<close>), the RPC logic and server
  (\<^verbatim>\<open>internal/logic\<close>, \<^verbatim>\<open>internal/server\<close>), the client package with its JSON conversion
  (\<^verbatim>\<open>transformer/transformer.go\<close>), and the HTTP API (\<^verbatim>\<open>shorturl/api\<close>). \<^verbatim>\<open>hash.Md5Hex\<close> is a parameter.
  Each RPC method interprets \<open>unary_rpc\<close>, each HTTP handler \<open>parsed_handler\<close>; the end-to-end
  properties follow from these interfaces and from the model's.
\<close>

section \<open>Messages\<close>

record pb_ExpandReq = ExpandReq_Shorten :: string
record pb_ExpandResp = ExpandResp_Url :: string
record pb_ShortenReq = ShortenReq_Url :: string
record pb_ShortenResp = ShortenResp_Shorten :: string

text \<open>\<^verbatim>\<open>Reset\<close> stores the zero message, which is also what \<^verbatim>\<open>new\<close> gives.\<close>

definition ExpandReq_Reset :: pb_ExpandReq where "ExpandReq_Reset = \<lparr>ExpandReq_Shorten = []\<rparr>"
definition ExpandResp_Reset :: pb_ExpandResp where "ExpandResp_Reset = \<lparr>ExpandResp_Url = []\<rparr>"
definition ShortenReq_Reset :: pb_ShortenReq where "ShortenReq_Reset = \<lparr>ShortenReq_Url = []\<rparr>"
definition ShortenResp_Reset :: pb_ShortenResp where "ShortenResp_Reset = \<lparr>ShortenResp_Shorten = []\<rparr>"

text \<open>The getters are defined on nil pointers too.\<close>

definition ExpandReq_GetShorten :: "pb_ExpandReq option \<Rightarrow> string" where
  "ExpandReq_GetShorten m = (case m of Some m \<Rightarrow> ExpandReq_Shorten m | None \<Rightarrow> [])"
definition ExpandResp_GetUrl :: "pb_ExpandResp option \<Rightarrow> string" where
  "ExpandResp_GetUrl m = (case m of Some m \<Rightarrow> ExpandResp_Url m | None \<Rightarrow> [])"
definition ShortenReq_GetUrl :: "pb_ShortenReq option \<Rightarrow> string" where
  "ShortenReq_GetUrl m = (case m of Some m \<Rightarrow> ShortenReq_Url m | None \<Rightarrow> [])"
definition ShortenResp_GetShorten :: "pb_ShortenResp option \<Rightarrow> string" where
  "ShortenResp_GetShorten m = (case m of Some m \<Rightarrow> ShortenResp_Shorten m | None \<Rightarrow> [])"

datatype transform_msg =
    ExpandReq_msg pb_ExpandReq | ExpandResp_msg pb_ExpandResp
  | ShortenReq_msg pb_ShortenReq | ShortenResp_msg pb_ShortenResp

text \<open>The names under which the types are registered.\<close>

fun transform_type_name :: "transform_msg \<Rightarrow> string" where
  "transform_type_name (ExpandReq_msg _) = ''transform.expandReq''"
| "transform_type_name (ExpandResp_msg _) = ''transform.expandResp''"
| "transform_type_name (ShortenReq_msg _) = ''transform.shortenReq''"
| "transform_type_name (ShortenResp_msg _) = ''transform.shortenResp''"

fun transform_msg_wf :: "transform_msg \<Rightarrow> bool" where
  "transform_msg_wf (ExpandReq_msg m) = utf8_valid (ExpandReq_Shorten m)"
| "transform_msg_wf (ExpandResp_msg m) = utf8_valid (ExpandResp_Url m)"
| "transform_msg_wf (ShortenReq_msg m) = utf8_valid (ShortenReq_Url m)"
| "transform_msg_wf (ShortenResp_msg m) = utf8_valid (ShortenResp_Shorten m)"

section \<open>Client stub and server handlers\<close>

definition transformerClient_Expand ::
  "('c, transform_msg, 'w) grpc_conn \<Rightarrow> 'c \<Rightarrow> pb_ExpandReq \<Rightarrow> 'w \<Rightarrow> 'w \<times> pb_ExpandResp result" where
  "transformerClient_Expand cc ctx req w =
     unwrap (\<lambda>out. case out of ExpandResp_msg r \<Rightarrow> Some r | _ \<Rightarrow> None)
       (cc ctx ''/transform.transformer/expand'' (ExpandReq_msg req) w)"

definition transformerClient_Shorten ::
  "('c, transform_msg, 'w) grpc_conn \<Rightarrow> 'c \<Rightarrow> pb_ShortenReq \<Rightarrow> 'w \<Rightarrow> 'w \<times> pb_ShortenResp result" where
  "transformerClient_Shorten cc ctx req w =
     unwrap (\<lambda>out. case out of ShortenResp_msg r \<Rightarrow> Some r | _ \<Rightarrow> None)
       (cc ctx ''/transform.transformer/shorten'' (ShortenReq_msg req) w)"

record ('c, 'w) TransformerServer =
  srv_Expand :: "'c \<Rightarrow> pb_ExpandReq \<Rightarrow> 'w \<Rightarrow> 'w \<times> pb_ExpandResp result"
  srv_Shorten :: "'c \<Rightarrow> pb_ShortenReq \<Rightarrow> 'w \<Rightarrow> 'w \<times> pb_ShortenResp result"

definition Transformer_Expand_Handler ::
  "(('c, 'w) TransformerServer, 'c, transform_msg, 'w) method_handler" where
  "Transformer_Expand_Handler srv ctx dec interceptor w =
     (case dec (ExpandReq_msg ExpandReq_Reset) of
        Inl err \<Rightarrow> (w, Inl err)
      | Inr req \<Rightarrow>
          let handler = (\<lambda>ctx req w. case req of
                ExpandReq_msg r \<Rightarrow> wrap ExpandResp_msg (srv_Expand srv ctx r w)
              | _ \<Rightarrow> (w, Inl (Panicked TypeAssertion)))
          in case interceptor of
               None \<Rightarrow> handler ctx req w
             | Some i \<Rightarrow> i ctx req ''/transform.transformer/Expand'' handler w)"

definition Transformer_Shorten_Handler ::
  "(('c, 'w) TransformerServer, 'c, transform_msg, 'w) method_handler" where
  "Transformer_Shorten_Handler srv ctx dec interceptor w =
     (case dec (ShortenReq_msg ShortenReq_Reset) of
        Inl err \<Rightarrow> (w, Inl err)
      | Inr req \<Rightarrow>
          let handler = (\<lambda>ctx req w. case req of
                ShortenReq_msg r \<Rightarrow> wrap ShortenResp_msg (srv_Shorten srv ctx r w)
              | _ \<Rightarrow> (w, Inl (Panicked TypeAssertion)))
          in case interceptor of
               None \<Rightarrow> handler ctx req w
             | Some i \<Rightarrow> i ctx req ''/transform.transformer/Shorten'' handler w)"

definition Transformer_serviceDesc ::
  "(('c, 'w) TransformerServer, 'c, transform_msg, 'w) ServiceDesc" where
  "Transformer_serviceDesc = \<lparr>
     ServiceName = ''transform.transformer'',
     Methods = [(''expand'', Transformer_Expand_Handler), (''shorten'', Transformer_Shorten_Handler)],
     Streams = [], Metadata = ''transform.proto''\<rparr>"

section \<open>The RPC server\<close>

text \<open>The service context holds the model behind its interface; the tests put a mock there.\<close>

record ('c, 'w) rpc_ServiceContext =
  Model :: "'c \<Rightarrow> (Shorturl, 'w) kv_ops"

definition rpc_NewServiceContext :: "('c, Shorturl, 'w) mysql_lib \<Rightarrow> ('c, 'w) rpc_ServiceContext" where
  "rpc_NewServiceContext L = \<lparr>Model = shorturl_ops (NewShorturlModel L (Mysql L))\<rparr>"

record ('c, 's) rpc_logic =
  lg_ctx :: 'c
  lg_svcCtx :: 's

definition rpc_NewExpandLogic :: "'c \<Rightarrow> 's \<Rightarrow> ('c, 's) rpc_logic" where
  "rpc_NewExpandLogic ctx svcCtx = \<lparr>lg_ctx = ctx, lg_svcCtx = svcCtx\<rparr>"

definition rpc_NewShortenLogic :: "'c \<Rightarrow> 's \<Rightarrow> ('c, 's) rpc_logic" where
  "rpc_NewShortenLogic ctx svcCtx = \<lparr>lg_ctx = ctx, lg_svcCtx = svcCtx\<rparr>"

definition rpc_Expand ::
  "('c, ('c, 'w) rpc_ServiceContext) rpc_logic \<Rightarrow> pb_ExpandReq \<Rightarrow> 'w \<Rightarrow> 'w \<times> pb_ExpandResp result" where
  "rpc_Expand l req w =
     (case op_find (Model (lg_svcCtx l) (lg_ctx l)) (ExpandReq_Shorten req) w of
        (w', Inl err) \<Rightarrow> (w', Inl err)
      | (w', Inr res) \<Rightarrow> (w', Inr \<lparr>ExpandResp_Url = Url res\<rparr>))"

text \<open>\<^verbatim>\<open>hash.Md5Hex(...)[:6]\<close> panics on a shorter string.\<close>

definition rpc_Shorten ::
  "(string \<Rightarrow> string) \<Rightarrow> ('c, ('c, 'w) rpc_ServiceContext) rpc_logic \<Rightarrow> pb_ShortenReq \<Rightarrow> 'w \<Rightarrow>
   'w \<times> pb_ShortenResp result" where
  "rpc_Shorten md5hex l req w =
     (if length (md5hex (ShortenReq_Url req)) < 6 then (w, Inl (Panicked IndexOutOfRange))
      else let key = take 6 (md5hex (ShortenReq_Url req))
        in case op_insert (Model (lg_svcCtx l) (lg_ctx l))
                  \<lparr>Shorten = key, Url = ShortenReq_Url req\<rparr> w of
             (w', Inl err) \<Rightarrow> (w', Inl err)
           | (w', Inr _) \<Rightarrow> (w', Inr \<lparr>ShortenResp_Shorten = key\<rparr>))"

definition TransformerServer_Expand ::
  "('c, 'w) rpc_ServiceContext \<Rightarrow> 'c \<Rightarrow> pb_ExpandReq \<Rightarrow> 'w \<Rightarrow> 'w \<times> pb_ExpandResp result" where
  "TransformerServer_Expand s ctx req = rpc_Expand (rpc_NewExpandLogic ctx s) req"

definition TransformerServer_Shorten ::
  "(string \<Rightarrow> string) \<Rightarrow> ('c, 'w) rpc_ServiceContext \<Rightarrow> 'c \<Rightarrow> pb_ShortenReq \<Rightarrow> 'w \<Rightarrow> 'w \<times> pb_ShortenResp result" where
  "TransformerServer_Shorten md5hex s ctx req = rpc_Shorten md5hex (rpc_NewShortenLogic ctx s) req"

definition NewTransformerServer ::
  "(string \<Rightarrow> string) \<Rightarrow> ('c, 'w) rpc_ServiceContext \<Rightarrow> ('c, 'w) TransformerServer" where
  "NewTransformerServer md5hex s =
     \<lparr>srv_Expand = TransformerServer_Expand s, srv_Shorten = TransformerServer_Shorten md5hex s\<rparr>"

section \<open>The client package\<close>

record cl_ExpandReq = clExpandReq_Shorten :: string
record cl_ExpandResp = clExpandResp_Url :: string
record cl_ShortenReq = clShortenReq_Url :: string
record cl_ShortenResp = clShortenResp_Shorten :: string

definition errJsonConvert :: go_error where "errJsonConvert = Sentinel ''json convert error''"

record ('c, 'w) Transformer =
  tr_Expand :: "'c \<Rightarrow> cl_ExpandReq \<Rightarrow> 'w \<Rightarrow> 'w \<times> cl_ExpandResp result"
  tr_Shorten :: "'c \<Rightarrow> cl_ShortenReq \<Rightarrow> 'w \<Rightarrow> 'w \<times> cl_ShortenResp result"

definition defaultTransformer_Expand ::
  "json_lib \<Rightarrow> ('c, transform_msg, 'w) grpc_conn \<Rightarrow> 'c \<Rightarrow> cl_ExpandReq \<Rightarrow> 'w \<Rightarrow> 'w \<times> cl_ExpandResp result" where
  "defaultTransformer_Expand J cli ctx req w =
     (case json_convert J errJsonConvert [(''shorten'', True, JStr (clExpandReq_Shorten req))]
             [(''shorten'', JStr [])] of
        Inl err \<Rightarrow> (w, Inl err)
      | Inr request \<Rightarrow>
          (case transformerClient_Expand cli ctx \<lparr>ExpandReq_Shorten = field_str 0 request\<rparr> w of
             (w', Inl err) \<Rightarrow> (w', Inl err)
           | (w', Inr resp) \<Rightarrow>
               (case json_convert J errJsonConvert [(''url'', True, JStr (ExpandResp_Url resp))]
                       [(''url'', JStr [])] of
                  Inl err \<Rightarrow> (w', Inl err)
                | Inr ret \<Rightarrow> (w', Inr \<lparr>clExpandResp_Url = field_str 0 ret\<rparr>))))"

definition defaultTransformer_Shorten ::
  "json_lib \<Rightarrow> ('c, transform_msg, 'w) grpc_conn \<Rightarrow> 'c \<Rightarrow> cl_ShortenReq \<Rightarrow> 'w \<Rightarrow> 'w \<times> cl_ShortenResp result" where
  "defaultTransformer_Shorten J cli ctx req w =
     (case json_convert J errJsonConvert [(''url'', True, JStr (clShortenReq_Url req))]
             [(''url'', JStr [])] of
        Inl err \<Rightarrow> (w, Inl err)
      | Inr request \<Rightarrow>
          (case transformerClient_Shorten cli ctx \<lparr>ShortenReq_Url = field_str 0 request\<rparr> w of
             (w', Inl err) \<Rightarrow> (w', Inl err)
           | (w', Inr resp) \<Rightarrow>
               (case json_convert J errJsonConvert [(''shorten'', True, JStr (ShortenResp_Shorten resp))]
                       [(''shorten'', JStr [])] of
                  Inl err \<Rightarrow> (w', Inl err)
                | Inr ret \<Rightarrow> (w', Inr \<lparr>clShortenResp_Shorten = field_str 0 ret\<rparr>))))"

definition NewTransformer :: "json_lib \<Rightarrow> ('c, transform_msg, 'w) grpc_conn \<Rightarrow> ('c, 'w) Transformer" where
  "NewTransformer J cli =
     \<lparr>tr_Expand = defaultTransformer_Expand J cli, tr_Shorten = defaultTransformer_Shorten J cli\<rparr>"

section \<open>The HTTP API\<close>

record ty_ExpandReq = tyExpandReq_Shorten :: string
record ty_ExpandResp = tyExpandResp_Url :: string
record ty_ShortenReq = tyShortenReq_Url :: string
record ty_ShortenResp = tyShortenResp_Shorten :: string

record ('c, 'w) api_ServiceContext =
  api_Transformer :: "('c, 'w) Transformer"

definition api_NewServiceContext ::
  "json_lib \<Rightarrow> ('c, transform_msg, 'w) grpc_conn \<Rightarrow> ('c, 'w) api_ServiceContext" where
  "api_NewServiceContext J conn = \<lparr>api_Transformer = NewTransformer J conn\<rparr>"

definition api_NewExpandLogic :: "'c \<Rightarrow> 's \<Rightarrow> ('c, 's) rpc_logic" where
  "api_NewExpandLogic ctx svcCtx = \<lparr>lg_ctx = ctx, lg_svcCtx = svcCtx\<rparr>"

definition api_NewShortenLogic :: "'c \<Rightarrow> 's \<Rightarrow> ('c, 's) rpc_logic" where
  "api_NewShortenLogic ctx svcCtx = \<lparr>lg_ctx = ctx, lg_svcCtx = svcCtx\<rparr>"

definition api_Expand ::
  "('c, ('c, 'w) api_ServiceContext) rpc_logic \<Rightarrow> ty_ExpandReq \<Rightarrow> 'w \<Rightarrow> 'w \<times> ty_ExpandResp result" where
  "api_Expand l req w =
     (case tr_Expand (api_Transformer (lg_svcCtx l)) (lg_ctx l)
             \<lparr>clExpandReq_Shorten = tyExpandReq_Shorten req\<rparr> w of
        (w', Inl err) \<Rightarrow> (w', Inl err)
      | (w', Inr resp) \<Rightarrow> (w', Inr \<lparr>tyExpandResp_Url = clExpandResp_Url resp\<rparr>))"

definition api_Shorten ::
  "('c, ('c, 'w) api_ServiceContext) rpc_logic \<Rightarrow> ty_ShortenReq \<Rightarrow> 'w \<Rightarrow> 'w \<times> ty_ShortenResp result" where
  "api_Shorten l req w =
     (case tr_Shorten (api_Transformer (lg_svcCtx l)) (lg_ctx l)
             \<lparr>clShortenReq_Url = tyShortenReq_Url req\<rparr> w of
        (w', Inl err) \<Rightarrow> (w', Inl err)
      | (w', Inr resp) \<Rightarrow> (w', Inr \<lparr>tyShortenResp_Shorten = clShortenResp_Shorten resp\<rparr>))"

definition ExpandHandler ::
  "('q, 'c) http_lib \<Rightarrow> ('c, 'w) api_ServiceContext \<Rightarrow> 'q \<Rightarrow> 'w \<Rightarrow> 'w \<times> http_write list" where
  "ExpandHandler H ctx r w =
     (case Parse H r [(FormField, ''shorten'', JStr [])] of
        Inl err \<Rightarrow> (w, [HttpError err])
      | Inr vs \<Rightarrow>
          let req = \<lparr>tyExpandReq_Shorten = field_str 0 vs\<rparr>; l = api_NewExpandLogic (Context H r) ctx
          in case api_Expand l req w of
               (w', Inl err) \<Rightarrow> (w', [HttpError err])
             | (w', Inr resp) \<Rightarrow> (w', [HttpJson 200 [(''url'', False, JStr (tyExpandResp_Url resp))]]))"

definition ShortenHandler ::
  "('q, 'c) http_lib \<Rightarrow> ('c, 'w) api_ServiceContext \<Rightarrow> 'q \<Rightarrow> 'w \<Rightarrow> 'w \<times> http_write list" where
  "ShortenHandler H ctx r w =
     (case Parse H r [(FormField, ''url'', JStr [])] of
        Inl err \<Rightarrow> (w, [HttpError err])
      | Inr vs \<Rightarrow>
          let req = \<lparr>tyShortenReq_Url = field_str 0 vs\<rparr>; l = api_NewShortenLogic (Context H r) ctx
          in case api_Shorten l req w of
               (w', Inl err) \<Rightarrow> (w', [HttpError err])
             | (w', Inr resp) \<Rightarrow> (w', [HttpJson 200 [(''shorten'', False, JStr (tyShortenResp_Shorten resp))]]))"

definition shorturl_routes ::
  "('q, 'c) http_lib \<Rightarrow> ('c, 'w) api_ServiceContext \<Rightarrow> ('q, 'c, 'w) Route list" where
  "shorturl_routes H serverCtx =
     [\<lparr>Method = ''GET'', Path = ''/shorten'', Handler = ShortenHandler H serverCtx\<rparr>,
      \<lparr>Method = ''GET'', Path = ''/expand'', Handler = ExpandHandler H serverCtx\<rparr>]"

section \<open>The layers meet their interfaces\<close>

type_synonym ('c, 'w) tr_link =
  "('c, transform_msg, 'w) grpc_conn \<times> ('c, 'w) TransformerServer \<times> ('c, transform_msg, 'w) interceptor option \<times>
   ('c \<Rightarrow> 'c)"

definition tr_linked :: "('c, 'w) tr_link \<Rightarrow> bool" where
  "tr_linked = (\<lambda>(I, s, ic, sc).
     grpc_ok I Transformer_serviceDesc s ic transform_type_name transform_msg_wf sc)"

lemma Expand_Handler_run:
  assumes "transparent ic" "\<forall>m0. transform_type_name m0 = transform_type_name (ExpandReq_msg a) \<longrightarrow> dec m0 = Inr (ExpandReq_msg a)"
  shows "Transformer_Expand_Handler s c dec ic w = wrap ExpandResp_msg (srv_Expand s c a w)"
  using assms by (simp add: Transformer_Expand_Handler_def Let_def transparent_cases)

lemma Shorten_Handler_run:
  assumes "transparent ic" "\<forall>m0. transform_type_name m0 = transform_type_name (ShortenReq_msg a) \<longrightarrow> dec m0 = Inr (ShortenReq_msg a)"
  shows "Transformer_Shorten_Handler s c dec ic w = wrap ShortenResp_msg (srv_Shorten s c a w)"
  using assms by (simp add: Transformer_Shorten_Handler_def Let_def transparent_cases)

interpretation rpc_expand: unary_rpc tr_linked "\<lambda>r. utf8_valid (ExpandReq_Shorten r)"
  "\<lambda>(I, s, ic, sc). transformerClient_Expand I" "\<lambda>(I, s, ic, sc) c. srv_Expand s (sc c)"
proof (unfold_locales, goal_cases)
  case (1 e a c w)
  obtain I s ic sc where e: "e = (I, s, ic, sc)" by (cases e)
  with 1 have g: "grpc_ok I Transformer_serviceDesc s ic transform_type_name transform_msg_wf sc"
    by (simp add: tr_linked_def)
  have "I c ''/transform.transformer/expand'' (ExpandReq_msg a) w =
      map_err status_of (wrap ExpandResp_msg (srv_Expand s (sc c) a w))"
    by (rule grpc_call [OF g, of "''expand''" Transformer_Expand_Handler])
      (use 1 in \<open>simp_all add: Transformer_serviceDesc_def full_method_def
        Expand_Handler_run [OF grpc_ok_transparent [OF g]]\<close>)
  then show ?case by (simp add: e transformerClient_Expand_def unwrap_wrap)
qed

interpretation rpc_shorten: unary_rpc tr_linked "\<lambda>r. utf8_valid (ShortenReq_Url r)"
  "\<lambda>(I, s, ic, sc). transformerClient_Shorten I" "\<lambda>(I, s, ic, sc) c. srv_Shorten s (sc c)"
proof (unfold_locales, goal_cases)
  case (1 e a c w)
  obtain I s ic sc where e: "e = (I, s, ic, sc)" by (cases e)
  with 1 have g: "grpc_ok I Transformer_serviceDesc s ic transform_type_name transform_msg_wf sc"
    by (simp add: tr_linked_def)
  have "I c ''/transform.transformer/shorten'' (ShortenReq_msg a) w =
      map_err status_of (wrap ShortenResp_msg (srv_Shorten s (sc c) a w))"
    by (rule grpc_call [OF g, of "''shorten''" Transformer_Shorten_Handler])
      (use 1 in \<open>simp_all add: Transformer_serviceDesc_def full_method_def
        Shorten_Handler_run [OF grpc_ok_transparent [OF g]]\<close>)
  then show ?case by (simp add: e transformerClient_Shorten_def unwrap_wrap)
qed

text \<open>The client package adds the JSON conversions, which copy valid strings.\<close>

lemma convert_str:
  "json_ok J \<Longrightarrow> utf8_valid s \<Longrightarrow> json_convert J e [(n, om, JStr s)] [(n, JStr [])] = Inr [JStr s]"
  using json_convert_one [of J "JStr s"] by simp

lemma client_Expand:
  assumes "tr_linked (I, s, ic, sc)" "json_ok J" "utf8_valid k"
    and "srv_Expand s (sc c) \<lparr>ExpandReq_Shorten = k\<rparr> w = (w', r)"
    and "\<And>x. r = Inr x \<Longrightarrow> utf8_valid (ExpandResp_Url x)"
  shows "defaultTransformer_Expand J I c \<lparr>clExpandReq_Shorten = k\<rparr> w =
    (w', map_sum status_of (\<lambda>x. \<lparr>clExpandResp_Url = ExpandResp_Url x\<rparr>) r)"
  using assms rpc_expand.call_law [OF assms(1), of "\<lparr>ExpandReq_Shorten = k\<rparr>" c w]
  by (cases r) (simp_all add: defaultTransformer_Expand_def convert_str)

lemma client_Shorten:
  assumes "tr_linked (I, s, ic, sc)" "json_ok J" "utf8_valid u"
    and "srv_Shorten s (sc c) \<lparr>ShortenReq_Url = u\<rparr> w = (w', r)"
    and "\<And>x. r = Inr x \<Longrightarrow> utf8_valid (ShortenResp_Shorten x)"
  shows "defaultTransformer_Shorten J I c \<lparr>clShortenReq_Url = u\<rparr> w =
    (w', map_sum status_of (\<lambda>x. \<lparr>clShortenResp_Shorten = ShortenResp_Shorten x\<rparr>) r)"
  using assms rpc_shorten.call_law [OF assms(1), of "\<lparr>ShortenReq_Url = u\<rparr>" c w]
  by (cases r) (simp_all add: defaultTransformer_Shorten_def convert_str)

interpretation h_expand: parsed_handler
  "\<lambda>(H, s) q. map_sum id (\<lambda>vs. \<lparr>tyExpandReq_Shorten = field_str 0 vs\<rparr>) (Parse H q [(FormField, ''shorten'', JStr [])])"
  "\<lambda>(H, s) q. api_Expand (api_NewExpandLogic (Context H q) s)"
  "\<lambda>resp. [HttpJson 200 [(''url'', False, JStr (tyExpandResp_Url resp))]]"
  "\<lambda>(H, s). ExpandHandler H s"
  by unfold_locales (auto simp: ExpandHandler_def split: sum.splits)

interpretation h_shorten: parsed_handler
  "\<lambda>(H, s) q. map_sum id (\<lambda>vs. \<lparr>tyShortenReq_Url = field_str 0 vs\<rparr>) (Parse H q [(FormField, ''url'', JStr [])])"
  "\<lambda>(H, s) q. api_Shorten (api_NewShortenLogic (Context H q) s)"
  "\<lambda>resp. [HttpJson 200 [(''shorten'', False, JStr (tyShortenResp_Shorten resp))]]"
  "\<lambda>(H, s). ShortenHandler H s"
  by unfold_locales (auto simp: ShortenHandler_def split: sum.splits)

section \<open>The server on its model\<close>

text \<open>\<^verbatim>\<open>hash.Md5Hex\<close>: 32 hexadecimal digits.\<close>

definition md5_ok :: "(string \<Rightarrow> string) \<Rightarrow> bool" where
  "md5_ok md5hex \<longleftrightarrow> (\<forall>s. length (md5hex s) = 32 \<and> set (md5hex s) \<subseteq> set ''0123456789abcdef'')"

lemma md5_key:
  assumes "md5_ok md5hex"
  shows "\<not> length (md5hex u) < 6" "utf8_valid (take 6 (md5hex u))"
proof -
  have len: "length (md5hex u) = 32" and hex: "set (md5hex u) \<subseteq> set ''0123456789abcdef''"
    using assms unfolding md5_ok_def by blast+
  from len show "\<not> length (md5hex u) < 6" by simp
  have "\<forall>c \<in> set ''0123456789abcdef''. of_char c < (0x80::nat)" by simp
  then show "utf8_valid (take 6 (md5hex u))"
    using hex set_take_subset [of 6 "md5hex u"] by (intro utf8_valid_ascii) blast
qed

text \<open>The codes the service gives out; the lookups in the cache and the table are of these, or of what a client asks for.\<close>

definition short_codes :: "string set" where
  "short_codes = {s. length s = 6 \<and> set s \<subseteq> set ''0123456789abcdef''}"

lemma code_text: "k \<in> short_codes \<Longrightarrow> utf8_valid k"
proof -
  have "\<forall>c \<in> set ''0123456789abcdef''. of_char c < (0x80::nat)" by simp
  then show "k \<in> short_codes \<Longrightarrow> utf8_valid k" unfolding short_codes_def by (intro utf8_valid_ascii) blast
qed

lemma code_short:
  assumes "md5_ok md5hex"
  shows "take 6 (md5hex u) \<in> short_codes"
proof -
  have len: "length (md5hex u) = 32" and hex: "set (md5hex u) \<subseteq> set ''0123456789abcdef''"
    using assms unfolding md5_ok_def by blast+
  have "set (take 6 (md5hex u)) \<subseteq> set ''0123456789abcdef''" using set_take_subset hex by (rule subset_trans)
  moreover have "length (take 6 (md5hex u)) = 6" using len by simp
  ultimately show ?thesis unfolding short_codes_def by blast
qed

abbreviation shorturl_server ::
  "(string \<Rightarrow> string) \<Rightarrow> ('c, Shorturl, 'w) mysql_lib \<Rightarrow> ('c, 'w) TransformerServer" where
  "shorturl_server md5hex L \<equiv> NewTransformerServer md5hex (rpc_NewServiceContext L)"

lemmas server_defs = NewTransformerServer_def TransformerServer_Shorten_def TransformerServer_Expand_def
  rpc_Shorten_def rpc_Expand_def rpc_NewShortenLogic_def rpc_NewExpandLogic_def rpc_NewServiceContext_def shorturl_ops_def

lemma shorturl_fits: "row_fits shorturl_spec d \<longleftrightarrow> utf8_valid (Shorten d) \<and> utf8_valid (Url d) \<and> utf8_length (Shorten d) \<le> 255 \<and> utf8_length (Url d) \<le> 255"
  by (simp add: shorturl_spec_def)

lemma key_fits: "utf8_length (take 6 s) \<le> 255"
  by (rule order_trans [OF utf8_length_le]) simp

lemma key_cut [simp]: "cut_to 255 (take 6 s) = take 6 s"
  using key_fits by simp

lemma shorturl_cut: "row_cut shorturl_spec d = \<lparr>Shorten = cut_to 255 (Shorten d), Url = cut_to 255 (Url d)\<rparr>"
  by (simp add: shorturl_spec_def)

lemma shorturl_kept: "row_kept shorturl_spec d \<longleftrightarrow> utf8_valid (Shorten d) \<and> utf8_valid (Url d) \<and> cut_to 255 (Shorten d) = Shorten d"
  by (simp add: row_kept_def shorturl_spec_def)

lemma key_long [simp]: "\<not> too_long 255 (take 6 s)"
  using too_long_length key_fits linorder_not_le by blast

lemma shorturl_refused: "row_refused shorturl_spec d \<longleftrightarrow> too_long 255 (Shorten d) \<or> too_long 255 (Url d)"
  by (simp add: shorturl_spec_def)

abbreviation codes_coherent :: "(Shorturl, 'w) store_view \<Rightarrow> 'w \<Rightarrow> bool" where
  "codes_coherent V \<equiv> cache_coherent V cacheShorturlShortenPrefix short_codes"

lemma server_Shorten_new:
  assumes ok: "mysql_ok L V shorturl_spec" "spelled V short_codes" and coh: "codes_coherent V w"
    and md5: "md5_ok md5hex" and new: "table_of V w (take 6 (md5hex u)) = None"
    and short: "\<not> too_long 255 u" "utf8_valid u"
  shows "\<exists>w'. srv_Shorten (shorturl_server md5hex L) c \<lparr>ShortenReq_Url = u\<rparr> w =
      (w', Inr \<lparr>ShortenResp_Shorten = take 6 (md5hex u)\<rparr>) \<and>
    table_of V w' |` short_codes = (table_of V w |` short_codes)(take 6 (md5hex u) \<mapsto> \<lparr>Shorten = take 6 (md5hex u), Url = cut_to 255 u\<rparr>) \<and>
    codes_coherent V w'"
  using su.ins_new_law [of "(L, V, c, short_codes)" w "\<lparr>Shorten = take 6 (md5hex u), Url = u\<rparr>"] ok coh new short md5_key [OF md5]
    code_short [OF md5, of u]
  by (auto simp: su_defs server_defs Let_def shorturl_cut shorturl_kept shorturl_refused)

lemma server_Shorten_dup:
  assumes ok: "mysql_ok L V shorturl_spec" "spelled V short_codes" and coh: "codes_coherent V w"
    and md5: "md5_ok md5hex" and dup: "table_of V w (take 6 (md5hex u)) \<noteq> None \<or> too_long 255 u" "utf8_valid u"
  shows "\<exists>e. srv_Shorten (shorturl_server md5hex L) c \<lparr>ShortenReq_Url = u\<rparr> w = (w, Inl e)"
  using su.ins_dup_law [of "(L, V, c, short_codes)" w "\<lparr>Shorten = take 6 (md5hex u), Url = u\<rparr>"] ok coh dup md5_key [OF md5]
    code_short [OF md5, of u]
  by (auto simp: su_defs server_defs Let_def shorturl_cut shorturl_kept shorturl_refused)

lemma server_Expand:
  assumes ok: "mysql_ok L V shorturl_spec" "spelled V short_codes" and coh: "codes_coherent V w" and k: "k \<in> short_codes"
  shows "\<exists>w'. srv_Expand (shorturl_server md5hex L) c \<lparr>ExpandReq_Shorten = k\<rparr> w =
      (w', case table_of V w k of None \<Rightarrow> Inl ErrNotFound | Some d \<Rightarrow> Inr \<lparr>ExpandResp_Url = Url d\<rparr>)"
  using su.find_one_law [of "(L, V, c, short_codes)" w k] ok coh k
  by (auto simp: su_defs server_defs Let_def split: option.splits)

text \<open>Looking up any text, a code or not, leaves the codes' rows and their cache entries right.\<close>

lemma server_Expand_state:
  assumes ok: "mysql_ok L V shorturl_spec" "spelled V short_codes" and coh: "codes_coherent V w" and k: "utf8_valid k"
    and e: "srv_Expand (shorturl_server md5hex L) c \<lparr>ExpandReq_Shorten = k\<rparr> w = (w', r)"
  shows "table_of V w' |` short_codes = table_of V w |` short_codes \<and> codes_coherent V w'"
proof -
  have "w' = fst (Shorturl_FindOne (shorturl_model L) c k w)"
    using e by (auto simp: server_defs Let_def split: prod.splits sum.splits)
  then show ?thesis using su.find_state [of "(L, V, c, short_codes)" w k] ok coh k by (simp add: su_defs)
qed

section \<open>Properties\<close>

text \<open>The collation of the key column tells the codes apart; those without case are told apart by any collation in use.\<close>

definition shorturl_stack ::
  "json_lib \<Rightarrow> ('c, transform_msg, 'w) grpc_conn \<Rightarrow> (string \<Rightarrow> string) \<Rightarrow> ('c, Shorturl, 'w) mysql_lib \<Rightarrow>
   (Shorturl, 'w) store_view \<Rightarrow> ('c, transform_msg, 'w) interceptor option \<Rightarrow> ('c \<Rightarrow> 'c) \<Rightarrow> bool" where
  "shorturl_stack J I md5hex L V ic sc \<longleftrightarrow> json_ok J \<and> md5_ok md5hex \<and> mysql_ok L V shorturl_spec \<and>
     spelled V short_codes \<and> grpc_ok I Transformer_serviceDesc (shorturl_server md5hex L) ic transform_type_name transform_msg_wf sc"

lemma shorturl_stackD:
  assumes "shorturl_stack J I md5hex L V ic sc"
  shows "json_ok J" "md5_ok md5hex" "mysql_ok L V shorturl_spec" "tr_linked (I, shorturl_server md5hex L, ic, sc)"
    "spelled V short_codes"
  using assms by (simp_all add: shorturl_stack_def tr_linked_def)

lemma api_Shorten_run:
  assumes "tr_linked (I, s, ic, sc)" "json_ok J" "utf8_valid u"
    and "srv_Shorten s (sc c) \<lparr>ShortenReq_Url = u\<rparr> w = (w', r)"
    and "\<And>x. r = Inr x \<Longrightarrow> utf8_valid (ShortenResp_Shorten x)"
  shows "api_Shorten (api_NewShortenLogic c (api_NewServiceContext J I)) \<lparr>tyShortenReq_Url = u\<rparr> w =
    (w', map_sum status_of (\<lambda>x. \<lparr>tyShortenResp_Shorten = ShortenResp_Shorten x\<rparr>) r)"
  using client_Shorten [OF assms]
  by (cases r) (simp_all add: api_Shorten_def api_NewShortenLogic_def api_NewServiceContext_def NewTransformer_def)

lemma api_Expand_run:
  assumes "tr_linked (I, s, ic, sc)" "json_ok J" "utf8_valid k"
    and "srv_Expand s (sc c) \<lparr>ExpandReq_Shorten = k\<rparr> w = (w', r)"
    and "\<And>x. r = Inr x \<Longrightarrow> utf8_valid (ExpandResp_Url x)"
  shows "api_Expand (api_NewExpandLogic c (api_NewServiceContext J I)) \<lparr>tyExpandReq_Shorten = k\<rparr> w =
    (w', map_sum status_of (\<lambda>x. \<lparr>tyExpandResp_Url = ExpandResp_Url x\<rparr>) r)"
  using client_Expand [OF assms]
  by (cases r) (simp_all add: api_Expand_def api_NewExpandLogic_def api_NewServiceContext_def NewTransformer_def)

text \<open>The HTTP answers in terms of the table.\<close>

abbreviation shorturl_api ::
  "('q, 'c) http_lib \<Rightarrow> json_lib \<Rightarrow> ('c, transform_msg, 'w) grpc_conn \<Rightarrow> ('q, 'c, 'w) Route list" where
  "shorturl_api H J I \<equiv> shorturl_routes H (api_NewServiceContext J I)"

lemma shorturl_serve:
  "serve (shorturl_routes H s) (''GET'', ''/shorten'', q) = ShortenHandler H s q"
  "serve (shorturl_routes H s) (''GET'', ''/expand'', q) = ExpandHandler H s q"
  by (simp_all add: serve_def route_for_def shorturl_routes_def fun_eq_iff)

lemma shorten_http:
  assumes "tr_linked (I, s, ic, sc)" "json_ok J" "utf8_valid u"
    and "srv_Shorten s (sc (Context H q)) \<lparr>ShortenReq_Url = u\<rparr> w = (w', r)"
    and "\<And>x. r = Inr x \<Longrightarrow> utf8_valid (ShortenResp_Shorten x)"
    and "Parse H q [(FormField, ''url'', JStr [])] = Inr [JStr u]"
  shows "serve (shorturl_api H J I) (''GET'', ''/shorten'', q) w =
    (w', case r of Inl e \<Rightarrow> [HttpError (status_of e)]
         | Inr x \<Rightarrow> [HttpJson 200 [(''shorten'', False, JStr (ShortenResp_Shorten x))]])"
  using api_Shorten_run [OF assms(1-5)] assms(6)
  by (cases r) (simp_all add: shorturl_serve ShortenHandler_def)

lemma expand_http:
  assumes "tr_linked (I, s, ic, sc)" "json_ok J" "utf8_valid k"
    and "srv_Expand s (sc (Context H q)) \<lparr>ExpandReq_Shorten = k\<rparr> w = (w', r)"
    and "\<And>x. r = Inr x \<Longrightarrow> utf8_valid (ExpandResp_Url x)"
    and "Parse H q [(FormField, ''shorten'', JStr [])] = Inr [JStr k]"
  shows "serve (shorturl_api H J I) (''GET'', ''/expand'', q) w =
    (w', case r of Inl e \<Rightarrow> [HttpError (status_of e)]
         | Inr x \<Rightarrow> [HttpJson 200 [(''url'', False, JStr (ExpandResp_Url x))]])"
  using api_Expand_run [OF assms(1-5)] assms(6)
  by (cases r) (simp_all add: shorturl_serve ExpandHandler_def)

lemma expand_http_state:
  assumes "tr_linked (I, s, ic, sc)" "json_ok J" "utf8_valid k"
    and "Parse H q [(FormField, ''shorten'', JStr [])] = Inr [JStr k]"
  shows "fst (serve (shorturl_api H J I) (''GET'', ''/expand'', q) w) = fst (srv_Expand s (sc (Context H q)) \<lparr>ExpandReq_Shorten = k\<rparr> w)"
proof -
  obtain w' r where s: "srv_Expand s (sc (Context H q)) \<lparr>ExpandReq_Shorten = k\<rparr> w = (w', r)" by fastforce
  have "transformerClient_Expand I (Context H q) \<lparr>ExpandReq_Shorten = k\<rparr> w = map_err status_of (w', r)"
    using rpc_expand.call_law [OF assms(1), of "\<lparr>ExpandReq_Shorten = k\<rparr>" "Context H q" w] assms(3) s by simp
  then show ?thesis
    using assms(2-4) s
    by (cases r) (auto simp: shorturl_serve ExpandHandler_def api_Expand_def api_NewExpandLogic_def api_NewServiceContext_def
        NewTransformer_def defaultTransformer_Expand_def convert_str split: sum.splits)
qed

lemma shorten_answer:
  assumes st: "shorturl_stack J I md5hex L V ic sc" and coh: "codes_coherent V w"
    and q: "Parse H q [(FormField, ''url'', JStr [])] = Inr [JStr u]" "utf8_valid u"
    and k: "k = take 6 (md5hex u)"
  shows "\<exists>w'. codes_coherent V w' \<and>
    (if table_of V w k = None \<and> \<not> too_long 255 u
     then serve (shorturl_api H J I) (''GET'', ''/shorten'', q) w = (w', [HttpJson 200 [(''shorten'', False, JStr k)]]) \<and>
       table_of V w' |` short_codes = (table_of V w |` short_codes)(k \<mapsto> \<lparr>Shorten = k, Url = cut_to 255 u\<rparr>)
     else w' = w \<and> (\<exists>e. serve (shorturl_api H J I) (''GET'', ''/shorten'', q) w = (w, [HttpError (status_of e)])))"
proof (cases "table_of V w k = None \<and> \<not> too_long 255 u")
  case True
  obtain w' where w': "srv_Shorten (shorturl_server md5hex L) (sc (Context H q)) \<lparr>ShortenReq_Url = u\<rparr> w =
      (w', Inr \<lparr>ShortenResp_Shorten = k\<rparr>)"
    "table_of V w' |` short_codes = (table_of V w |` short_codes)(k \<mapsto> \<lparr>Shorten = k, Url = cut_to 255 u\<rparr>)" "codes_coherent V w'"
    using server_Shorten_new [OF shorturl_stackD(3,5) [OF st] coh shorturl_stackD(2) [OF st] _ _ q(2)] True k by metis
  have "utf8_valid k" using md5_key(2) [OF shorturl_stackD(2) [OF st]] k by simp
  then show ?thesis
    using shorten_http [OF shorturl_stackD(4,1) [OF st] q(2) w'(1) _ q(1)] True w' by auto
next
  case False
  obtain e where "srv_Shorten (shorturl_server md5hex L) (sc (Context H q)) \<lparr>ShortenReq_Url = u\<rparr> w = (w, Inl e)"
    using server_Shorten_dup [OF shorturl_stackD(3,5) [OF st] coh shorturl_stackD(2) [OF st] _ q(2)] False k by (auto simp: not_le)
  from shorten_http [OF shorturl_stackD(4,1) [OF st] q(2) this _ q(1)] False coh show ?thesis by auto
qed

lemma expand_answer:
  assumes st: "shorturl_stack J I md5hex L V ic sc" and coh: "codes_coherent V w"
    and q: "Parse H q [(FormField, ''shorten'', JStr [])] = Inr [JStr k]" "utf8_valid k" "k \<in> short_codes"
    and tx: "\<And>d. table_of V w k = Some d \<Longrightarrow> utf8_valid (Url d)"
  shows "\<exists>w'. serve (shorturl_api H J I) (''GET'', ''/expand'', q) w =
      (w', case table_of V w k of
             None \<Rightarrow> [HttpError (Status 2 ''sql: no rows in result set'')]
           | Some d \<Rightarrow> [HttpJson 200 [(''url'', False, JStr (Url d))]])"
proof -
  let ?r = "case table_of V w k of None \<Rightarrow> Inl ErrNotFound | Some d \<Rightarrow> Inr \<lparr>ExpandResp_Url = Url d\<rparr>"
  obtain w' where w': "srv_Expand (shorturl_server md5hex L) (sc (Context H q)) \<lparr>ExpandReq_Shorten = k\<rparr> w = (w', ?r)"
    using server_Expand [OF shorturl_stackD(3,5) [OF st] coh q(3)] by metis
  have "\<And>x. ?r = Inr x \<Longrightarrow> utf8_valid (ExpandResp_Url x)" using tx by (auto split: option.splits)
  from expand_http [OF shorturl_stackD(4,1) [OF st] q(2) w'(1) this q(1)]
  show ?thesis by (cases "table_of V w k") (auto simp: ErrNotFound_def)
qed

text \<open>Requests whose form values are text.\<close>

definition text_requests :: "('q, 'c) http_lib \<Rightarrow> (string \<times> string \<times> 'q) list \<Rightarrow> bool" where
  "text_requests H qs \<longleftrightarrow> (\<forall>(m, p, q) \<in> set qs. \<forall>n vs. Parse H q [(FormField, n, JStr [])] = Inr vs \<longrightarrow>
     (\<exists>s. vs = [JStr s] \<and> utf8_valid s))"

text \<open>What every request keeps: the cache is coherent for the codes, and their rows stay.\<close>

definition links_kept :: "(Shorturl, 'w) store_view \<Rightarrow> (string \<rightharpoonup> Shorturl) \<Rightarrow> 'w \<Rightarrow> bool" where
  "links_kept V m w \<longleftrightarrow> codes_coherent V w \<and> m \<subseteq>\<^sub>m table_of V w |` short_codes"

lemma serve_keeps_links:
  assumes st: "shorturl_stack J I md5hex L V ic sc" and inv: "links_kept V m w"
    and t: "text_requests H [r]"
  shows "links_kept V m (fst (serve (shorturl_api H J I) r w))"
proof -
  obtain mt p q where r: "r = (mt, p, q)" by (cases r)
  have coh: "codes_coherent V w" and sub: "m \<subseteq>\<^sub>m table_of V w |` short_codes"
    using inv by (auto simp: links_kept_def)
  have pt: "\<And>n vs. Parse H q [(FormField, n, JStr [])] = Inr vs \<Longrightarrow> \<exists>s. vs = [JStr s] \<and> utf8_valid s"
    using t by (auto simp: text_requests_def r)
  consider (s) "mt = ''GET''" "p = ''/shorten''" | (e) "mt = ''GET''" "p = ''/expand''"
    | (none) "route_for (shorturl_api H J I) mt p = None"
    by (cases "mt = ''GET'' \<and> p = ''/shorten''"; cases "mt = ''GET'' \<and> p = ''/expand''")
      (auto simp: route_for_def shorturl_routes_def)
  then show ?thesis
  proof cases
    case s
    show ?thesis
    proof (cases "Parse H q [(FormField, ''url'', JStr [])]")
      case (Inl x)
      then show ?thesis using inv s by (simp add: r shorturl_serve ShortenHandler_def)
    next
      case (Inr vs)
      then obtain u where u: "Parse H q [(FormField, ''url'', JStr [])] = Inr [JStr u]" "utf8_valid u" using pt by blast
      let ?k = "take 6 (md5hex u)"
      have "table_of V w ?k = None \<Longrightarrow> (table_of V w |` short_codes) ?k = None" by (simp add: restrict_map_def)
      with shorten_answer [OF st coh u refl] s inv sub show ?thesis
        by (auto simp: r links_kept_def map_le_upd_new split: if_splits)
    qed
  next
    case e
    show ?thesis
    proof (cases "Parse H q [(FormField, ''shorten'', JStr [])]")
      case (Inl x)
      then show ?thesis using inv e by (simp add: r shorturl_serve ExpandHandler_def)
    next
      case (Inr vs)
      then obtain k where k: "Parse H q [(FormField, ''shorten'', JStr [])] = Inr [JStr k]" "utf8_valid k" using pt by blast
      obtain w' res where e': "srv_Expand (shorturl_server md5hex L) (sc (Context H q)) \<lparr>ExpandReq_Shorten = k\<rparr> w = (w', res)" by fastforce
      from server_Expand_state [OF shorturl_stackD(3,5) [OF st] coh k(2) e'] expand_http_state [OF shorturl_stackD(4,1) [OF st] k(2,1), of w] e e' sub
      show ?thesis by (auto simp: r links_kept_def)
    qed
  next
    case none
    then show ?thesis using inv by (simp add: r serve_def)
  qed
qed

lemma serve_all_keeps_links:
  assumes st: "shorturl_stack J I md5hex L V ic sc" and inv: "links_kept V m w"
    and t: "text_requests H qs"
  shows "links_kept V m (serve_all (shorturl_api H J I) qs w)"
proof (rule serve_all_inv [where P = "links_kept V m"])
  fix r w assume "r \<in> set qs" "links_kept V m w"
  moreover from this t have "text_requests H [r]" by (auto simp: text_requests_def)
  ultimately show "links_kept V m (fst (serve (shorturl_api H J I) r w))"
    using serve_keeps_links [OF st] by blast
qed (rule inv)

text \<open>A stack for the witnesses: the service in process, over the reference database. The hash is
  constant, so any two URLs collide.\<close>

definition ref_md5 :: "string \<Rightarrow> string" where
  "ref_md5 s = replicate 32 (CHR ''a'')"

lemma ref_md5_ok: "md5_ok ref_md5"
  by (simp add: md5_ok_def ref_md5_def)

definition ref_conn :: "(unit, transform_msg, Shorturl ref_world) grpc_conn" where
  "ref_conn = local_conn Transformer_serviceDesc (shorturl_server ref_md5 ref_shorturl_lib) None transform_type_name"

definition ref_http :: "(string, unit) http_lib" where
  "ref_http = \<lparr>Context = (\<lambda>_. ()), RemoteAddr = (\<lambda>_. []), Parse = (\<lambda>q ts. Inr [JStr q])\<rparr>"

lemma lower_codes: "k \<in> short_codes \<Longrightarrow> lower k = k"
proof -
  have "\<forall>c \<in> set ''0123456789abcdef''. lower_char c = c" by (simp add: lower_char_def)
  then show "k \<in> short_codes \<Longrightarrow> lower k = k" unfolding short_codes_def lower_def by (auto intro: map_idI)
qed

lemma ref_spelled: "spelled ref_view short_codes"
  by (auto simp: spelled_def inj_on_def lower_codes intro: code_text)

lemma ref_stack: "shorturl_stack ref_json ref_conn ref_md5 ref_shorturl_lib ref_view None id"
  by (simp add: shorturl_stack_def ref_json_ok ref_shorturl_ok ref_md5_ok ref_spelled ref_conn_def
      local_conn_ok transparent_def)

text \<open>
  End to end: a URL of at most 255 characters that \<^verbatim>\<open>GET /shorten\<close> accepts is answered with the first six digits of its MD5
  hash, and after any further requests, in any order, \<^verbatim>\<open>GET /expand\<close> of that code answers the very
  URL: a short link, once given out, is never lost or redirected elsewhere. The request goes through
  the HTTP handler, the client's JSON conversion, gRPC, the logic, the SQL model and its cache.
\<close>

theorem shorturl_links_permanent:
  assumes "shorturl_stack J I md5hex L V ic sc"
    and "codes_coherent V w"
    and "Parse H q1 [(FormField, ''url'', JStr [])] = Inr [JStr u]" "utf8_valid u"
    and "table_of V w (take 6 (md5hex u)) = None" "utf8_length u \<le> 255"
    and "text_requests H qs"
    and "Parse H q2 [(FormField, ''shorten'', JStr [])] = Inr [JStr (take 6 (md5hex u))]"
  shows "\<exists>w1. serve (shorturl_routes H (api_NewServiceContext J I)) (''GET'', ''/shorten'', q1) w =
      (w1, [HttpJson 200 [(''shorten'', False, JStr (take 6 (md5hex u)))]]) \<and>
    snd (serve (shorturl_routes H (api_NewServiceContext J I)) (''GET'', ''/expand'', q2)
      (serve_all (shorturl_routes H (api_NewServiceContext J I)) qs w1)) =
      [HttpJson 200 [(''url'', False, JStr u)]]"
proof -
  let ?k = "take 6 (md5hex u)" and ?d = "\<lparr>Shorten = take 6 (md5hex u), Url = u\<rparr>"
  have l: "\<not> too_long 255 u" using too_long_length assms(6) linorder_not_le by blast
  obtain w1 where w1: "serve (shorturl_api H J I) (''GET'', ''/shorten'', q1) w =
      (w1, [HttpJson 200 [(''shorten'', False, JStr ?k)]])" "table_of V w1 |` short_codes = (table_of V w |` short_codes)(?k \<mapsto> ?d)"
    "codes_coherent V w1"
    using shorten_answer [OF assms(1-4) refl] assms(5,6) l by auto
  have "links_kept V [?k \<mapsto> ?d] w1" using w1 by (auto simp: links_kept_def map_le_def)
  from serve_all_keeps_links [OF assms(1) this assms(7)]
  have k: "links_kept V [?k \<mapsto> ?d] (serve_all (shorturl_api H J I) qs w1)" .
  have c: "?k \<in> short_codes" by (rule code_short [OF shorturl_stackD(2) [OF assms(1)]])
  with k have row: "table_of V (serve_all (shorturl_api H J I) qs w1) ?k = Some ?d"
    by (auto simp: links_kept_def map_le_def)
  have "utf8_valid ?k" by (rule md5_key [OF shorturl_stackD(2) [OF assms(1)]])
  from expand_answer [OF assms(1) _ assms(8) this c] k row w1(1) assms(4) show ?thesis
    by (fastforce simp: links_kept_def)
qed

theorem shorturl_links_permanent_witness:
  "\<exists>w1. serve (shorturl_routes ref_http (api_NewServiceContext ref_json ref_conn)) (''GET'', ''/shorten'', ''http://a'')
        (Map.empty, Map.empty) = (w1, [HttpJson 200 [(''shorten'', False, JStr ''aaaaaa'')]]) \<and>
      snd (serve (shorturl_routes ref_http (api_NewServiceContext ref_json ref_conn)) (''GET'', ''/expand'', ''aaaaaa'')
        (serve_all (shorturl_routes ref_http (api_NewServiceContext ref_json ref_conn))
          [(''GET'', ''/shorten'', ''http://b''), (''GET'', ''/expand'', ''AAAAAA'')] w1)) =
      [HttpJson 200 [(''url'', False, JStr ''http://a'')]]"
proof -
  have t: "text_requests ref_http [(''GET'', ''/shorten'', ''http://b''), (''GET'', ''/expand'', ''AAAAAA'')]"
    by (simp add: text_requests_def ref_http_def utf8_range_def)
  have k: "take 6 (ref_md5 s) = ''aaaaaa''" for s by (simp add: ref_md5_def numeral_eq_Suc)
  show ?thesis
    using shorturl_links_permanent [OF ref_stack ref_coherent_empty [of _ _ Map.empty] _ _ _ _ t, of "''http://a''" "''http://a''" "''aaaaaa''"]
    by (simp add: k ref_http_def utf8_range_def utf8_length_def utf8_cont_def)
qed

text \<open>
  C11. A taken code is never reassigned: shortening a URL whose first six hash digits are already in
  the table (the same URL again, or another one that collides), or one of more than 255 characters without its trailing spaces,
  answers an error that carries a gRPC
  status, and changes nothing, neither the table nor the cache.
\<close>

theorem shorturl_taken_code_rejected:
  assumes "shorturl_stack J I md5hex L V ic sc"
    and "codes_coherent V w"
    and "Parse H q [(FormField, ''url'', JStr [])] = Inr [JStr u]" "utf8_valid u"
    and "table_of V w (take 6 (md5hex u)) \<noteq> None \<or> too_long 255 u"
  shows "\<exists>code msg. serve (shorturl_routes H (api_NewServiceContext J I)) (''GET'', ''/shorten'', q) w =
    (w, [HttpError (Status code msg)])"
proof -
  obtain e where "serve (shorturl_api H J I) (''GET'', ''/shorten'', q) w = (w, [HttpError (status_of e)])"
    using shorten_answer [OF assms(1-4) refl] assms(5) by auto
  then show ?thesis by (cases e) auto
qed

theorem shorturl_taken_code_rejected_witness:
  "let w = ([''aaaaaa'' \<mapsto> \<lparr>Shorten = ''aaaaaa'', Url = ''http://a''\<rparr>], Map.empty)
   in \<exists>code msg. serve (shorturl_routes ref_http (api_NewServiceContext ref_json ref_conn))
        (''GET'', ''/shorten'', ''http://a'') w = (w, [HttpError (Status code msg)])"
proof -
  have k: "take 6 (ref_md5 s) = ''aaaaaa''" for s by (simp add: ref_md5_def numeral_eq_Suc)
  show ?thesis
    using shorturl_taken_code_rejected [OF ref_stack ref_coherent_empty [of _ _ "[''aaaaaa'' \<mapsto> \<lparr>Shorten = ''aaaaaa'', Url = ''http://a''\<rparr>]"],
        of ref_http "''http://a''" "''http://a''"]
    by (simp add: k ref_http_def utf8_range_def lower_def lower_char_def Let_def)
qed

text \<open>
  \<^verbatim>\<open>GET /expand\<close> of a code answers exactly from the table: the URL of the row, or, for an unknown code, the
  model's not-found error as it comes back over gRPC (status 2, the sentinel is no longer
  recognisable).
\<close>

theorem shorturl_expand_exact:
  assumes "shorturl_stack J I md5hex L V ic sc"
    and "codes_coherent V w" "\<forall>k d. table_of V w k = Some d \<longrightarrow> utf8_valid (Url d)"
    and "Parse H q [(FormField, ''shorten'', JStr [])] = Inr [JStr k]" "utf8_valid k" "k \<in> short_codes"
  shows "\<exists>w'. serve (shorturl_routes H (api_NewServiceContext J I)) (''GET'', ''/expand'', q) w =
      (w', case table_of V w k of
             None \<Rightarrow> [HttpError (Status 2 ''sql: no rows in result set'')]
           | Some d \<Rightarrow> [HttpJson 200 [(''url'', False, JStr (Url d))]])"
  using expand_answer [OF assms(1,2,4,5,6)] assms(3) by blast

end
