(* ===== verification/Tls_Shorturl.thy ===== *)
theory Tls_Shorturl
  imports Shorturl_Service
begin

text \<open>
  The short-URL service over TLS (\<^verbatim>\<open>rpc/tls/shorturl\<close>). Its protocol, client package and HTTP API are
  copies of the ones of \<^verbatim>\<open>shorturl\<close>; they get their own names here and are defined by the same text.
  Its own parts are an older table model, with the table's name from the configuration, and the
  loading of the TLS credentials on both sides. The model inserts past the cache, looks up before it
  deletes, and builds an update with one placeholder too many.
\<close>

section \<open>The table model\<close>

definition tls_shorturlFieldNames :: "builder_lib \<Rightarrow> string list" where
  "tls_shorturlFieldNames L = RawFieldNames L [''shorten'', ''url'']"

definition tls_shorturlRows :: "builder_lib \<Rightarrow> string" where
  "tls_shorturlRows L = join '','' (tls_shorturlFieldNames L)"

definition tls_shorturlRowsExpectAutoSet :: "builder_lib \<Rightarrow> string" where
  "tls_shorturlRowsExpectAutoSet L = join '','' (Remove L (tls_shorturlFieldNames L) [''create_time'', ''update_time''])"

definition tls_shorturlRowsWithPlaceHolder :: "builder_lib \<Rightarrow> string" where
  "tls_shorturlRowsWithPlaceHolder L =
     join ''=?,'' (Remove L (tls_shorturlFieldNames L) [''shorten'', ''create_time'', ''update_time'']) @ ''=?''"

definition tls_cacheShorturlShortenPrefix :: string where
  "tls_cacheShorturlShortenPrefix = ''cache#Shorturl#shorten#''"

record 'w ShorturlModel =
  tm_conn :: "(unit, Shorturl, 'w) CachedConn"
  tm_table :: string
  tm_lib :: builder_lib

definition tls_NewShorturlModel ::
  "(unit, Shorturl, 'w) mysql_lib \<Rightarrow> (unit, Shorturl, 'w) SqlConn \<Rightarrow> string \<Rightarrow> 'w ShorturlModel" where
  "tls_NewShorturlModel L conn table = \<lparr>tm_conn = NewConn L conn, tm_table = table, tm_lib = Builder L\<rparr>"

definition tls_Insert :: "'w ShorturlModel \<Rightarrow> Shorturl \<Rightarrow> 'w \<Rightarrow> 'w \<times> sql_result result" where
  "tls_Insert m data w =
     (let query = ''insert into '' @ tm_table m @ '' ('' @ tls_shorturlRowsExpectAutoSet (tm_lib m) @ '') values (?, ?)''
      in CExecNoCache (tm_conn m) () query [SqlStr (Shorten data), SqlStr (Url data)] w)"

definition tls_FindOne :: "'w ShorturlModel \<Rightarrow> string \<Rightarrow> 'w \<Rightarrow> 'w \<times> Shorturl result" where
  "tls_FindOne m shorten w =
     (let shorturlShortenKey = tls_cacheShorturlShortenPrefix @ shorten
      in case CQueryRow (tm_conn m) () shorturlShortenKey
                (\<lambda>ctx conn.
                   let query = ''select '' @ tls_shorturlRows (tm_lib m) @ '' from '' @ tm_table m @ '' where shorten = ? limit 1''
                   in SqlQueryRow conn ctx query [SqlStr shorten]) w of
           (w', Inr resp) \<Rightarrow> (w', Inr resp)
         | (w', Inl err) \<Rightarrow> if err = ErrNotFound then (w', Inl ErrNotFound) else (w', Inl err))"

definition tls_Update :: "'w ShorturlModel \<Rightarrow> Shorturl \<Rightarrow> 'w \<Rightarrow> 'w \<times> unit result" where
  "tls_Update m data w =
     (let shorturlShortenKey = tls_cacheShorturlShortenPrefix @ Shorten data
      in discard (CExec (tm_conn m) ()
           (\<lambda>ctx conn.
              let query = ''update '' @ tm_table m @ '' set '' @ tls_shorturlRowsWithPlaceHolder (tm_lib m) @ '' where shorten = ?''
              in SqlExec conn ctx query [SqlStr (Url data), SqlStr (Shorten data)])
           [shorturlShortenKey] w))"

definition tls_Delete :: "'w ShorturlModel \<Rightarrow> string \<Rightarrow> 'w \<Rightarrow> 'w \<times> unit result" where
  "tls_Delete m shorten w =
     (case tls_FindOne m shorten w of
        (w, Inl err) \<Rightarrow> (w, Inl err)
      | (w, Inr _) \<Rightarrow>
          let shorturlShortenKey = tls_cacheShorturlShortenPrefix @ shorten
          in discard (CExec (tm_conn m) ()
               (\<lambda>ctx conn.
                  let query = ''delete from '' @ tm_table m @ '' where shorten = ?''
                  in SqlExec conn ctx query [SqlStr shorten])
               [shorturlShortenKey] w))"

section \<open>The service\<close>

definition tls_rpc_NewServiceContext :: "(unit, Shorturl, 'w) mysql_lib \<Rightarrow> string \<Rightarrow> 'w ShorturlModel" where
  "tls_rpc_NewServiceContext L table = tls_NewShorturlModel L (Mysql L) table"

definition tls_rpc_Expand ::
  "('c, 'w ShorturlModel) rpc_logic \<Rightarrow> pb_ExpandReq \<Rightarrow> 'w \<Rightarrow> 'w \<times> pb_ExpandResp result" where
  "tls_rpc_Expand l req w =
     (case tls_FindOne (lg_svcCtx l) (ExpandReq_Shorten req) w of
        (w', Inl err) \<Rightarrow> (w', Inl err)
      | (w', Inr res) \<Rightarrow> (w', Inr \<lparr>ExpandResp_Url = Url res\<rparr>))"

definition tls_rpc_Shorten ::
  "(string \<Rightarrow> string) \<Rightarrow> ('c, 'w ShorturlModel) rpc_logic \<Rightarrow> pb_ShortenReq \<Rightarrow> 'w \<Rightarrow> 'w \<times> pb_ShortenResp result" where
  "tls_rpc_Shorten md5hex l req w =
     (if length (md5hex (ShortenReq_Url req)) < 6 then (w, Inl (Panicked IndexOutOfRange))
      else let key = take 6 (md5hex (ShortenReq_Url req))
        in case tls_Insert (lg_svcCtx l) \<lparr>Shorten = key, Url = ShortenReq_Url req\<rparr> w of
             (w', Inl err) \<Rightarrow> (w', Inl err)
           | (w', Inr _) \<Rightarrow> (w', Inr \<lparr>ShortenResp_Shorten = key\<rparr>))"

definition tls_NewExpandLogic :: "'c \<Rightarrow> 's \<Rightarrow> ('c, 's) rpc_logic" where
  "tls_NewExpandLogic ctx svcCtx = \<lparr>lg_ctx = ctx, lg_svcCtx = svcCtx\<rparr>"

definition tls_NewShortenLogic :: "'c \<Rightarrow> 's \<Rightarrow> ('c, 's) rpc_logic" where
  "tls_NewShortenLogic ctx svcCtx = \<lparr>lg_ctx = ctx, lg_svcCtx = svcCtx\<rparr>"

definition tls_NewTransformerServer ::
  "(string \<Rightarrow> string) \<Rightarrow> 'w ShorturlModel \<Rightarrow> ('c, 'w) TransformerServer" where
  "tls_NewTransformerServer md5hex s =
     \<lparr>srv_Expand = (\<lambda>ctx. tls_rpc_Expand (tls_NewExpandLogic ctx s)),
      srv_Shorten = (\<lambda>ctx. tls_rpc_Shorten md5hex (tls_NewShortenLogic ctx s))\<rparr>"

text \<open>The copied packages; their types are field for field those of \<^verbatim>\<open>shorturl\<close>.\<close>

type_synonym tls_cl_ExpandReq = cl_ExpandReq
type_synonym tls_cl_ExpandResp = cl_ExpandResp
type_synonym tls_cl_ShortenReq = cl_ShortenReq
type_synonym tls_cl_ShortenResp = cl_ShortenResp

type_synonym tls_ty_ExpandReq = ty_ExpandReq
type_synonym tls_ty_ExpandResp = ty_ExpandResp
type_synonym tls_ty_ShortenReq = ty_ShortenReq
type_synonym tls_ty_ShortenResp = ty_ShortenResp

definition tls_Transformer_serviceDesc :: "(('c, 'w) TransformerServer, 'c, transform_msg, 'w) ServiceDesc" where
  "tls_Transformer_serviceDesc = \<lparr>
     ServiceName = ''transform.transformer'',
     Methods = [(''expand'', Transformer_Expand_Handler), (''shorten'', Transformer_Shorten_Handler)],
     Streams = [], Metadata = ''transform.proto''\<rparr>"

definition tls_defaultTransformer_Expand ::
  "json_lib \<Rightarrow> ('c, transform_msg, 'w) grpc_conn \<Rightarrow> 'c \<Rightarrow> tls_cl_ExpandReq \<Rightarrow> 'w \<Rightarrow> 'w \<times> tls_cl_ExpandResp result" where
  "tls_defaultTransformer_Expand = defaultTransformer_Expand"

definition tls_defaultTransformer_Shorten ::
  "json_lib \<Rightarrow> ('c, transform_msg, 'w) grpc_conn \<Rightarrow> 'c \<Rightarrow> tls_cl_ShortenReq \<Rightarrow> 'w \<Rightarrow> 'w \<times> tls_cl_ShortenResp result" where
  "tls_defaultTransformer_Shorten = defaultTransformer_Shorten"

definition tls_NewTransformer :: "json_lib \<Rightarrow> ('c, transform_msg, 'w) grpc_conn \<Rightarrow> ('c, 'w) Transformer" where
  "tls_NewTransformer J cli =
     \<lparr>tr_Expand = tls_defaultTransformer_Expand J cli, tr_Shorten = tls_defaultTransformer_Shorten J cli\<rparr>"

definition tls_api_NewExpandLogic :: "'c \<Rightarrow> 's \<Rightarrow> ('c, 's) rpc_logic" where
  "tls_api_NewExpandLogic ctx svcCtx = \<lparr>lg_ctx = ctx, lg_svcCtx = svcCtx\<rparr>"

definition tls_api_NewShortenLogic :: "'c \<Rightarrow> 's \<Rightarrow> ('c, 's) rpc_logic" where
  "tls_api_NewShortenLogic ctx svcCtx = \<lparr>lg_ctx = ctx, lg_svcCtx = svcCtx\<rparr>"

definition tls_api_Expand ::
  "('c, ('c, 'w) api_ServiceContext) rpc_logic \<Rightarrow> tls_ty_ExpandReq \<Rightarrow> 'w \<Rightarrow> 'w \<times> tls_ty_ExpandResp result" where
  "tls_api_Expand l req w =
     (case tr_Expand (api_Transformer (lg_svcCtx l)) (lg_ctx l)
             \<lparr>clExpandReq_Shorten = tyExpandReq_Shorten req\<rparr> w of
        (w', Inl err) \<Rightarrow> (w', Inl err)
      | (w', Inr resp) \<Rightarrow> (w', Inr \<lparr>tyExpandResp_Url = clExpandResp_Url resp\<rparr>))"

definition tls_api_Shorten ::
  "('c, ('c, 'w) api_ServiceContext) rpc_logic \<Rightarrow> tls_ty_ShortenReq \<Rightarrow> 'w \<Rightarrow> 'w \<times> tls_ty_ShortenResp result" where
  "tls_api_Shorten l req w =
     (case tr_Shorten (api_Transformer (lg_svcCtx l)) (lg_ctx l)
             \<lparr>clShortenReq_Url = tyShortenReq_Url req\<rparr> w of
        (w', Inl err) \<Rightarrow> (w', Inl err)
      | (w', Inr resp) \<Rightarrow> (w', Inr \<lparr>tyShortenResp_Shorten = clShortenResp_Shorten resp\<rparr>))"

definition tls_expandHandler ::
  "('q, 'c) http_lib \<Rightarrow> ('c, 'w) api_ServiceContext \<Rightarrow> 'q \<Rightarrow> 'w \<Rightarrow> 'w \<times> http_write list" where
  "tls_expandHandler H ctx r w =
     (case Parse H r [(FormField, ''shorten'', JStr [])] of
        Inl err \<Rightarrow> (w, [HttpError err])
      | Inr vs \<Rightarrow>
          let req = \<lparr>tyExpandReq_Shorten = field_str 0 vs\<rparr>; l = tls_api_NewExpandLogic (Context H r) ctx
          in case tls_api_Expand l req w of
               (w', Inl err) \<Rightarrow> (w', [HttpError err])
             | (w', Inr resp) \<Rightarrow> (w', [HttpJson 200 [(''url'', False, JStr (tyExpandResp_Url resp))]]))"

definition tls_shortenHandler ::
  "('q, 'c) http_lib \<Rightarrow> ('c, 'w) api_ServiceContext \<Rightarrow> 'q \<Rightarrow> 'w \<Rightarrow> 'w \<times> http_write list" where
  "tls_shortenHandler H ctx r w =
     (case Parse H r [(FormField, ''url'', JStr [])] of
        Inl err \<Rightarrow> (w, [HttpError err])
      | Inr vs \<Rightarrow>
          let req = \<lparr>tyShortenReq_Url = field_str 0 vs\<rparr>; l = tls_api_NewShortenLogic (Context H r) ctx
          in case tls_api_Shorten l req w of
               (w', Inl err) \<Rightarrow> (w', [HttpError err])
             | (w', Inr resp) \<Rightarrow> (w', [HttpJson 200 [(''shorten'', False, JStr (tyShortenResp_Shorten resp))]]))"

definition tls_routes :: "('q, 'c) http_lib \<Rightarrow> ('c, 'w) api_ServiceContext \<Rightarrow> ('q, 'c, 'w) Route list" where
  "tls_routes H serverCtx =
     [\<lparr>Method = ''GET'', Path = ''/shorten'', Handler = tls_shortenHandler H serverCtx\<rparr>,
      \<lparr>Method = ''GET'', Path = ''/expand'', Handler = tls_expandHandler H serverCtx\<rparr>]"

section \<open>Credentials\<close>

text \<open>
  The TLS and file libraries: key pairs, certificate pools (\<^verbatim>\<open>None\<close>: no certificate in the PEM text)
  and transport credentials. \<^verbatim>\<open>log.Fatal\<close> ends the process; it is the \<open>Inl\<close> result.
\<close>

datatype client_auth = NoClientCert

datatype ('cert, 'pool) tls_Config =
    ServerConfig "'cert list" client_auth
  | ClientConfig 'pool

record ('cert, 'pool, 'cred) tls_lib =
  LoadX509KeyPair :: "string \<Rightarrow> string \<Rightarrow> 'cert result"
  ReadFile :: "string \<Rightarrow> string result"
  AppendCertsFromPEM :: "string \<Rightarrow> 'pool option"
  NewTLS :: "('cert, 'pool) tls_Config \<Rightarrow> 'cred"

definition server_loadTLSCredentials :: "('cert, 'pool, 'cred) tls_lib \<Rightarrow> 'cred result" where
  "server_loadTLSCredentials X =
     (case LoadX509KeyPair X ''cert/server-cert.pem'' ''cert/server-key.pem'' of
        Inl err \<Rightarrow> Inl err
      | Inr serverCert \<Rightarrow> Inr (NewTLS X (ServerConfig [serverCert] NoClientCert)))"

definition client_loadTLSCredentials :: "('cert, 'pool, 'cred) tls_lib \<Rightarrow> 'cred result" where
  "client_loadTLSCredentials X =
     (case ReadFile X ''cert/ca-cert.pem'' of
        Inl err \<Rightarrow> Inl err
      | Inr pemServerCA \<Rightarrow>
          (case AppendCertsFromPEM X pemServerCA of
             None \<Rightarrow> Inl (Errorf ''failed to add server CA's certificate'')
           | Some certPool \<Rightarrow> Inr (NewTLS X (ClientConfig certPool))))"

text \<open>\<open>dial\<close> is \<^verbatim>\<open>zrpc.NewClient\<close> with the transport credentials; \<^verbatim>\<open>zrpc.MustNewClient\<close> ends the process when it fails.\<close>

definition tls_api_NewServiceContext ::
  "('cert, 'pool, 'cred) tls_lib \<Rightarrow> json_lib \<Rightarrow> ('cred \<Rightarrow> ('c, transform_msg, 'w) grpc_conn result) \<Rightarrow>
   ('c, 'w) api_ServiceContext result" where
  "tls_api_NewServiceContext X J dial =
     (case client_loadTLSCredentials X of
        Inl err \<Rightarrow> Inl (Errorf (''cannot load TLS credentials: '' @ err_text err))
      | Inr tlsCredentials \<Rightarrow>
          (case dial tlsCredentials of
             Inl err \<Rightarrow> Inl err
           | Inr cli \<Rightarrow> let trans = tls_NewTransformer J cli in Inr \<lparr>api_Transformer = trans\<rparr>))"

text \<open>The server's \<^verbatim>\<open>main\<close>: the implementation it registers and the credentials it serves with.\<close>

definition tls_server_main ::
  "('cert, 'pool, 'cred) tls_lib \<Rightarrow> (string \<Rightarrow> string) \<Rightarrow> (unit, Shorturl, 'w) mysql_lib \<Rightarrow> string \<Rightarrow> unit result \<Rightarrow>
   (('c, 'w) TransformerServer \<times> 'cred) result" where
  "tls_server_main X md5hex L table newServer =
     (let ctx = tls_rpc_NewServiceContext L table;
          transformerSrv = tls_NewTransformerServer md5hex ctx
      in case newServer of
           Inl err \<Rightarrow> Inl err
         | Inr _ \<Rightarrow>
             (case server_loadTLSCredentials X of
                Inl err \<Rightarrow> Inl err
              | Inr tlsCfg \<Rightarrow> Inr (transformerSrv, tlsCfg)))"

section \<open>The statements as the database sees them\<close>

definition tls_spec :: "string \<Rightarrow> Shorturl table_spec" where
  "tls_spec t = \<lparr>
     stmt_insert = ''insert into '' @ t @ '' (`shorten`,`url`) values (?, ?)'',
     stmt_select = ''select `shorten`,`url` from '' @ t @ '' where shorten = ? limit 1'',
     stmt_update = ''update '' @ t @ '' set `url`=? where shorten = ?'',
     stmt_delete = ''delete from '' @ t @ '' where shorten = ?'',
     row_key = Shorten, row_val = (\<lambda>d. SqlStr (Url d)), row_put = (\<lambda>r d. r\<lparr>Url := Url d\<rparr>),
     row_cut = (\<lambda>d. \<lparr>Shorten = cut_to 255 (Shorten d), Url = cut_to 255 (Url d)\<rparr>),
     row_fits = (\<lambda>d. utf8_valid (Shorten d) \<and> utf8_valid (Url d) \<and> utf8_length (Shorten d) \<le> 255 \<and> utf8_length (Url d) \<le> 255),
     row_refused = (\<lambda>d. too_long 255 (Shorten d) \<or> too_long 255 (Url d)), row_text = (\<lambda>d. utf8_valid (Shorten d) \<and> utf8_valid (Url d))\<rparr>"

lemma tls_rows_of_spec [simp]:
  "row_key (tls_spec t) = Shorten" "row_val (tls_spec t) d = SqlStr (Url d)"
  "row_fits (tls_spec t) d \<longleftrightarrow> utf8_valid (Shorten d) \<and> utf8_valid (Url d) \<and> utf8_length (Shorten d) \<le> 255 \<and> utf8_length (Url d) \<le> 255"
  "row_cut (tls_spec t) = row_cut shorturl_spec" "row_refused (tls_spec t) = row_refused shorturl_spec"
  "row_kept (tls_spec t) = row_kept shorturl_spec"
  by (simp_all add: tls_spec_def shorturl_spec_def row_kept_def fun_eq_iff)

lemma tls_columns:
  assumes "builder_ok L"
  shows "tls_shorturlRows L = ''`shorten`,`url`''" "tls_shorturlRowsExpectAutoSet L = ''`shorten`,`url`''"
    "tls_shorturlRowsWithPlaceHolder L = ''`shorten`=?,`url`=?''"
  using assms
  by (simp_all add: builder_ok_def tls_shorturlRows_def tls_shorturlRowsExpectAutoSet_def
      tls_shorturlRowsWithPlaceHolder_def tls_shorturlFieldNames_def)

abbreviation tls_model :: "(unit, Shorturl, 'w) mysql_lib \<Rightarrow> string \<Rightarrow> 'w ShorturlModel" where
  "tls_model L t \<equiv> tls_NewShorturlModel L (Mysql L) t"

lemma tls_unfold:
  assumes "builder_ok (Builder L)"
  shows "tls_Insert (tls_model L t) d w =
      CExecNoCache (NewConn L (Mysql L)) () (stmt_insert (tls_spec t))
        [SqlStr (row_key (tls_spec t) d), row_val (tls_spec t) d] w"
    "tls_Update (tls_model L t) d w =
      discard (CExec (NewConn L (Mysql L)) ()
        (\<lambda>c conn. SqlExec conn c (''update '' @ t @ '' set `shorten`=?,`url`=? where shorten = ?'')
            [row_val (tls_spec t) d, SqlStr (row_key (tls_spec t) d)])
        [tls_cacheShorturlShortenPrefix @ Shorten d] w)"
    "tls_FindOne (tls_model L t) k w =
      CQueryRow (NewConn L (Mysql L)) () (tls_cacheShorturlShortenPrefix @ k)
        (\<lambda>c conn. SqlQueryRow conn c (stmt_select (tls_spec t)) [SqlStr k]) w"
    "tls_Delete (tls_model L t) k w =
      (case tls_FindOne (tls_model L t) k w of
         (w, Inl err) \<Rightarrow> (w, Inl err)
       | (w, Inr _) \<Rightarrow> discard (CExec (NewConn L (Mysql L)) ()
           (\<lambda>c conn. SqlExec conn c (stmt_delete (tls_spec t)) [SqlStr k]) [tls_cacheShorturlShortenPrefix @ k] w))"
  by (simp_all add: tls_Insert_def tls_Update_def tls_Delete_def tls_FindOne_def tls_NewShorturlModel_def
      tls_columns [OF assms] tls_spec_def Let_def split: prod.splits sum.splits)

section \<open>The model as a keyed table\<close>

type_synonym 'w tls_env = "(unit, Shorturl, 'w) mysql_lib \<times> (Shorturl, 'w) store_view \<times> string \<times> string set"

definition tm_good :: "'w tls_env \<Rightarrow> bool" where
  "tm_good = (\<lambda>(L, V, t, K). mysql_ok L V (tls_spec t) \<and> spelled V K)"

definition tm_keys :: "'w tls_env \<Rightarrow> string set" where
  "tm_keys = (\<lambda>(L, V, t, K). K)"

definition tm_rows :: "'w tls_env \<Rightarrow> 'w \<Rightarrow> string \<rightharpoonup> Shorturl" where
  "tm_rows = (\<lambda>(L, V, t, K) w. table_of V w |` K)"

definition tm_coherent :: "'w tls_env \<Rightarrow> 'w \<Rightarrow> bool" where
  "tm_coherent = (\<lambda>(L, V, t, K). cache_coherent V tls_cacheShorturlShortenPrefix K)"

definition tm_fresh :: "'w tls_env \<Rightarrow> string \<Rightarrow> 'w \<Rightarrow> bool" where
  "tm_fresh = (\<lambda>(L, V, t, K) k w. cache_of V w (tls_cacheShorturlShortenPrefix @ k) = None)"

lemmas tm_defs = tm_good_def tm_keys_def tm_rows_def tm_coherent_def tm_fresh_def

lemma tm_goodD:
  assumes "tm_good (L, V, t, K)"
  shows "builder_ok (Builder L)" "cached_conn_ok V (Mysql L) (NewConn L (Mysql L))" "sql_table_ok V (Mysql L) (tls_spec t)"
    "spelled V K"
  using assms by (simp_all add: tm_good_def mysql_ok_def)

interpretation tm: kv_store tm_good tm_keys tm_rows tm_coherent tm_fresh Shorten "row_cut shorturl_spec" "row_kept shorturl_spec" "row_refused shorturl_spec"
  "\<lambda>(L, V, t, K). tls_Insert (tls_model L t)" "\<lambda>(L, V, t, K). tls_FindOne (tls_model L t)"
proof (unfold_locales, goal_cases)
  case (1 e w k)
  obtain L V t K where e: "e = (L, V, t, K)" by (cases e)
  note g = tm_goodD [OF 1(1) [unfolded e]]
  show ?case
    using cached_select [OF g(2,3), of tls_cacheShorturlShortenPrefix K w k "()"] 1 spelled_text [OF g(4)]
    by (simp add: e tm_defs tls_unfold(3) [OF g(1)])
next
  case (2 e w k)
  obtain L V t K where e: "e = (L, V, t, K)" by (cases e)
  note g = tm_goodD [OF 2(1) [unfolded e]]
  show ?case
    using cached_select_state [OF g(2,3), of tls_cacheShorturlShortenPrefix K w k "()"] 2(2,3)
    by (auto simp: e tm_defs tls_unfold(3) [OF g(1)] prod_eq_iff)
next
  case (3 e k)
  then show ?case by (cases e) (auto simp: tm_defs intro: spelled_text)
next
  case (4 e w d)
  obtain L V t K where e: "e = (L, V, t, K)" by (cases e)
  note g = tm_goodD [OF 4(1) [unfolded e]]
  show ?case
    using nocache_insert_new [OF g(2,3), of tls_cacheShorturlShortenPrefix K w d "()"] 4 row_set_spelled [OF g(4)]
    by (auto simp: e tm_defs tls_unfold(1) [OF g(1)])
next
  case (5 e w d)
  obtain L V t K where e: "e = (L, V, t, K)" by (cases e)
  note g = tm_goodD [OF 5(1) [unfolded e]]
  show ?case
    using nocache_insert_dup [OF g(2,3), of w d "()"] 5
    by (auto simp: row_kept_def e tm_defs tls_unfold(1) [OF g(1)])
qed

lemma tls_hidden:
  assumes "mysql_ok L V (tls_spec t)" "table_of V w (Shorten d) = None" "row_fits (tls_spec t) d"
    and "cache_of V w (tls_cacheShorturlShortenPrefix @ Shorten d) = None"
  shows "\<exists>w1 w2 n. tls_FindOne (tls_model L t) (Shorten d) w = (w1, Inl ErrNotFound) \<and>
    tls_Insert (tls_model L t) d w1 = (w2, Inr n) \<and>
    table_of V w2 (Shorten d) = Some d \<and>
    tls_FindOne (tls_model L t) (Shorten d) w2 = (w2, Inl ErrNotFound)"
proof -
  note C = mysql_okD(2) [OF assms(1)] and T = mysql_okD(3) [OF assms(1)]
  let ?k = "tls_cacheShorturlShortenPrefix @ Shorten d"
  let ?w1 = "set_cache V ?k None w"
  have 1: "tls_FindOne (tls_model L t) (Shorten d) w = (?w1, Inl ErrNotFound)"
    using cached_miss [OF C T assms(4,2)] row_fitsD(4) [OF T assms(3)] by (simp add: tls_unfold(3) [OF mysql_okD(1) [OF assms(1)]])
  have "table_of V ?w1 (row_key (tls_spec t) d) = None" "cache_of V ?w1 ?k = Some None"
    using assms(2) by (simp_all add: set_cache_view [OF C])
  from nocache_insert_stale [OF C T this(1) assms(3) this(2), of "()"] 1 show ?thesis
    by (auto simp: tls_unfold(1,3) [OF mysql_okD(1) [OF assms(1)]])
qed

section \<open>Properties\<close>

lemma tls_handlers_eq: "tls_expandHandler = ExpandHandler" "tls_shortenHandler = ShortenHandler"
  unfolding fun_eq_iff tls_expandHandler_def ExpandHandler_def tls_shortenHandler_def ShortenHandler_def
    tls_api_NewExpandLogic_def api_NewExpandLogic_def tls_api_NewShortenLogic_def api_NewShortenLogic_def
    tls_api_Expand_def api_Expand_def tls_api_Shorten_def api_Shorten_def by (rule allI refl)+

lemma tls_routes_eq: "tls_routes H s = shorturl_routes H s"
  by (simp add: tls_routes_def shorturl_routes_def tls_handlers_eq)

lemma tls_context_eq:
  "client_loadTLSCredentials X = Inr cred \<Longrightarrow> dial cred = Inr I \<Longrightarrow>
   tls_api_NewServiceContext X J dial = Inr (api_NewServiceContext J I)"
  by (simp add: tls_api_NewServiceContext_def tls_NewTransformer_def NewTransformer_def api_NewServiceContext_def
      tls_defaultTransformer_Expand_def tls_defaultTransformer_Shorten_def Let_def)

lemma tls_desc_eq: "tls_Transformer_serviceDesc = Transformer_serviceDesc"
  by (simp add: tls_Transformer_serviceDesc_def Transformer_serviceDesc_def)

text \<open>Both processes have started and the client's connection reaches the server.\<close>

definition tls_up ::
  "('cert, 'pool, 'cred) tls_lib \<Rightarrow> json_lib \<Rightarrow> (string \<Rightarrow> string) \<Rightarrow> (unit, Shorturl, 'w) mysql_lib \<Rightarrow> (Shorturl, 'w) store_view \<Rightarrow>
   string \<Rightarrow> ('cred \<Rightarrow> ('c, transform_msg, 'w) grpc_conn result) \<Rightarrow> ('c, transform_msg, 'w) interceptor option \<Rightarrow> ('c \<Rightarrow> 'c) \<Rightarrow> bool" where
  "tls_up X J md5hex L V t dial ic sc \<longleftrightarrow> json_ok J \<and> md5_ok md5hex \<and> mysql_ok L V (tls_spec t) \<and> spelled V short_codes \<and>
     (\<exists>cred I srv sc'. client_loadTLSCredentials X = Inr cred \<and> dial cred = Inr I \<and>
        tls_server_main X md5hex L t (Inr ()) = Inr (srv, sc') \<and>
        grpc_ok I tls_Transformer_serviceDesc srv ic transform_type_name transform_msg_wf sc)"

lemma tls_upD:
  assumes "tls_up X J md5hex L V t dial ic sc"
  obtains I where "json_ok J" "md5_ok md5hex" "mysql_ok L V (tls_spec t)" "spelled V short_codes"
    "tls_api_NewServiceContext X J dial = Inr (api_NewServiceContext J I)"
    "tr_linked (I, tls_NewTransformerServer md5hex (tls_model L t), ic, sc)"
  using assms
  by (auto simp: tls_up_def tls_context_eq tr_linked_def tls_desc_eq tls_server_main_def tls_rpc_NewServiceContext_def
      split: sum.splits)

lemma tls_srv_Shorten:
  assumes "md5_ok md5hex" "tls_Insert m \<lparr>Shorten = take 6 (md5hex u), Url = u\<rparr> w = (w', r)"
  shows "srv_Shorten (tls_NewTransformerServer md5hex m) c \<lparr>ShortenReq_Url = u\<rparr> w =
    (w', map_sum id (\<lambda>_. \<lparr>ShortenResp_Shorten = take 6 (md5hex u)\<rparr>) r)"
  using assms(2) md5_key(1) [OF assms(1), of u]
  by (cases r) (simp_all add: tls_NewTransformerServer_def tls_rpc_Shorten_def tls_NewShortenLogic_def Let_def)

lemma tls_srv_Expand:
  assumes "tls_FindOne m k w = (w', r)"
  shows "srv_Expand (tls_NewTransformerServer md5hex m) c \<lparr>ExpandReq_Shorten = k\<rparr> w =
    (w', map_sum id (\<lambda>d. \<lparr>ExpandResp_Url = Url d\<rparr>) r)"
  using assms by (cases r) (simp_all add: tls_NewTransformerServer_def tls_rpc_Expand_def tls_NewExpandLogic_def)

text \<open>The HTTP answers in terms of the model's results.\<close>

lemma tls_shorten_http:
  assumes up: "json_ok J" "md5_ok md5hex" "tr_linked (I, tls_NewTransformerServer md5hex m, ic, sc)"
    and "Parse H q [(FormField, ''url'', JStr [])] = Inr [JStr u]" "utf8_valid u"
    and "tls_Insert m \<lparr>Shorten = take 6 (md5hex u), Url = u\<rparr> w = (w', Inr n)"
  shows "serve (tls_routes H (api_NewServiceContext J I)) (''GET'', ''/shorten'', q) w =
    (w', [HttpJson 200 [(''shorten'', False, JStr (take 6 (md5hex u)))]])"
  using shorten_http [OF up(3,1) assms(5) tls_srv_Shorten [OF up(2) assms(6)] _ assms(4)] md5_key(2) [OF up(2), of u]
  by (simp add: tls_routes_eq)

lemma tls_expand_http:
  assumes up: "json_ok J" "tr_linked (I, tls_NewTransformerServer md5hex m, ic, sc)"
    and "Parse H q [(FormField, ''shorten'', JStr [])] = Inr [JStr k]" "utf8_valid k"
    and "tls_FindOne m k w = (w', r)" "\<And>d. r = Inr d \<Longrightarrow> utf8_valid (Url d)"
  shows "serve (tls_routes H (api_NewServiceContext J I)) (''GET'', ''/expand'', q) w =
    (w', case r of Inl e \<Rightarrow> [HttpError (status_of e)] | Inr d \<Rightarrow> [HttpJson 200 [(''url'', False, JStr (Url d))]])"
  using expand_http [OF up(2,1) assms(4) tls_srv_Expand [OF assms(5)] _ assms(3)] assms(6)
  by (cases r) (auto simp: tls_routes_eq)

definition ref_tls_lib :: "(unit, Shorturl, Shorturl ref_world) mysql_lib" where
  "ref_tls_lib = \<lparr>Builder = ref_builder,
     Mysql = ref_sql (tls_spec ''shorturl'') (\<lambda>k v. case v of SqlStr u \<Rightarrow> \<lparr>Shorten = k, Url = u\<rparr> | _ \<Rightarrow> \<lparr>Shorten = k, Url = []\<rparr>),
     NewConn = ref_cached\<rparr>"

lemma ref_tls_ok: "mysql_ok ref_tls_lib ref_view (tls_spec ''shorturl'')"
  unfolding mysql_ok_def ref_tls_lib_def
  by (simp add: ref_builder_ok ref_cached_ok)
    (rule ref_sql_ok; auto simp: tls_spec_def placeholders_def dest: too_long_length)

text \<open>Credentials for the witnesses: the server shows certificate \<open>7\<close>, the client trusts pool \<open>7\<close>.\<close>

definition ref_tls :: "(nat, nat, nat) tls_lib" where
  "ref_tls = \<lparr>LoadX509KeyPair = (\<lambda>_ _. Inr 7), ReadFile = (\<lambda>_. Inr ''pem''), AppendCertsFromPEM = (\<lambda>_. Some 7),
     NewTLS = (\<lambda>c. case c of ServerConfig cs a \<Rightarrow> hd cs | ClientConfig p \<Rightarrow> p)\<rparr>"

definition ref_tls_conn :: "(unit, transform_msg, Shorturl ref_world) grpc_conn" where
  "ref_tls_conn = local_conn tls_Transformer_serviceDesc
     (tls_NewTransformerServer ref_md5 (tls_model ref_tls_lib ''shorturl'')) None transform_type_name"

definition ref_dial :: "nat \<Rightarrow> (unit, transform_msg, Shorturl ref_world) grpc_conn result" where
  "ref_dial cred = Inr ref_tls_conn"

lemma ref_tls_up: "tls_up ref_tls ref_json ref_md5 ref_tls_lib ref_view ''shorturl'' ref_dial None id"
  by (simp add: tls_up_def ref_json_ok ref_md5_ok ref_tls_ok ref_spelled ref_tls_def ref_tls_conn_def client_loadTLSCredentials_def
      tls_server_main_def server_loadTLSCredentials_def tls_rpc_NewServiceContext_def ref_dial_def
      local_conn_ok transparent_def)

lemma ref_tls_context:
  "tls_api_NewServiceContext ref_tls ref_json ref_dial = Inr (api_NewServiceContext ref_json ref_tls_conn)"
  by (rule tls_context_eq [of _ 7]) (simp_all add: client_loadTLSCredentials_def ref_tls_def ref_dial_def)

text \<open>
  C19. The TLS service end to end, once both sides have their credentials: with nothing cached for its
  code, a new URL is shortened to the first six digits of its hash and the code expands to the URL.
\<close>

theorem tls_shorten_then_expand:
  assumes "tls_up X J md5hex L V t dial ic sc" "cache_coherent V tls_cacheShorturlShortenPrefix short_codes w"
    and "Parse H q1 [(FormField, ''url'', JStr [])] = Inr [JStr u]" "utf8_valid u" "utf8_length u \<le> 255"
    and "Parse H q2 [(FormField, ''shorten'', JStr [])] = Inr [JStr (take 6 (md5hex u))]"
    and "table_of V w (take 6 (md5hex u)) = None"
    and "cache_of V w (tls_cacheShorturlShortenPrefix @ take 6 (md5hex u)) = None"
  shows "\<exists>svcCtx w1. tls_api_NewServiceContext X J dial = Inr svcCtx \<and>
    serve (tls_routes H svcCtx) (''GET'', ''/shorten'', q1) w =
      (w1, [HttpJson 200 [(''shorten'', False, JStr (take 6 (md5hex u)))]]) \<and>
    snd (serve (tls_routes H svcCtx) (''GET'', ''/expand'', q2) w1) = [HttpJson 200 [(''url'', False, JStr u)]]"
proof -
  let ?d = "\<lparr>Shorten = take 6 (md5hex u), Url = u\<rparr>"
  obtain I where up: "json_ok J" "md5_ok md5hex" "mysql_ok L V (tls_spec t)" "spelled V short_codes"
    "tls_api_NewServiceContext X J dial = Inr (api_NewServiceContext J I)"
    "tr_linked (I, tls_NewTransformerServer md5hex (tls_model L t), ic, sc)"
    using tls_upD [OF assms(1)] .
  have "tm_good (L, V, t, short_codes)" "tm_coherent (L, V, t, short_codes) w" "Shorten ?d \<in> tm_keys (L, V, t, short_codes)"
    "tm_fresh (L, V, t, short_codes) (Shorten ?d) w" "tm_rows (L, V, t, short_codes) w (Shorten ?d) = None"
    using up(3,4) assms(2,7,8) code_short [OF up(2), of u] by (simp_all add: tm_defs restrict_map_def)
  moreover have "row_cut shorturl_spec ?d = ?d" "row_kept shorturl_spec ?d" "\<not> row_refused shorturl_spec ?d"
    using assms(4,5) too_long_length [of 255 u] md5_key [OF up(2)] by (auto simp: shorturl_cut shorturl_kept shorturl_refused)
  ultimately have "is_ok (snd (tls_Insert (tls_model L t) ?d w)) \<and>
      snd (tls_FindOne (tls_model L t) (Shorten ?d) (fst (tls_Insert (tls_model L t) ?d w))) = Inr ?d"
    using tm.insert_then_find [of "(L, V, t, short_codes)" w ?d] by simp
  then obtain w1 w2 n where m: "tls_Insert (tls_model L t) ?d w = (w1, Inr n)"
    "tls_FindOne (tls_model L t) (take 6 (md5hex u)) w1 = (w2, Inr ?d)"
    by (auto simp: prod_eq_iff)
  have "utf8_valid (take 6 (md5hex u))" by (rule md5_key [OF up(2)])
  from tls_shorten_http [OF up(1,2,6) assms(3,4) m(1)] tls_expand_http [OF up(1,6) assms(6) this m(2)] assms(4) up(5)
  show ?thesis by simp
qed

theorem tls_shorten_then_expand_witness:
  "\<exists>svcCtx w1. tls_api_NewServiceContext ref_tls ref_json ref_dial = Inr svcCtx \<and>
    serve (tls_routes ref_http svcCtx) (''GET'', ''/shorten'', ''http://a'') (Map.empty, Map.empty) =
      (w1, [HttpJson 200 [(''shorten'', False, JStr ''aaaaaa'')]]) \<and>
    snd (serve (tls_routes ref_http svcCtx) (''GET'', ''/expand'', ''aaaaaa'') w1) = [HttpJson 200 [(''url'', False, JStr ''http://a'')]]"
proof -
  have k: "take 6 (ref_md5 s) = ''aaaaaa''" for s by (simp add: ref_md5_def numeral_eq_Suc)
  show ?thesis
    using tls_shorten_then_expand [OF ref_tls_up, of "(Map.empty, Map.empty)" ref_http "''http://a''" "''http://a''" "''aaaaaa''"]
    by (simp add: ref_coherent_empty k ref_http_def utf8_range_def utf8_length_def utf8_cont_def)
qed

text \<open>
  C34. In the TLS service an early lookup hides a link: if the code is expanded before the URL is
  shortened, \<^verbatim>\<open>GET /shorten\<close> answers the code as usual, but \<^verbatim>\<open>GET /expand\<close> goes on answering not found as long as the
  cached absence lives.
\<close>

theorem tls_early_expand_hides_link:
  assumes "tls_up X J md5hex L V t dial ic sc"
    and "Parse H q1 [(FormField, ''url'', JStr [])] = Inr [JStr u]" "utf8_valid u" "utf8_length u \<le> 255"
    and "Parse H q2 [(FormField, ''shorten'', JStr [])] = Inr [JStr (take 6 (md5hex u))]"
    and "table_of V w (take 6 (md5hex u)) = None"
    and "cache_of V w (tls_cacheShorturlShortenPrefix @ take 6 (md5hex u)) = None"
  shows "\<exists>svcCtx w1 w2 w3. tls_api_NewServiceContext X J dial = Inr svcCtx \<and>
    serve (tls_routes H svcCtx) (''GET'', ''/expand'', q2) w = (w1, [HttpError (Status 2 ''sql: no rows in result set'')]) \<and>
    serve (tls_routes H svcCtx) (''GET'', ''/shorten'', q1) w1 =
      (w2, [HttpJson 200 [(''shorten'', False, JStr (take 6 (md5hex u)))]]) \<and>
    table_of V w2 (take 6 (md5hex u)) = Some \<lparr>Shorten = take 6 (md5hex u), Url = u\<rparr> \<and>
    serve (tls_routes H svcCtx) (''GET'', ''/expand'', q2) w2 = (w3, [HttpError (Status 2 ''sql: no rows in result set'')])"
proof -
  let ?d = "\<lparr>Shorten = take 6 (md5hex u), Url = u\<rparr>"
  obtain I where up: "json_ok J" "md5_ok md5hex" "mysql_ok L V (tls_spec t)" "spelled V short_codes"
    "tls_api_NewServiceContext X J dial = Inr (api_NewServiceContext J I)"
    "tr_linked (I, tls_NewTransformerServer md5hex (tls_model L t), ic, sc)"
    using tls_upD [OF assms(1)] .
  have "table_of V w (Shorten ?d) = None" "row_fits (tls_spec t) ?d"
    "cache_of V w (tls_cacheShorturlShortenPrefix @ Shorten ?d) = None"
    using assms(3,4,6,7) key_fits md5_key [OF up(2)] by simp_all
  from tls_hidden [OF up(3) this]
  obtain w1 w2 n where m: "tls_FindOne (tls_model L t) (take 6 (md5hex u)) w = (w1, Inl ErrNotFound)"
    "tls_Insert (tls_model L t) ?d w1 = (w2, Inr n)" "table_of V w2 (take 6 (md5hex u)) = Some ?d"
    "tls_FindOne (tls_model L t) (take 6 (md5hex u)) w2 = (w2, Inl ErrNotFound)" by auto
  have k: "utf8_valid (take 6 (md5hex u))" by (rule md5_key [OF up(2)])
  show ?thesis
    using tls_expand_http [OF up(1,6) assms(5) k m(1)] tls_shorten_http [OF up(1,2,6) assms(2,3) m(2)]
      tls_expand_http [OF up(1,6) assms(5) k m(4)] m(3) up(5)
    by (simp add: ErrNotFound_def)
qed

theorem tls_early_expand_hides_link_witness:
  "\<exists>svcCtx w1 w2 w3. tls_api_NewServiceContext ref_tls ref_json ref_dial = Inr svcCtx \<and>
    serve (tls_routes ref_http svcCtx) (''GET'', ''/expand'', ''aaaaaa'') (Map.empty, Map.empty) = (w1, [HttpError (Status 2 ''sql: no rows in result set'')]) \<and>
    serve (tls_routes ref_http svcCtx) (''GET'', ''/shorten'', ''http://a'') w1 = (w2, [HttpJson 200 [(''shorten'', False, JStr ''aaaaaa'')]]) \<and>
    fst w2 ''aaaaaa'' = Some \<lparr>Shorten = ''aaaaaa'', Url = ''http://a''\<rparr> \<and>
    serve (tls_routes ref_http svcCtx) (''GET'', ''/expand'', ''aaaaaa'') w2 = (w3, [HttpError (Status 2 ''sql: no rows in result set'')])"
proof -
  have k: "take 6 (ref_md5 s) = ''aaaaaa''" for s by (simp add: ref_md5_def numeral_eq_Suc)
  show ?thesis
    using tls_early_expand_hides_link [OF ref_tls_up, of ref_http "''http://a''" "''http://a''" "''aaaaaa''" "(Map.empty, Map.empty)"]
    by (simp add: k ref_http_def utf8_range_def utf8_length_def utf8_cont_def lower_def lower_char_def)
qed

text \<open>
  What the TLS service's model cannot do: \<^verbatim>\<open>Update\<close> always fails without effect (three placeholders,
  two arguments), and a row whose absence was cached before it was inserted cannot be deleted,
  because \<^verbatim>\<open>Delete\<close> looks the row up through the cache first.
\<close>

theorem tls_update_delete_fail:
  assumes "mysql_ok L V (tls_spec t)"
  shows "(\<exists>err. tls_Update (tls_NewShorturlModel L (Mysql L) t) d w = (w, Inl err)) \<and>
    (table_of V w (Shorten d) = None \<and> row_fits (tls_spec t) d \<and>
     cache_of V w (tls_cacheShorturlShortenPrefix @ Shorten d) = None \<longrightarrow>
     (\<exists>w1 w2 n. tls_FindOne (tls_NewShorturlModel L (Mysql L) t) (Shorten d) w = (w1, Inl ErrNotFound) \<and>
        tls_Insert (tls_NewShorturlModel L (Mysql L) t) d w1 = (w2, Inr n) \<and> table_of V w2 (Shorten d) = Some d \<and>
        tls_Delete (tls_NewShorturlModel L (Mysql L) t) (Shorten d) w2 = (w2, Inl ErrNotFound)))"
proof (intro conjI impI, goal_cases)
  case 1
  let ?q = "''update '' @ t @ '' set `shorten`=?,`url`=? where shorten = ?''"
  have "placeholders ?q \<noteq> length [row_val (tls_spec t) d, SqlStr (row_key (tls_spec t) d)]"
    by (simp add: placeholders_def)
  from placeholder_mismatch [OF mysql_okD(3) [OF assms] this]
  obtain e where "SqlExec (Mysql L) () ?q [row_val (tls_spec t) d, SqlStr (row_key (tls_spec t) d)] w = (w, Inl e)" .
  then show ?case
    by (simp add: tls_unfold(2) [OF mysql_okD(1) [OF assms]] cexec_err [OF mysql_okD(2) [OF assms]])
next
  case 2
  then show ?case using tls_hidden [OF assms, of w d]
    by (auto simp: tls_unfold(4) [OF mysql_okD(1) [OF assms]])
qed

theorem tls_update_delete_fail_witness:
  "(\<exists>err. tls_Update (tls_NewShorturlModel ref_tls_lib (Mysql ref_tls_lib) ''shorturl'') \<lparr>Shorten = ''k'', Url = ''u''\<rparr> (Map.empty, Map.empty) =
      ((Map.empty, Map.empty), Inl err)) \<and>
    (\<exists>w1 w2 n. tls_FindOne (tls_NewShorturlModel ref_tls_lib (Mysql ref_tls_lib) ''shorturl'') ''k'' (Map.empty, Map.empty) = (w1, Inl ErrNotFound) \<and>
       tls_Insert (tls_NewShorturlModel ref_tls_lib (Mysql ref_tls_lib) ''shorturl'') \<lparr>Shorten = ''k'', Url = ''u''\<rparr> w1 = (w2, Inr n) \<and>
       fst w2 ''k'' = Some \<lparr>Shorten = ''k'', Url = ''u''\<rparr> \<and>
       tls_Delete (tls_NewShorturlModel ref_tls_lib (Mysql ref_tls_lib) ''shorturl'') ''k'' w2 = (w2, Inl ErrNotFound))"
  using tls_update_delete_fail [OF ref_tls_ok, of "\<lparr>Shorten = ''k'', Url = ''u''\<rparr>" "(Map.empty, Map.empty)"]
  by (simp add: utf8_length_def utf8_cont_def utf8_range_def lower_def lower_char_def)

end
