(* ===== verification/File_Server.thy ===== *)
theory File_Server
  imports Service_Lib
begin

text \<open>
  The file services: upload (\<^verbatim>\<open>http/upload\<close>), download (\<^verbatim>\<open>http/download\<close>), and both in one server
  (\<^verbatim>\<open>monolithic\<close>). The state is the file system; what the services print or log is in front of it.

  The locale \<open>upload_logic\<close> is the interface of an upload: which file a successful one writes, and that a
  failed one writes none. Both upload services interpret it.
\<close>

section \<open>Paths and files\<close>

text \<open>Go's \<^verbatim>\<open>path.Clean\<close>, component by component, and \<^verbatim>\<open>path.Join\<close>.\<close>

fun clean_comp :: "bool \<Rightarrow> string \<Rightarrow> string list \<Rightarrow> string list" where
  "clean_comp rooted c acc =
     (if c = [] \<or> c = ''.'' then acc
      else if c = ''..'' then
        (case acc of
           [] \<Rightarrow> if rooted then [] else [''..'']
         | x # xs \<Rightarrow> if x = ''..'' then ''..'' # acc else xs)
      else c # acc)"

definition rooted :: "string \<Rightarrow> bool" where
  "rooted p \<longleftrightarrow> prefix ''/'' p"

definition clean_comps :: "string \<Rightarrow> string list" where
  "clean_comps p = fold (clean_comp (rooted p)) (split_on (CHR ''/'') p) []"

definition path_Clean :: "string \<Rightarrow> string" where
  "path_Clean p =
     (let body = join ''/'' (rev (clean_comps p))
      in if rooted p then CHR ''/'' # body else if body = [] then ''.'' else body)"

definition path_Join :: "string list \<Rightarrow> string" where
  "path_Join es = (let es = filter (\<lambda>e. e \<noteq> []) es in if es = [] then [] else path_Clean (join ''/'' es))"

text \<open>\<^verbatim>\<open>filepath.Base\<close>, which \<^verbatim>\<open>mime/multipart\<close> applies to the file name of a part.\<close>

definition filepath_Base :: "string \<Rightarrow> string" where
  "filepath_Base p =
     (if p = [] then ''.''
      else let s = rev (dropWhile (\<lambda>c. c = CHR ''/'') (rev p))
        in if s = [] then ''/'' else rev (takeWhile (\<lambda>c. c \<noteq> CHR ''/'') (rev s)))"

text \<open>
  The file system: the working directory of the process, an absolute path; the content of files by absolute cleaned path (there are no symbolic links), which paths are
  directories, where the process may create files, and how many bytes still fit. A relative path is looked up from the working directory.
\<close>

record fs =
  fs_cwd :: string
  fs_files :: "string \<rightharpoonup> string"
  fs_isDir :: "string \<Rightarrow> bool"
  fs_creatable :: "string \<Rightarrow> bool"
  fs_space :: nat

definition fs_resolve :: "fs \<Rightarrow> string \<Rightarrow> string" where
  "fs_resolve f p = path_Clean (if rooted p then p else fs_cwd f @ ''/'' @ p)"

text \<open>The bytes that fit into a file once its old content is gone.\<close>

definition fs_room :: "fs \<Rightarrow> string \<Rightarrow> nat" where
  "fs_room f q = fs_space f + (case fs_files f q of None \<Rightarrow> 0 | Some b \<Rightarrow> length b)"

definition os_Create :: "string \<Rightarrow> fs \<Rightarrow> fs \<times> string result" where
  "os_Create p f =
     (let q = fs_resolve f p
      in if p = [] then (f, Inl (Errorf ''open : no such file or directory''))
         else if fs_isDir f q then (f, Inl (Errorf (''open '' @ p @ '': is a directory'')))
         else if \<not> fs_creatable f q then (f, Inl (Errorf (''open '' @ p @ '': permission denied'')))
         else (f\<lparr>fs_files := (fs_files f)(q \<mapsto> []), fs_space := fs_room f q\<rparr>, Inr q))"

text \<open>\<^verbatim>\<open>io.Copy\<close> to a fresh file whose result is ignored: as much of the body as fits.\<close>

definition io_Copy :: "string \<Rightarrow> string \<Rightarrow> fs \<Rightarrow> fs" where
  "io_Copy q body f =
     (let written = take (fs_space f) body
      in f\<lparr>fs_files := (fs_files f)(q \<mapsto> written), fs_space := fs_space f - length written\<rparr>)"

definition ReadFile :: "string \<Rightarrow> fs \<Rightarrow> string result" where
  "ReadFile p f =
     (if p \<noteq> [] \<and> fs_isDir f (fs_resolve f p) then Inl (Errorf (''read '' @ p @ '': is a directory''))
      else if p = [] then Inl (Errorf ''open : no such file or directory'')
      else case fs_files f (fs_resolve f p) of
             None \<Rightarrow> Inl (Errorf (''open '' @ p @ '': no such file or directory''))
           | Some b \<Rightarrow> Inr b)"

text \<open>
  A request: the part of the form called \<^verbatim>\<open>myFile\<close>, if there is one (raw file name, content, printed
  MIME header), and how the connection takes a body: bytes written and the error, if any.
\<close>

record 'q file_request =
  rq_myFile :: "(string \<times> string \<times> string) option"
  rq_conn :: "string \<Rightarrow> nat \<times> go_error option"
  rq_http :: 'q

definition ErrMissingFile :: go_error where
  "ErrMissingFile = Sentinel ''http.ErrMissingFile''"

text \<open>\<^verbatim>\<open>r.FormFile("myFile")\<close>: content, file name, size and header. A part without a file name is no file.\<close>

definition FormFile :: "'q file_request \<Rightarrow> (string \<times> string \<times> nat \<times> string) result" where
  "FormFile r =
     (case rq_myFile r of
        None \<Rightarrow> Inl ErrMissingFile
      | Some (name, body, mime) \<Rightarrow>
          if name = [] then Inl ErrMissingFile else Inr (body, filepath_Base name, length body, mime))"

section \<open>http/upload\<close>

definition upload_Upload :: "string \<Rightarrow> 'q file_request \<Rightarrow> fs logged \<Rightarrow> fs logged \<times> int result" where
  "upload_Upload configPath r w =
     (case FormFile r of
        Inl err \<Rightarrow> (log_line LInfo (err_text err) w, Inl err)
      | Inr (body, filename, fileSize, header) \<Rightarrow>
          let w = log_line LInfo (''Uploaded File: '' @ filename) w;
              w = log_line LInfo (''File Size: '' @ nat_digits fileSize) w;
              w = log_line LInfo (''MIME Header: '' @ header) w
          in case os_Create (path_Join [configPath, filename]) (snd w) of
               (f, Inl err) \<Rightarrow> (log_line LInfo (err_text err) (fst w, f), Inl err)
             | (f, Inr tempFile) \<Rightarrow> ((fst w, io_Copy tempFile body f), Inr 0))"

definition upload_UploadHandler :: "string \<Rightarrow> 'q file_request \<Rightarrow> fs logged \<Rightarrow> fs logged \<times> http_write list" where
  "upload_UploadHandler configPath r w =
     (case upload_Upload configPath r w of
        (w, Inl err) \<Rightarrow> (w, [HttpError err])
      | (w, Inr code) \<Rightarrow> (w, [HttpJson 200 [(''ok'', False, JInt (word_of_int code))]]))"

definition upload_routes :: "string \<Rightarrow> ('q file_request, 'c, fs logged) Route list" where
  "upload_routes configPath = [\<lparr>Method = ''POST'', Path = ''/upload'', Handler = upload_UploadHandler configPath\<rparr>]"

section \<open>http/download\<close>

text \<open>The handler ignores what \<^verbatim>\<open>w.Write\<close> returns.\<close>

definition download_DownloadHandler :: "('q, 'c) http_lib \<Rightarrow> 'q file_request \<Rightarrow> fs logged \<Rightarrow> fs logged \<times> http_write list" where
  "download_DownloadHandler H r w =
     (case Parse H (rq_http r) [(PathField, ''file'', JStr [])] of
        Inl err \<Rightarrow> (w, [HttpError err])
      | Inr vs \<Rightarrow>
          (case ReadFile (field_str 0 vs) (snd w) of
             Inl err \<Rightarrow> (w, [HttpError err])
           | Inr body \<Rightarrow> (w, [HttpText (take (fst (rq_conn r body)) body)])))"

definition download_routes :: "('q, 'c) http_lib \<Rightarrow> ('q file_request, 'c, fs logged) Route list" where
  "download_routes H = [\<lparr>Method = ''GET'', Path = ''/static/:file'', Handler = download_DownloadHandler H\<rparr>]"

section \<open>monolithic\<close>

definition mono_Upload :: "string \<Rightarrow> 'q file_request \<Rightarrow> fs logged \<Rightarrow> fs logged \<times> int result" where
  "mono_Upload configPath r w =
     (case FormFile r of
        Inl err \<Rightarrow> (w, Inl err)
      | Inr (body, filename, fileSize, header) \<Rightarrow>
          let w = log_line LInfo (''upload file: '' @ filename @ '', file size: '' @ nat_digits fileSize @
                '', MIME header: '' @ header) w
          in case os_Create (path_Join [configPath, filename]) (snd w) of
               (f, Inl err) \<Rightarrow> ((fst w, f), Inl err)
             | (f, Inr tempFile) \<Rightarrow> ((fst w, io_Copy tempFile body f), Inr 0))"

definition mono_UploadHandler :: "string \<Rightarrow> 'q file_request \<Rightarrow> fs logged \<Rightarrow> fs logged \<times> http_write list" where
  "mono_UploadHandler configPath r w =
     (case mono_Upload configPath r w of
        (w, Inl err) \<Rightarrow> (w, [HttpError err])
      | (w, Inr code) \<Rightarrow> (w, [HttpJson 200 [(''code'', False, JInt (word_of_int code))]]))"

definition ErrClosedPipe :: go_error where
  "ErrClosedPipe = Sentinel ''io.ErrClosedPipe''"

text \<open>\<^verbatim>\<open>Download\<close>: what it wrote to the response, and its error.\<close>

definition mono_Download ::
  "'q file_request \<Rightarrow> string \<Rightarrow> fs logged \<Rightarrow> fs logged \<times> http_write list \<times> go_error option" where
  "mono_Download r req_File w =
     (let w = log_line LInfo (''download '' @ req_File) w
      in case ReadFile req_File (snd w) of
           Inl err \<Rightarrow> (w, [], Some err)
         | Inr body \<Rightarrow>
             let (n, err) = rq_conn r body; out = [HttpText (take n body)]
             in case err of
                  Some e \<Rightarrow> (w, out, Some e)
                | None \<Rightarrow> if n < length body then (w, out, Some ErrClosedPipe) else (w, out, None))"

definition mono_DownloadHandler :: "('q, 'c) http_lib \<Rightarrow> 'q file_request \<Rightarrow> fs logged \<Rightarrow> fs logged \<times> http_write list" where
  "mono_DownloadHandler H r w =
     (case Parse H (rq_http r) [(PathField, ''file'', JStr [])] of
        Inl err \<Rightarrow> (w, [HttpError err])
      | Inr vs \<Rightarrow>
          (case mono_Download r (field_str 0 vs) w of
             (w, out, Some err) \<Rightarrow> (w, out @ [HttpError err])
           | (w, out, None) \<Rightarrow> (w, out @ [HttpStatus 200])))"

definition mono_routes :: "('q, 'c) http_lib \<Rightarrow> string \<Rightarrow> ('q file_request, 'c, fs logged) Route list" where
  "mono_routes H configPath =
     [\<lparr>Method = ''GET'', Path = ''/static/:file'', Handler = mono_DownloadHandler H\<rparr>,
      \<lparr>Method = ''POST'', Path = ''/upload'', Handler = mono_UploadHandler configPath\<rparr>]"

section \<open>Joining a directory and a name\<close>

definition proper_name :: "string \<Rightarrow> bool" where
  "proper_name n \<longleftrightarrow> CHR ''/'' \<notin> set n \<and> n \<noteq> [] \<and> n \<noteq> ''.'' \<and> n \<noteq> ''..''"

lemma split_on_snoc: "split_on c (s @ c # t) = split_on c s @ split_on c t"
  by (induction s) (auto split: list.splits)

lemma rooted_append: "d \<noteq> [] \<Longrightarrow> rooted (d @ s) = rooted d"
  by (cases d) (auto simp: rooted_def)

lemma clean_comps_append: "d \<noteq> [] \<Longrightarrow> clean_comps (d @ ''/'' @ s) = fold (clean_comp (rooted d)) (split_on (CHR ''/'') s) (clean_comps d)"
  by (simp add: clean_comps_def split_on_snoc rooted_append)

lemma join_snoc: "xs \<noteq> [] \<Longrightarrow> join s (xs @ [x]) = join s xs @ s @ x"
  by (induction s xs rule: join.induct) auto

lemma join_Cons2: "xs \<noteq> [] \<Longrightarrow> join s (x # xs) = x @ s @ join s xs"
  by (cases xs) auto

definition plain_comp :: "string \<Rightarrow> bool" where
  "plain_comp x \<longleftrightarrow> x \<noteq> [] \<and> x \<noteq> ''.'' \<and> CHR ''/'' \<notin> set x"

text \<open>Cleaned components, last one first: names, after the leading steps upwards of a relative path.\<close>

primrec normal :: "bool \<Rightarrow> string list \<Rightarrow> bool" where
  "normal b [] = True"
| "normal b (x # xs) = (plain_comp x \<and> normal b xs \<and> (x = ''..'' \<longrightarrow> \<not> b \<and> (\<forall>y \<in> set xs. y = ''..'')))"

lemma normal_plain: "normal b xs \<Longrightarrow> x \<in> set xs \<Longrightarrow> plain_comp x"
  by (induction xs) auto

lemma clean_comp_normal:
  assumes "normal b acc" "CHR ''/'' \<notin> set c"
  shows "normal b (clean_comp b c acc)"
proof (cases "c = ''..''")
  case True with assms show ?thesis by (cases acc) (auto simp: plain_comp_def)
next
  case False with assms show ?thesis by (simp add: plain_comp_def)
qed

lemma fold_normal: "normal b acc \<Longrightarrow> fold (clean_comp b) (rev acc) [] = acc"
proof (induction acc)
  case (Cons x xs)
  have "clean_comp b x xs = x # xs"
  proof (cases "x = ''..''")
    case True with Cons.prems show ?thesis by (cases xs) simp_all
  next
    case False with Cons.prems show ?thesis by (simp add: plain_comp_def)
  qed
  with Cons show ?case by (simp del: clean_comp.simps)
qed simp

lemma split_on_parts: "p \<in> set (split_on c s) \<Longrightarrow> c \<notin> set p"
  by (induction s arbitrary: p) (auto split: if_splits list.splits)

lemma path_Clean_Nil: "path_Clean [] = ''.''"
  by (simp add: path_Clean_def clean_comps_def rooted_def)

lemma clean_comps_normal: "normal (rooted p) (clean_comps p)"
proof -
  have "normal b acc \<Longrightarrow> \<forall>c \<in> set cs. CHR ''/'' \<notin> set c \<Longrightarrow> normal b (fold (clean_comp b) cs acc)" for b cs acc
    by (induction cs arbitrary: acc) (simp_all add: clean_comp_normal del: clean_comp.simps)
  from this [of "rooted p" "[]" "split_on (CHR ''/'') p"] show ?thesis
    by (auto simp: clean_comps_def dest: split_on_parts)
qed

lemma clean_comps_set: "x \<in> set (clean_comps p) \<Longrightarrow> plain_comp x"
  using clean_comps_normal normal_plain by blast

lemma join_special:
  assumes "\<forall>x \<in> set xs. plain_comp x" "xs \<noteq> []"
  shows "join ''/'' xs \<noteq> []" "join ''/'' xs \<noteq> ''.''" "join ''/'' xs \<noteq> ''/''"
proof -
  obtain x ys where xs: "xs = x # ys" using assms(2) by (cases xs) auto
  show "join ''/'' xs \<noteq> []" "join ''/'' xs \<noteq> ''.''" "join ''/'' xs \<noteq> ''/''"
    using assms(1) xs by (cases "ys = []"; cases x; auto simp: join_Cons2 plain_comp_def)+
qed

lemma path_Clean_dot: "path_Clean d = ''.'' \<longleftrightarrow> \<not> rooted d \<and> clean_comps d = []"
proof (cases "clean_comps d = []")
  case False
  then have "join ''/'' (rev (clean_comps d)) \<noteq> []" "join ''/'' (rev (clean_comps d)) \<noteq> ''.''"
    using join_special [of "rev (clean_comps d)"] clean_comps_set by auto
  with False show ?thesis by (simp add: path_Clean_def Let_def)
qed (simp add: path_Clean_def)

lemma clean_comp_proper: "proper_name n \<Longrightarrow> clean_comp b n acc = n # acc"
  by (auto simp: proper_name_def)

text \<open>A proper name stays under its directory: in the current one as it is, else behind the directory.\<close>

lemma path_Join_name:
  assumes "proper_name n"
  shows "path_Join [d, n] =
    (if path_Clean d = ''.'' then n else if path_Clean d = ''/'' then ''/'' @ n else path_Clean d @ ''/'' @ n)"
proof -
  have n: "n \<noteq> []" "\<not> rooted n" "split_on (CHR ''/'') n = [n]"
    using assms by (auto simp: proper_name_def rooted_def split_on_absent prefix_def)
  show ?thesis
  proof (cases "d = []")
    case True
    with n assms show ?thesis unfolding True path_Clean_Nil
      by (simp add: path_Join_def path_Clean_def clean_comps_def clean_comp_proper rooted_def del: clean_comp.simps)
  next
    case False
    have c: "clean_comps (d @ ''/'' @ n) = n # clean_comps d"
      using n assms clean_comps_append [OF False, of n] by (simp add: clean_comp_proper del: clean_comp.simps)
    have r: "rooted (d @ ''/'' @ n) = rooted d" by (rule rooted_append [OF False])
    have j: "join ''/'' (rev (clean_comps d) @ [n]) =
      (if clean_comps d = [] then n else join ''/'' (rev (clean_comps d)) @ ''/'' @ n)"
      by (simp add: join_snoc)
    have "path_Join [d, n] = path_Clean (d @ ''/'' @ n)"
      using False n by (simp add: path_Join_def)
    also have "\<dots> = (let b = join ''/'' (rev (clean_comps d) @ [n]) in if rooted d then CHR ''/'' # b else b)"
      unfolding path_Clean_def c r using n j by (simp add: Let_def)
    finally show ?thesis
      using n join_special [of "rev (clean_comps d)"] clean_comps_set [of _ d]
      by (auto simp: j Let_def path_Clean_dot) (auto simp: path_Clean_def Let_def)
  qed
qed

lemma rooted_clean [simp]: "rooted (path_Clean p) = rooted p"
proof (cases "rev (clean_comps p)")
  case Nil then show ?thesis by (simp add: path_Clean_def rooted_def)
next
  case (Cons x xs)
  then have "plain_comp x" using clean_comps_set [of x p] by (metis list.set_intros(1) set_rev)
  then have "x \<noteq> []" "\<not> prefix ''/'' (join ''/'' (x # xs))"
    by (cases x; cases xs; auto simp: plain_comp_def)+
  then show ?thesis unfolding path_Clean_def Cons by (auto simp: rooted_def Let_def)
qed

lemma clean_comps_clean: "clean_comps (path_Clean p) = clean_comps p"
proof (cases "clean_comps p = []")
  case True
  then show ?thesis by (simp add: path_Clean_def clean_comps_def [of "''/''"] clean_comps_def [of "''.''"])
next
  case False
  have sp: "split_on (CHR ''/'') (join ''/'' (rev (clean_comps p))) = rev (clean_comps p)"
    using False clean_comps_set [of _ p] by (intro split_on_join) (auto simp: plain_comp_def)
  have "join ''/'' (rev (clean_comps p)) \<noteq> []"
    using False join_special [of "rev (clean_comps p)"] clean_comps_set by auto
  then have "filter (\<lambda>c. c \<noteq> []) (split_on (CHR ''/'') (path_Clean p)) = rev (clean_comps p)"
    using sp clean_comps_set [of _ p] by (auto simp: path_Clean_def Let_def filter_id_conv plain_comp_def)
  moreover have "fold (clean_comp b) (filter (\<lambda>c. c \<noteq> []) cs) acc = fold (clean_comp b) cs acc" for b cs acc
    by (induction cs arbitrary: acc) simp_all
  ultimately have "clean_comps (path_Clean p) = fold (clean_comp (rooted p)) (rev (clean_comps p)) []"
    by (metis clean_comps_def rooted_clean)
  then show ?thesis using clean_comps_normal fold_normal by metis
qed

lemma path_Clean_idem [simp]: "path_Clean (path_Clean p) = path_Clean p"
  unfolding path_Clean_def [of "path_Clean p"] clean_comps_clean rooted_clean by (simp add: path_Clean_def)

lemma path_Clean_Join: "path_Clean (path_Join [d, n]) = (if d = [] \<and> n = [] then ''.'' else path_Join [d, n])"
  by (simp add: path_Join_def path_Clean_Nil)

lemma filepath_Base_cases: "filepath_Base p = ''/'' \<or> CHR ''/'' \<notin> set (filepath_Base p) \<and> filepath_Base p \<noteq> []"
proof -
  let ?s = "dropWhile (\<lambda>c. c = CHR ''/'') (rev p)"
  show ?thesis
  proof (cases "?s = []")
    case True then show ?thesis by (simp add: filepath_Base_def)
  next
    case False
    then have "hd ?s \<noteq> CHR ''/''" by (metis (full_types) hd_dropWhile)
    with False have "takeWhile (\<lambda>c. c \<noteq> CHR ''/'') ?s \<noteq> []" by (cases ?s) auto
    with False show ?thesis by (auto simp: filepath_Base_def Let_def dest: set_takeWhileD)
  qed
qed

text \<open>A proper name under a directory, from the working directory: two directories hold different files, and one directory has one name.\<close>

lemma clean_comps_name: "p \<noteq> [] \<Longrightarrow> proper_name n \<Longrightarrow> clean_comps (p @ ''/'' @ n) = n # clean_comps p"
  using clean_comps_append [of p n] by (simp add: split_on_absent proper_name_def)

lemma resolve_comps:
  assumes "rooted (fs_cwd f)"
  shows "fs_resolve f p = ''/'' @ join ''/'' (rev (clean_comps (fs_resolve f p)))"
proof -
  let ?x = "if rooted p then p else fs_cwd f @ ''/'' @ p"
  have "fs_cwd f \<noteq> []" using assms by (auto simp: rooted_def)
  then have "rooted ?x" using assms rooted_append by simp
  then show ?thesis unfolding fs_resolve_def clean_comps_clean by (simp add: path_Clean_def)
qed

lemma resolve_eq: "rooted (fs_cwd f) \<Longrightarrow> fs_resolve f p = fs_resolve f q \<longleftrightarrow> clean_comps (fs_resolve f p) = clean_comps (fs_resolve f q)"
  using resolve_comps by metis

lemma resolve_under:
  assumes "rooted (fs_cwd f)" "p \<noteq> []" "proper_name n"
  shows "clean_comps (fs_resolve f (p @ ''/'' @ n)) = n # clean_comps (fs_resolve f p)"
proof -
  have r: "rooted (p @ ''/'' @ n) = rooted p" using assms(2) by (rule rooted_append)
  show ?thesis
    using clean_comps_name [OF assms(2,3)] clean_comps_name [of "fs_cwd f @ ''/'' @ p" n] assms(3)
    by (simp only: fs_resolve_def clean_comps_clean r) simp
qed

lemma resolve_cwd: "rooted (fs_cwd f) \<Longrightarrow> clean_comps (fs_resolve f ''.'') = clean_comps (fs_cwd f)"
  using clean_comps_append [of "fs_cwd f" "''.''"] by (cases "fs_cwd f") (auto simp: fs_resolve_def clean_comps_clean rooted_def)

lemma resolve_name:
  assumes "rooted (fs_cwd f)" "proper_name n"
  shows "clean_comps (fs_resolve f (path_Join [d, n])) = n # clean_comps (fs_resolve f (path_Clean d))"
proof -
  have n: "\<not> rooted n" "fs_cwd f \<noteq> []" using assms by (auto simp: proper_name_def rooted_def prefix_def)
  have "path_Clean d \<noteq> []" by (metis path_Clean_Nil path_Clean_idem list.distinct(1))
  then consider (here) "path_Clean d = ''.''" | (root) "path_Clean d = ''/''"
    | (other) "path_Clean d \<noteq> ''.''" "path_Clean d \<noteq> ''/''" "path_Clean d \<noteq> []" by blast
  then show ?thesis
  proof cases
    case here
    have "clean_comps (fs_resolve f n) = n # clean_comps (fs_cwd f)"
      using clean_comps_name [OF n(2) assms(2)] n(1) by (simp add: fs_resolve_def clean_comps_clean)
    then show ?thesis using here assms by (simp add: path_Join_name resolve_cwd)
  next
    case root
    have "rooted ''/''" "rooted (''/'' @ n)" by (simp_all add: rooted_def)
    moreover have "clean_comps ''/'' = []" "clean_comps (''/'' @ n) = [n]"
      using assms(2) by (simp_all add: clean_comps_def proper_name_def split_on_absent)
    ultimately show ?thesis using root assms(2) by (simp add: path_Join_name fs_resolve_def clean_comps_clean)
  next
    case other
    then show ?thesis using resolve_under [OF assms(1) other(3) assms(2)] assms(2) by (simp add: path_Join_name)
  qed
qed

lemma resolve_cwd_clean: "rooted (fs_cwd f) \<Longrightarrow> fs_resolve f ''.'' = path_Clean (fs_cwd f)"
  using resolve_comps [of f "''.''"] by (simp add: resolve_cwd path_Clean_def Let_def)

lemma resolve_here:
  assumes "rooted (fs_cwd f)" "proper_name n"
  shows "fs_resolve f (path_Join [d, n]) = fs_resolve f n \<longleftrightarrow> fs_resolve f (path_Clean d) = path_Clean (fs_cwd f)"
proof -
  have "path_Clean ''.'' = ''.''" by (simp add: path_Clean_def clean_comps_def rooted_def)
  then have "path_Join [''.'', n] = n" using path_Join_name [OF assms(2), of "''.''"] by simp
  then have "clean_comps (fs_resolve f n) = n # clean_comps (fs_resolve f ''.'')"
    using resolve_name [OF assms, of "''.''"] \<open>path_Clean ''.'' = ''.''\<close> by simp
  then show ?thesis
    using resolve_name [OF assms, of d] by (simp add: resolve_eq [OF assms(1)] resolve_cwd_clean [OF assms(1), symmetric])
qed

section \<open>The interface of an upload\<close>

locale upload_logic =
  fixes upload :: "string \<Rightarrow> 'q file_request \<Rightarrow> fs logged \<Rightarrow> fs logged \<times> int result"
  assumes upload_missing: "FormFile r = Inl e \<Longrightarrow> snd (fst (upload d r w)) = snd w \<and> snd (upload d r w) = Inl e"
    and upload_refused: "FormFile r = Inr (body, n, len, mime) \<Longrightarrow> os_Create (path_Join [d, n]) (snd w) = (f, Inl e) \<Longrightarrow>
      snd (fst (upload d r w)) = f \<and> snd (upload d r w) = Inl e"
    and upload_done: "FormFile r = Inr (body, n, len, mime) \<Longrightarrow> os_Create (path_Join [d, n]) (snd w) = (f, Inr q) \<Longrightarrow>
      snd (fst (upload d r w)) = io_Copy q body f \<and> snd (upload d r w) = Inr 0"
begin

text \<open>A proper name that may be created is written with as much of the body as fits.\<close>

lemma upload_writes:
  assumes "FormFile r = Inr (body, n, len, mime)" "proper_name n"
    and "\<not> fs_isDir (snd w) (fs_resolve (snd w) (path_Join [d, n]))" "fs_creatable (snd w) (fs_resolve (snd w) (path_Join [d, n]))"
  shows "snd (upload d r w) = Inr 0"
    and "snd (fst (upload d r w)) = (let q = fs_resolve (snd w) (path_Join [d, n]); b = take (fs_room (snd w) q) body
      in (snd w)\<lparr>fs_files := (fs_files (snd w))(q \<mapsto> b), fs_space := fs_room (snd w) q - length b\<rparr>)"
proof -
  let ?q = "fs_resolve (snd w) (path_Join [d, n])"
  have "path_Join [d, n] \<noteq> []" using assms(2) by (auto simp: path_Join_name proper_name_def)
  then have o: "os_Create (path_Join [d, n]) (snd w) = ((snd w)\<lparr>fs_files := (fs_files (snd w))(?q \<mapsto> []), fs_space := fs_room (snd w) ?q\<rparr>, Inr ?q)"
    using assms(3,4) by (simp add: os_Create_def Let_def)
  from upload_done [OF assms(1) o] show "snd (upload d r w) = Inr 0"
    and "snd (fst (upload d r w)) = (let q = fs_resolve (snd w) (path_Join [d, n]); b = take (fs_room (snd w) q) body
      in (snd w)\<lparr>fs_files := (fs_files (snd w))(q \<mapsto> b), fs_space := fs_room (snd w) q - length b\<rparr>)"
    by (simp_all add: io_Copy_def Let_def)
qed

text \<open>Nothing but a proper name under the directory is ever written.\<close>

lemma upload_confined:
  assumes "fs_isDir (snd w) (fs_resolve (snd w) (path_Clean d))" "fs_isDir (snd w) (fs_resolve (snd w) (path_Clean (d @ ''/..'')))" "d \<noteq> []"
    and "fs_files (snd (fst (upload d r w))) p \<noteq> fs_files (snd w) p"
  shows "\<exists>n. proper_name n \<and> p = fs_resolve (snd w) (path_Join [d, n])"
proof (cases "FormFile r")
  case (Inl e)
  with assms(4) upload_missing [of r e d w] show ?thesis by simp
next
  case (Inr x)
  then obtain body n len mime where r: "FormFile r = Inr (body, n, len, mime)" by (cases x) auto
  then obtain name where n: "n = filepath_Base name"
    by (auto simp: FormFile_def split: option.splits if_splits)
  obtain f res where o: "os_Create (path_Join [d, n]) (snd w) = (f, res)" by fastforce
  show ?thesis
  proof (cases res)
    case (Inl e)
    with o have "f = snd w" by (auto simp: os_Create_def Let_def split: if_splits)
    with assms(4) upload_refused [OF r, of d w f e] o Inl show ?thesis by simp
  next
    case (Inr q)
    with o have q: "q = fs_resolve (snd w) (path_Join [d, n])" "\<not> fs_isDir (snd w) q"
      and f: "fs_files f = (fs_files (snd w))(q \<mapsto> [])"
      by (auto simp: os_Create_def Let_def split: if_splits)
    have "n \<noteq> []" using filepath_Base_cases [of name] n by auto
    then have j: "path_Join [d, n] = path_Clean (d @ ''/'' @ n)" using assms(3) by (simp add: path_Join_def)
    have "clean_comps (d @ ''/'' @ m) = clean_comps d" if "m = ''/'' \<or> m = ''.''" for m
      using clean_comps_append [OF assms(3), of m] that by auto
    then have "path_Clean (d @ ''/'' @ m) = path_Clean d" if "m = ''/'' \<or> m = ''.''" for m
      using that unfolding path_Clean_def rooted_append [OF assms(3)] by metis
    with assms(1,2) q j have "n \<noteq> ''/''" "n \<noteq> ''.''" "n \<noteq> ''..''" by (metis append_Cons append_Nil)+
    with filepath_Base_cases [of name] n have "proper_name n" by (simp add: proper_name_def)
    moreover from assms(4) upload_done [OF r, of d w f q] o Inr f have "p = q"
      by (auto simp: io_Copy_def Let_def split: if_splits)
    ultimately show ?thesis using q(1) by blast
  qed
qed

end

lemmas upload_splits = sum.splits prod.splits option.splits

interpretation up: upload_logic upload_Upload
  by unfold_locales (auto simp: upload_Upload_def Let_def)

interpretation mono: upload_logic mono_Upload
  by unfold_locales (auto simp: mono_Upload_def Let_def)

lemma mono_serve_upload:
  "serve (mono_routes H d) (''POST'', ''/upload'', r) w = mono_UploadHandler d r w"
  by (simp add: serve_def route_for_def mono_routes_def)

lemma mono_serve_download:
  "serve (mono_routes H d) (''GET'', ''/static/:file'', r) w = mono_DownloadHandler H r w"
  by (simp add: serve_def route_for_def mono_routes_def)

text \<open>A download over a connection that takes everything depends on one file only.\<close>

definition takes_all :: "'q file_request \<Rightarrow> bool" where
  "takes_all r \<longleftrightarrow> (\<forall>b. rq_conn r b = (length b, None))"

lemma mono_download_answer:
  assumes "Parse H (rq_http g) [(PathField, ''file'', JStr [])] = Inr [JStr n]" "takes_all g" "n \<noteq> []"
  shows "snd (mono_DownloadHandler H g w) =
    (if fs_isDir (snd w) (fs_resolve (snd w) n) then [HttpError (Errorf (''read '' @ n @ '': is a directory''))]
     else case fs_files (snd w) (fs_resolve (snd w) n) of
       None \<Rightarrow> [HttpError (Errorf (''open '' @ n @ '': no such file or directory''))]
     | Some b \<Rightarrow> [HttpText b, HttpStatus 200])"
  using assms
  by (auto simp: mono_DownloadHandler_def mono_Download_def ReadFile_def takes_all_def Let_def split: option.splits)

text \<open>
  C37. Upload and download in the monolithic server: an upload with a proper file name that the process
  may create answers success, and afterwards \<^verbatim>\<open>GET /static/:file\<close> of that name answers the uploaded bytes
  exactly when the configured directory, absolute or relative, is the working directory (as its default is); the bytes are cut
  off where the disk was full, in spite of the success, because the copy's error is ignored (a file that is overwritten gives its space back first). With any
  other directory the download still answers what it answered before: it does not look there.
\<close>

theorem file_roundtrip:
  assumes "rooted (fs_cwd (snd w))" "FormFile r = Inr (body, n, len, mime)" "proper_name n"
    and "\<not> fs_isDir (snd w) (fs_resolve (snd w) (path_Join [d, n]))" "fs_creatable (snd w) (fs_resolve (snd w) (path_Join [d, n]))"
    and "Parse H (rq_http g) [(PathField, ''file'', JStr [])] = Inr [JStr n]" "takes_all g"
  shows "let (w', answer) = serve (mono_routes H d) (''POST'', ''/upload'', r) w in
    answer = [HttpJson 200 [(''code'', False, JInt 0)]] \<and>
    snd (serve (mono_routes H d) (''GET'', ''/static/:file'', g) w') =
      (if fs_resolve (snd w) (path_Clean d) = path_Clean (fs_cwd (snd w))
       then [HttpText (take (fs_room (snd w) (fs_resolve (snd w) n)) body), HttpStatus 200]
       else snd (serve (mono_routes H d) (''GET'', ''/static/:file'', g) w))"
proof -
  note up = mono.upload_writes [OF assms(2-5)]
  have n: "n \<noteq> []" using assms(3) by (simp add: proper_name_def)
  note j = resolve_here [OF assms(1,3), of d]
  obtain w' where w: "mono_Upload d r w = (w', Inr 0)"
    using up(1) by (cases "mono_Upload d r w") auto
  then have h: "serve (mono_routes H d) (''POST'', ''/upload'', r) w = (w', [HttpJson 200 [(''code'', False, JInt 0)]])"
    by (simp add: mono_serve_upload mono_UploadHandler_def)
  have f: "fs_resolve (snd w') = fs_resolve (snd w)" "fs_isDir (snd w') = fs_isDir (snd w)"
    and f': "fs_files (snd w') = (fs_files (snd w))(fs_resolve (snd w) (path_Join [d, n]) \<mapsto> take (fs_room (snd w) (fs_resolve (snd w) (path_Join [d, n]))) body)"
    using up(2) w by (simp_all add: fs_resolve_def fun_eq_iff Let_def)
  show ?thesis
    using j assms(4)
    by (auto simp: h mono_serve_download mono_download_answer [OF assms(6,7) n] f f')
qed

definition ref_files :: "(string, unit) http_lib" where
  "ref_files = \<lparr>Context = (\<lambda>_. ()), RemoteAddr = (\<lambda>_. []), Parse = (\<lambda>r ts. Inr (map (\<lambda>_. JStr r) ts))\<rparr>"

definition ref_disk :: fs where
  "ref_disk = \<lparr>fs_cwd = ''/srv'', fs_files = Map.empty, fs_isDir = (\<lambda>p. p \<in> {''/'', ''/srv'', ''/srv/up''}), fs_creatable = (\<lambda>_. True), fs_space = 3\<rparr>"

definition ref_upload :: "string file_request" where
  "ref_upload = \<lparr>rq_myFile = Some (''/tmp/a.txt'', ''data'', []), rq_conn = (\<lambda>b. (length b, None)), rq_http = ''a.txt''\<rparr>"

lemma ref_upload_facts:
  "FormFile ref_upload = Inr (''data'', ''a.txt'', 4, [])" "proper_name ''a.txt''" "takes_all ref_upload"
  "Parse ref_files (rq_http ref_upload) [(PathField, ''file'', JStr [])] = Inr [JStr ''a.txt'']"
  by (simp_all add: FormFile_def ref_upload_def filepath_Base_def proper_name_def takes_all_def ref_files_def)

lemma ref_clean: "path_Clean ''.'' = ''.''" "path_Clean ''up'' = ''up''" "path_Clean ''up/..'' = ''.''" "path_Clean ''/srv'' = ''/srv''"
  by (simp_all add: path_Clean_def clean_comps_def rooted_def)

lemma ref_join: "path_Join [''/srv'', ''a.txt''] = ''/srv/a.txt''" "path_Join [''up'', ''a.txt''] = ''up/a.txt''"
  using path_Join_name [OF ref_upload_facts(2), of "''/srv''"] path_Join_name [OF ref_upload_facts(2), of "''up''"]
  by (simp_all add: ref_clean)

lemma ref_resolve:
  "fs_resolve ref_disk ''/srv/a.txt'' = ''/srv/a.txt''" "fs_resolve ref_disk ''a.txt'' = ''/srv/a.txt''" "fs_resolve ref_disk ''/srv'' = ''/srv''"
  "fs_resolve ref_disk ''up'' = ''/srv/up''" "fs_resolve ref_disk ''.'' = ''/srv''" "fs_resolve ref_disk ''up/a.txt'' = ''/srv/up/a.txt''"
  by (simp_all add: fs_resolve_def ref_disk_def path_Clean_def clean_comps_def rooted_def)

theorem file_roundtrip_witness:
  "let (w', answer) = serve (mono_routes ref_files ''/srv'') (''POST'', ''/upload'', ref_upload) ([], ref_disk) in
    answer = [HttpJson 200 [(''code'', False, JInt 0)]] \<and>
    snd (serve (mono_routes ref_files ''/srv'') (''GET'', ''/static/:file'', ref_upload) w') = [HttpText ''dat'', HttpStatus 200]"
proof -
  have d: "rooted (fs_cwd (snd ([], ref_disk)))" "\<not> fs_isDir (snd ([], ref_disk)) (fs_resolve (snd ([], ref_disk)) (path_Join [''/srv'', ''a.txt'']))"
    "fs_creatable (snd ([], ref_disk)) (fs_resolve (snd ([], ref_disk)) (path_Join [''/srv'', ''a.txt'']))"
    by (simp_all add: ref_join ref_resolve) (simp_all add: ref_disk_def rooted_def)
  have r: "fs_room ref_disk ''/srv/a.txt'' = 3" "path_Clean (fs_cwd ref_disk) = ''/srv''"
    by (simp_all add: fs_room_def ref_disk_def ref_clean)
  show ?thesis
    using file_roundtrip [OF d(1) ref_upload_facts(1,2) d(2,3) ref_upload_facts(4,3)]
    by (simp add: ref_clean ref_resolve r split: prod.splits)
qed

text \<open>
  C38. Uploads cannot leave the configured directory: whatever file name a request to either upload
  service carries, the only path whose content it can change is a single proper name (no separator, not
  \<^verbatim>\<open>.\<close> or \<^verbatim>\<open>..\<close>) inside it, because the form library keeps the last element of the name only and a
  directory cannot be created as a file.
\<close>

theorem uploads_confined:
  assumes "d \<noteq> []" "fs_isDir (snd w) (fs_resolve (snd w) (path_Clean d))" "fs_isDir (snd w) (fs_resolve (snd w) (path_Clean (d @ ''/..'')))"
  shows "(fs_files (snd (fst (serve (upload_routes d) (m, p, r) w))) q \<noteq> fs_files (snd w) q \<longrightarrow>
      (\<exists>n. proper_name n \<and> q = fs_resolve (snd w) (path_Join [d, n]))) \<and>
    (fs_files (snd (fst (serve (mono_routes H d) (m, p, r) w))) q \<noteq> fs_files (snd w) q \<longrightarrow>
      (\<exists>n. proper_name n \<and> q = fs_resolve (snd w) (path_Join [d, n])))"
proof -
  have "snd (fst (serve (upload_routes d) (m, p, r) w)) \<in> {snd w, snd (fst (upload_Upload d r w))}"
    by (auto simp: serve_def route_for_def upload_routes_def upload_UploadHandler_def split: upload_splits)
  moreover have "snd (fst (mono_DownloadHandler H r w)) = snd w"
    by (auto simp: mono_DownloadHandler_def mono_Download_def log_line_def Let_def split: upload_splits)
  then have "snd (fst (serve (mono_routes H d) (m, p, r) w)) \<in> {snd w, snd (fst (mono_Upload d r w))}"
    by (auto simp: serve_def route_for_def mono_routes_def mono_UploadHandler_def split: upload_splits)
  ultimately show ?thesis
    using up.upload_confined [OF assms(2,3,1), of r q] mono.upload_confined [OF assms(2,3,1), of r q] by auto
qed

theorem uploads_confined_witness:
  "fs_files (snd (fst (serve (upload_routes ''up'') (''POST'', ''/upload'', ref_upload) ([], ref_disk)))) ''/srv/up/a.txt'' = Some ''dat'' \<and>
   fs_files (snd (fst (serve (upload_routes ''up'') (''POST'', ''/upload'', ref_upload) ([], ref_disk)))) ''x'' = None"
proof -
  have d: "fs_isDir (snd ([], ref_disk)) (fs_resolve (snd ([], ref_disk)) (path_Clean ''up''))"
    "fs_isDir (snd ([], ref_disk)) (fs_resolve (snd ([], ref_disk)) (path_Clean (''up'' @ ''/..'')))"
    by (simp_all add: ref_clean ref_resolve) (simp_all add: ref_disk_def)
  have "rooted (fs_cwd ref_disk)" by (simp add: ref_disk_def rooted_def)
  then have "rooted (fs_resolve ref_disk p)" for p using resolve_comps [of ref_disk p] by (metis prefixI rooted_def)
  moreover have "\<not> rooted ''x''" by (simp add: rooted_def)
  ultimately have "''x'' \<noteq> fs_resolve ref_disk p" for p by metis
  then have "fs_files (snd (fst (serve (upload_routes ''up'') (''POST'', ''/upload'', ref_upload) ([], ref_disk)))) ''x'' = None"
    using uploads_confined [OF _ d, of "''POST''" "''/upload''" ref_upload "''x''" ref_files] by (auto simp: ref_disk_def)
  moreover have "\<not> fs_isDir ref_disk ''/srv/up/a.txt''" "fs_creatable ref_disk ''/srv/up/a.txt''" "fs_room ref_disk ''/srv/up/a.txt'' = 3"
    by (simp_all add: ref_disk_def fs_room_def)
  then have "fs_files (snd (fst (upload_Upload ''up'' ref_upload ([], ref_disk)))) ''/srv/up/a.txt'' = Some ''dat''"
    using up.upload_writes(2) [OF ref_upload_facts(1,2), of "([], ref_disk)" "''up''"] by (simp add: ref_join ref_resolve Let_def)
  ultimately show ?thesis
    by (auto simp: serve_def route_for_def upload_routes_def upload_UploadHandler_def split: upload_splits)
qed

end
