(* ===== verification/Greet_Protocols.thy ===== *)
theory Greet_Protocols
  imports Service_Lib
begin

text \<open>
  The generated protocol packages of the small RPC services: \<^verbatim>\<open>rpc/remote/unary\<close>, \<^verbatim>\<open>tracing/remote/user\<close>,
  \<^verbatim>\<open>tracing/remote/portal\<close>, \<^verbatim>\<open>graceful/*/rpc/graceful\<close> and \<^verbatim>\<open>gateway/types/hello\<close>. Each has a request and a
  response message with one text field, a client stub, a handler with its interceptor branch, and a
  service description. The gzipped file descriptors are data for the protobuf library.

  Every package interprets the interface \<open>generated_stub\<close>.
\<close>

section \<open>Package unary\<close>

record greeter_Request =
  greeter_Request_Name :: string

record greeter_Response =
  greeter_Response_Greet :: string

definition greeter_Request_Reset :: greeter_Request where
  "greeter_Request_Reset = \<lparr>greeter_Request_Name = []\<rparr>"

definition greeter_Response_Reset :: greeter_Response where
  "greeter_Response_Reset = \<lparr>greeter_Response_Greet = []\<rparr>"

definition greeter_Request_GetName :: "greeter_Request option \<Rightarrow> string" where
  "greeter_Request_GetName m = (case m of Some m \<Rightarrow> greeter_Request_Name m | None \<Rightarrow> [])"

definition greeter_Response_GetGreet :: "greeter_Response option \<Rightarrow> string" where
  "greeter_Response_GetGreet m = (case m of Some m \<Rightarrow> greeter_Response_Greet m | None \<Rightarrow> [])"

datatype greeter_msg = greeter_req greeter_Request | greeter_resp greeter_Response

fun greeter_type_name :: "greeter_msg \<Rightarrow> string" where
  "greeter_type_name (greeter_req _) = ''unary.Request''"
| "greeter_type_name (greeter_resp _) = ''unary.Response''"

fun greeter_msg_wf :: "greeter_msg \<Rightarrow> bool" where
  "greeter_msg_wf (greeter_req m) = utf8_valid (greeter_Request_Name m)"
| "greeter_msg_wf (greeter_resp m) = utf8_valid (greeter_Response_Greet m)"

fun greeter_as_resp :: "greeter_msg \<Rightarrow> greeter_Response option" where
  "greeter_as_resp (greeter_resp r) = Some r"
| "greeter_as_resp (greeter_req _) = None"

definition greeterClient_Greet :: "('c, greeter_msg, 'w) grpc_conn \<Rightarrow> 'c \<Rightarrow> greeter_Request \<Rightarrow> 'w \<Rightarrow> 'w \<times> greeter_Response result" where
  "greeterClient_Greet cc ctx req w = unwrap greeter_as_resp (cc ctx ''/unary.Greeter/greet'' (greeter_req req) w)"

record ('c, 'w) GreeterServer =
  greeter_Greet :: "'c \<Rightarrow> greeter_Request \<Rightarrow> 'w \<Rightarrow> 'w \<times> greeter_Response result"

definition Greeter_Greet_Handler :: "(('c, 'w) GreeterServer, 'c, greeter_msg, 'w) method_handler" where
  "Greeter_Greet_Handler srv ctx dec interceptor w =
     (case dec (greeter_req greeter_Request_Reset) of
        Inl err \<Rightarrow> (w, Inl err)
      | Inr req \<Rightarrow>
          let handler = (\<lambda> ctx req w. case req of
                greeter_req r \<Rightarrow> wrap greeter_resp (greeter_Greet srv ctx r w)
              | _ \<Rightarrow> (w, Inl (Panicked TypeAssertion)))
          in case interceptor of
               None \<Rightarrow> handler ctx req w
             | Some i \<Rightarrow> i ctx req ''/unary.Greeter/Greet'' handler w)"

definition Greeter_serviceDesc :: "(('c, 'w) GreeterServer, 'c, greeter_msg, 'w) ServiceDesc" where
  "Greeter_serviceDesc = \<lparr>
     ServiceName = ''unary.Greeter'', Methods = [(''greet'', Greeter_Greet_Handler)], Streams = [], Metadata = ''greet.proto''\<rparr>"

interpretation greeter_stub: generated_stub "Greeter_serviceDesc" "''greet''" "''/unary.Greeter/Greet''" Greeter_Greet_Handler greeter_Greet
  greeter_type_name greeter_msg_wf greeter_req greeter_resp greeter_as_resp greeterClient_Greet
  by unfold_locales
    (simp_all add: Greeter_serviceDesc_def greeterClient_Greet_def full_method_def Greeter_Greet_Handler_def after_def Let_def)

section \<open>Package user\<close>

record user_UserRequest =
  user_UserRequest_Name :: string

record user_UserResponse =
  user_UserResponse_Response :: string

definition user_UserRequest_Reset :: user_UserRequest where
  "user_UserRequest_Reset = \<lparr>user_UserRequest_Name = []\<rparr>"

definition user_UserResponse_Reset :: user_UserResponse where
  "user_UserResponse_Reset = \<lparr>user_UserResponse_Response = []\<rparr>"

definition user_UserRequest_GetName :: "user_UserRequest option \<Rightarrow> string" where
  "user_UserRequest_GetName m = (case m of Some m \<Rightarrow> user_UserRequest_Name m | None \<Rightarrow> [])"

definition user_UserResponse_GetResponse :: "user_UserResponse option \<Rightarrow> string" where
  "user_UserResponse_GetResponse m = (case m of Some m \<Rightarrow> user_UserResponse_Response m | None \<Rightarrow> [])"

datatype user_msg = user_req user_UserRequest | user_resp user_UserResponse

fun user_type_name :: "user_msg \<Rightarrow> string" where
  "user_type_name (user_req _) = ''user.UserRequest''"
| "user_type_name (user_resp _) = ''user.UserResponse''"

fun user_msg_wf :: "user_msg \<Rightarrow> bool" where
  "user_msg_wf (user_req m) = utf8_valid (user_UserRequest_Name m)"
| "user_msg_wf (user_resp m) = utf8_valid (user_UserResponse_Response m)"

fun user_as_resp :: "user_msg \<Rightarrow> user_UserResponse option" where
  "user_as_resp (user_resp r) = Some r"
| "user_as_resp (user_req _) = None"

definition userClient_GetGrade :: "('c, user_msg, 'w) grpc_conn \<Rightarrow> 'c \<Rightarrow> user_UserRequest \<Rightarrow> 'w \<Rightarrow> 'w \<times> user_UserResponse result" where
  "userClient_GetGrade cc ctx req w = unwrap user_as_resp (cc ctx ''/user.User/GetGrade'' (user_req req) w)"

record ('c, 'w) UserServer =
  user_GetGrade :: "'c \<Rightarrow> user_UserRequest \<Rightarrow> 'w \<Rightarrow> 'w \<times> user_UserResponse result"

definition User_GetGrade_Handler :: "(('c, 'w) UserServer, 'c, user_msg, 'w) method_handler" where
  "User_GetGrade_Handler srv ctx dec interceptor w =
     (case dec (user_req user_UserRequest_Reset) of
        Inl err \<Rightarrow> (w, Inl err)
      | Inr req \<Rightarrow>
          let handler = (\<lambda> ctx req w. case req of
                user_req r \<Rightarrow> wrap user_resp (user_GetGrade srv ctx r w)
              | _ \<Rightarrow> (w, Inl (Panicked TypeAssertion)))
          in case interceptor of
               None \<Rightarrow> handler ctx req w
             | Some i \<Rightarrow> i ctx req ''/user.User/GetGrade'' handler w)"

definition User_serviceDesc :: "(('c, 'w) UserServer, 'c, user_msg, 'w) ServiceDesc" where
  "User_serviceDesc = \<lparr>
     ServiceName = ''user.User'', Methods = [(''GetGrade'', User_GetGrade_Handler)], Streams = [], Metadata = ''user.proto''\<rparr>"

interpretation user_stub: generated_stub "User_serviceDesc" "''GetGrade''" "''/user.User/GetGrade''" User_GetGrade_Handler user_GetGrade
  user_type_name user_msg_wf user_req user_resp user_as_resp userClient_GetGrade
  by unfold_locales
    (simp_all add: User_serviceDesc_def userClient_GetGrade_def full_method_def User_GetGrade_Handler_def after_def Let_def)

section \<open>Package portal\<close>

record portal_PortalRequest =
  portal_PortalRequest_Name :: string

record portal_PortalResponse =
  portal_PortalResponse_Response :: string

definition portal_PortalRequest_Reset :: portal_PortalRequest where
  "portal_PortalRequest_Reset = \<lparr>portal_PortalRequest_Name = []\<rparr>"

definition portal_PortalResponse_Reset :: portal_PortalResponse where
  "portal_PortalResponse_Reset = \<lparr>portal_PortalResponse_Response = []\<rparr>"

definition portal_PortalRequest_GetName :: "portal_PortalRequest option \<Rightarrow> string" where
  "portal_PortalRequest_GetName m = (case m of Some m \<Rightarrow> portal_PortalRequest_Name m | None \<Rightarrow> [])"

definition portal_PortalResponse_GetResponse :: "portal_PortalResponse option \<Rightarrow> string" where
  "portal_PortalResponse_GetResponse m = (case m of Some m \<Rightarrow> portal_PortalResponse_Response m | None \<Rightarrow> [])"

datatype portal_msg = portal_req portal_PortalRequest | portal_resp portal_PortalResponse

fun portal_type_name :: "portal_msg \<Rightarrow> string" where
  "portal_type_name (portal_req _) = ''portal.PortalRequest''"
| "portal_type_name (portal_resp _) = ''portal.PortalResponse''"

fun portal_msg_wf :: "portal_msg \<Rightarrow> bool" where
  "portal_msg_wf (portal_req m) = utf8_valid (portal_PortalRequest_Name m)"
| "portal_msg_wf (portal_resp m) = utf8_valid (portal_PortalResponse_Response m)"

fun portal_as_resp :: "portal_msg \<Rightarrow> portal_PortalResponse option" where
  "portal_as_resp (portal_resp r) = Some r"
| "portal_as_resp (portal_req _) = None"

definition portalClient_Portal :: "('c, portal_msg, 'w) grpc_conn \<Rightarrow> 'c \<Rightarrow> portal_PortalRequest \<Rightarrow> 'w \<Rightarrow> 'w \<times> portal_PortalResponse result" where
  "portalClient_Portal cc ctx req w = unwrap portal_as_resp (cc ctx ''/portal.Portal/Portal'' (portal_req req) w)"

record ('c, 'w) PortalServer =
  portal_Portal :: "'c \<Rightarrow> portal_PortalRequest \<Rightarrow> 'w \<Rightarrow> 'w \<times> portal_PortalResponse result"

definition Portal_Portal_Handler :: "(('c, 'w) PortalServer, 'c, portal_msg, 'w) method_handler" where
  "Portal_Portal_Handler srv ctx dec interceptor w =
     (case dec (portal_req portal_PortalRequest_Reset) of
        Inl err \<Rightarrow> (w, Inl err)
      | Inr req \<Rightarrow>
          let handler = (\<lambda> ctx req w. case req of
                portal_req r \<Rightarrow> wrap portal_resp (portal_Portal srv ctx r w)
              | _ \<Rightarrow> (w, Inl (Panicked TypeAssertion)))
          in case interceptor of
               None \<Rightarrow> handler ctx req w
             | Some i \<Rightarrow> i ctx req ''/portal.Portal/Portal'' handler w)"

definition Portal_serviceDesc :: "(('c, 'w) PortalServer, 'c, portal_msg, 'w) ServiceDesc" where
  "Portal_serviceDesc = \<lparr>
     ServiceName = ''portal.Portal'', Methods = [(''Portal'', Portal_Portal_Handler)], Streams = [], Metadata = ''portal.proto''\<rparr>"

interpretation portal_stub: generated_stub "Portal_serviceDesc" "''Portal''" "''/portal.Portal/Portal''" Portal_Portal_Handler portal_Portal
  portal_type_name portal_msg_wf portal_req portal_resp portal_as_resp portalClient_Portal
  by unfold_locales
    (simp_all add: Portal_serviceDesc_def portalClient_Portal_def full_method_def Portal_Portal_Handler_def after_def Let_def)

section \<open>Package graceful\<close>

record grace_Request =
  grace_Request_From :: string

record grace_Response =
  grace_Response_Host :: string

definition grace_Request_Reset :: grace_Request where
  "grace_Request_Reset = \<lparr>grace_Request_From = []\<rparr>"

definition grace_Response_Reset :: grace_Response where
  "grace_Response_Reset = \<lparr>grace_Response_Host = []\<rparr>"

definition grace_Request_GetFrom :: "grace_Request option \<Rightarrow> string" where
  "grace_Request_GetFrom m = (case m of Some m \<Rightarrow> grace_Request_From m | None \<Rightarrow> [])"

definition grace_Response_GetHost :: "grace_Response option \<Rightarrow> string" where
  "grace_Response_GetHost m = (case m of Some m \<Rightarrow> grace_Response_Host m | None \<Rightarrow> [])"

datatype grace_msg = grace_req grace_Request | grace_resp grace_Response

fun grace_type_name :: "grace_msg \<Rightarrow> string" where
  "grace_type_name (grace_req _) = ''graceful.Request''"
| "grace_type_name (grace_resp _) = ''graceful.Response''"

fun grace_msg_wf :: "grace_msg \<Rightarrow> bool" where
  "grace_msg_wf (grace_req m) = utf8_valid (grace_Request_From m)"
| "grace_msg_wf (grace_resp m) = utf8_valid (grace_Response_Host m)"

fun grace_as_resp :: "grace_msg \<Rightarrow> grace_Response option" where
  "grace_as_resp (grace_resp r) = Some r"
| "grace_as_resp (grace_req _) = None"

definition graceClient_Grace :: "('c, grace_msg, 'w) grpc_conn \<Rightarrow> 'c \<Rightarrow> grace_Request \<Rightarrow> 'w \<Rightarrow> 'w \<times> grace_Response result" where
  "graceClient_Grace cc ctx req w = unwrap grace_as_resp (cc ctx ''/graceful.GraceService/grace'' (grace_req req) w)"

record ('c, 'w) GraceServiceServer =
  grace_Grace :: "'c \<Rightarrow> grace_Request \<Rightarrow> 'w \<Rightarrow> 'w \<times> grace_Response result"

definition GraceService_Grace_Handler :: "(('c, 'w) GraceServiceServer, 'c, grace_msg, 'w) method_handler" where
  "GraceService_Grace_Handler srv ctx dec interceptor w =
     (case dec (grace_req grace_Request_Reset) of
        Inl err \<Rightarrow> (w, Inl err)
      | Inr req \<Rightarrow>
          let handler = (\<lambda> ctx req w. case req of
                grace_req r \<Rightarrow> wrap grace_resp (grace_Grace srv ctx r w)
              | _ \<Rightarrow> (w, Inl (Panicked TypeAssertion)))
          in case interceptor of
               None \<Rightarrow> handler ctx req w
             | Some i \<Rightarrow> i ctx req ''/graceful.GraceService/Grace'' handler w)"

definition GraceService_serviceDesc :: "(('c, 'w) GraceServiceServer, 'c, grace_msg, 'w) ServiceDesc" where
  "GraceService_serviceDesc = \<lparr>
     ServiceName = ''graceful.GraceService'', Methods = [(''grace'', GraceService_Grace_Handler)], Streams = [], Metadata = ''graceful.proto''\<rparr>"

interpretation grace_stub: generated_stub "GraceService_serviceDesc" "''grace''" "''/graceful.GraceService/Grace''" GraceService_Grace_Handler grace_Grace
  grace_type_name grace_msg_wf grace_req grace_resp grace_as_resp graceClient_Grace
  by unfold_locales
    (simp_all add: GraceService_serviceDesc_def graceClient_Grace_def full_method_def GraceService_Grace_Handler_def after_def Let_def)

section \<open>Package hello\<close>

record hello_Request =
  hello_Request_Ping :: string

record hello_Response =
  hello_Response_Pong :: string

definition hello_Request_Reset :: hello_Request where
  "hello_Request_Reset = \<lparr>hello_Request_Ping = []\<rparr>"

definition hello_Response_Reset :: hello_Response where
  "hello_Response_Reset = \<lparr>hello_Response_Pong = []\<rparr>"

definition hello_Request_GetPing :: "hello_Request option \<Rightarrow> string" where
  "hello_Request_GetPing m = (case m of Some m \<Rightarrow> hello_Request_Ping m | None \<Rightarrow> [])"

definition hello_Response_GetPong :: "hello_Response option \<Rightarrow> string" where
  "hello_Response_GetPong m = (case m of Some m \<Rightarrow> hello_Response_Pong m | None \<Rightarrow> [])"

datatype hello_msg = hello_req hello_Request | hello_resp hello_Response

fun hello_type_name :: "hello_msg \<Rightarrow> string" where
  "hello_type_name (hello_req _) = ''hello.Request''"
| "hello_type_name (hello_resp _) = ''hello.Response''"

fun hello_msg_wf :: "hello_msg \<Rightarrow> bool" where
  "hello_msg_wf (hello_req m) = utf8_valid (hello_Request_Ping m)"
| "hello_msg_wf (hello_resp m) = utf8_valid (hello_Response_Pong m)"

fun hello_as_resp :: "hello_msg \<Rightarrow> hello_Response option" where
  "hello_as_resp (hello_resp r) = Some r"
| "hello_as_resp (hello_req _) = None"

definition helloClient_Ping :: "('c, hello_msg, 'w) grpc_conn \<Rightarrow> 'c \<Rightarrow> hello_Request \<Rightarrow> 'w \<Rightarrow> 'w \<times> hello_Response result" where
  "helloClient_Ping cc ctx req w = unwrap hello_as_resp (cc ctx ''/hello.Hello/Ping'' (hello_req req) w)"

record ('c, 'w) HelloServer =
  hello_Ping :: "'c \<Rightarrow> hello_Request \<Rightarrow> 'w \<Rightarrow> 'w \<times> hello_Response result"

definition Hello_Ping_Handler :: "(('c, 'w) HelloServer, 'c, hello_msg, 'w) method_handler" where
  "Hello_Ping_Handler srv ctx dec interceptor w =
     (case dec (hello_req hello_Request_Reset) of
        Inl err \<Rightarrow> (w, Inl err)
      | Inr req \<Rightarrow>
          let handler = (\<lambda> ctx req w. case req of
                hello_req r \<Rightarrow> wrap hello_resp (hello_Ping srv ctx r w)
              | _ \<Rightarrow> (w, Inl (Panicked TypeAssertion)))
          in case interceptor of
               None \<Rightarrow> handler ctx req w
             | Some i \<Rightarrow> i ctx req ''/hello.Hello/Ping'' handler w)"

definition Hello_serviceDesc :: "(('c, 'w) HelloServer, 'c, hello_msg, 'w) ServiceDesc" where
  "Hello_serviceDesc = \<lparr>
     ServiceName = ''hello.Hello'', Methods = [(''Ping'', Hello_Ping_Handler)], Streams = [], Metadata = ''hello.proto''\<rparr>"

interpretation hello_stub: generated_stub "Hello_serviceDesc" "''Ping''" "''/hello.Hello/Ping''" Hello_Ping_Handler hello_Ping
  hello_type_name hello_msg_wf hello_req hello_resp hello_as_resp helloClient_Ping
  by unfold_locales
    (simp_all add: Hello_serviceDesc_def helloClient_Ping_def full_method_def Hello_Ping_Handler_def after_def Let_def)

end
