(* ===== verification/Greet_Services.thy ===== *)
theory Greet_Services
  imports Greet_Protocols
begin

text \<open>
  The unary greeting service: its server (\<^verbatim>\<open>rpc/server/unary\<close>) and the same server behind four registries
  (\<^verbatim>\<open>discovery/*/server\<close>), the clients that call it once per tick (\<^verbatim>\<open>rpc/client\<close>, \<^verbatim>\<open>discovery/*/client\<close>) and
  the proxy in between (\<^verbatim>\<open>rpc/proxy\<close>). The state is what the processes print, in order, in front of the
  rest of the world. The host name, the printed form of a message, durations and clock readings are
  arguments; registries are parameters.

  The locale \<open>host_greeter\<close> is the interface of a greeting server, \<open>ticker\<close> the one of a client's tick.
\<close>

section \<open>Servers\<close>

text \<open>The struct's lock and down time are never used.\<close>

record GreetServer =
  gs_alive :: bool

definition unary_NewGreetServer :: GreetServer where
  "unary_NewGreetServer = \<lparr>gs_alive = True\<rparr>"

definition unary_Greet ::
  "(greeter_Request \<Rightarrow> string) \<Rightarrow> string result \<Rightarrow> GreetServer \<Rightarrow> 'c \<Rightarrow> greeter_Request \<Rightarrow> 'w logged \<Rightarrow> 'w logged \<times> greeter_Response result" where
  "unary_Greet text hostname gs ctx req w =
     (let w = log_line LInfo (''=> '' @ text req) w
      in case hostname of
           Inl err \<Rightarrow> (w, Inl err)
         | Inr hostname \<Rightarrow> (w, Inr \<lparr>greeter_Response_Greet = ''hello from '' @ hostname\<rparr>))"

definition unary_interceptor :: "string \<Rightarrow> ('c, greeter_msg, 'w logged) interceptor" where
  "unary_interceptor elapsed ctx req fullMethod handler w =
     (case handler ctx req w of
        (w, resp) \<Rightarrow> (log_line LInfo (''method: '' @ fullMethod @ '' time: '' @ elapsed) w, resp))"

definition k8s_NewGreetServer :: GreetServer where
  "k8s_NewGreetServer = \<lparr>gs_alive = True\<rparr>"

definition k8s_Greet ::
  "(greeter_Request \<Rightarrow> string) \<Rightarrow> string result \<Rightarrow> GreetServer \<Rightarrow> 'c \<Rightarrow> greeter_Request \<Rightarrow> 'w logged \<Rightarrow> 'w logged \<times> greeter_Response result" where
  "k8s_Greet text hostname gs ctx req w =
     (let w = log_line LInfo (''=> '' @ text req) w
      in case hostname of
           Inl err \<Rightarrow> (w, Inl err)
         | Inr hostname \<Rightarrow> (w, Inr \<lparr>greeter_Response_Greet = ''hello from '' @ hostname\<rparr>))"

definition k8s_interceptor :: "string \<Rightarrow> ('c, greeter_msg, 'w logged) interceptor" where
  "k8s_interceptor elapsed ctx req fullMethod handler w =
     (case handler ctx req w of
        (w, resp) \<Rightarrow> (log_line LInfo (''method: '' @ fullMethod @ '' time: '' @ elapsed) w, resp))"

definition consul_NewGreetServer :: GreetServer where
  "consul_NewGreetServer = \<lparr>gs_alive = True\<rparr>"

definition consul_Greet ::
  "(greeter_Request \<Rightarrow> string) \<Rightarrow> string result \<Rightarrow> GreetServer \<Rightarrow> 'c \<Rightarrow> greeter_Request \<Rightarrow> 'w logged \<Rightarrow> 'w logged \<times> greeter_Response result" where
  "consul_Greet text hostname gs ctx req w =
     (let w = log_line LInfo (''=> '' @ text req) w
      in case hostname of
           Inl err \<Rightarrow> (w, Inl err)
         | Inr hostname \<Rightarrow> (w, Inr \<lparr>greeter_Response_Greet = ''hello from '' @ hostname\<rparr>))"

definition consul_interceptor :: "string \<Rightarrow> ('c, greeter_msg, 'w logged) interceptor" where
  "consul_interceptor elapsed ctx req fullMethod handler w =
     (case handler ctx req w of
        (w, resp) \<Rightarrow> (log_line LInfo (''method: '' @ fullMethod @ '' time: '' @ elapsed) w, resp))"

definition polaris_NewGreetServer :: GreetServer where
  "polaris_NewGreetServer = \<lparr>gs_alive = True\<rparr>"

definition polaris_Greet ::
  "(greeter_Request \<Rightarrow> string) \<Rightarrow> string result \<Rightarrow> GreetServer \<Rightarrow> 'c \<Rightarrow> greeter_Request \<Rightarrow> 'w logged \<Rightarrow> 'w logged \<times> greeter_Response result" where
  "polaris_Greet text hostname gs ctx req w =
     (let w = log_line LInfo (''=> '' @ text req) w
      in case hostname of
           Inl err \<Rightarrow> (w, Inl err)
         | Inr hostname \<Rightarrow> (w, Inr \<lparr>greeter_Response_Greet = ''hello from '' @ hostname\<rparr>))"

definition polaris_interceptor :: "string \<Rightarrow> ('c, greeter_msg, 'w logged) interceptor" where
  "polaris_interceptor elapsed ctx req fullMethod handler w =
     (case handler ctx req w of
        (w, resp) \<Rightarrow> (log_line LInfo (''method: '' @ fullMethod @ '' time: '' @ elapsed) w, resp))"

definition nacos_NewGreetServer :: GreetServer where
  "nacos_NewGreetServer = \<lparr>gs_alive = True\<rparr>"

definition nacos_Greet ::
  "(greeter_Request \<Rightarrow> string) \<Rightarrow> string result \<Rightarrow> GreetServer \<Rightarrow> 'c \<Rightarrow> greeter_Request \<Rightarrow> 'w logged \<Rightarrow> 'w logged \<times> greeter_Response result" where
  "nacos_Greet text hostname gs ctx req w =
     (let w = log_line LInfo (''=> '' @ text req) w
      in case hostname of
           Inl err \<Rightarrow> (w, Inl err)
         | Inr hostname \<Rightarrow> (w, Inr \<lparr>greeter_Response_Greet = ''hello from '' @ hostname\<rparr>))"

definition nacos_interceptor :: "string \<Rightarrow> ('c, greeter_msg, 'w logged) interceptor" where
  "nacos_interceptor elapsed ctx req fullMethod handler w =
     (case handler ctx req w of
        (w, resp) \<Rightarrow> (log_line LInfo (''method: '' @ fullMethod @ '' time: '' @ elapsed) w, resp))"

text \<open>What a server's \<^verbatim>\<open>main\<close> sets up: the registered implementation and the interceptor.\<close>

type_synonym ('c, 'w) greet_setup = "('c, 'w logged) GreeterServer \<times> ('c, greeter_msg, 'w logged) interceptor option"

definition unary_main :: "(greeter_Request \<Rightarrow> string) \<Rightarrow> string result \<Rightarrow> string \<Rightarrow> ('c, 'w) greet_setup" where
  "unary_main text hostname elapsed =
     (\<lparr>greeter_Greet = unary_Greet text hostname unary_NewGreetServer\<rparr>, Some (unary_interceptor elapsed))"

definition k8s_main :: "(greeter_Request \<Rightarrow> string) \<Rightarrow> string result \<Rightarrow> string \<Rightarrow> ('c, 'w) greet_setup" where
  "k8s_main text hostname elapsed =
     (\<lparr>greeter_Greet = k8s_Greet text hostname k8s_NewGreetServer\<rparr>, Some (k8s_interceptor elapsed))"

text \<open>The registering servers ignore the error of the registration and start.\<close>

type_synonym ('a, 'w) registry = "'a \<Rightarrow> 'w logged \<Rightarrow> 'w logged \<times> go_error option"

definition consul_main ::
  "(string \<times> 'a, 'w) registry \<Rightarrow> string \<Rightarrow> 'a \<Rightarrow> (greeter_Request \<Rightarrow> string) \<Rightarrow> string result \<Rightarrow> string \<Rightarrow> 'w logged \<Rightarrow>
   'w logged \<times> ('c, 'w) greet_setup" where
  "consul_main RegisterService listenOn consulConf text hostname elapsed w =
     (let (w, _) = RegisterService (listenOn, consulConf) w
      in (w, \<lparr>greeter_Greet = consul_Greet text hostname consul_NewGreetServer\<rparr>, Some (consul_interceptor elapsed)))"

definition polaris_main ::
  "(string \<times> string, 'w) registry \<Rightarrow> string \<Rightarrow> (greeter_Request \<Rightarrow> string) \<Rightarrow> string result \<Rightarrow> string \<Rightarrow> 'w logged \<Rightarrow>
   'w logged \<times> ('c, 'w) greet_setup" where
  "polaris_main RegisterService listenOn text hostname elapsed w =
     (let opts = (listenOn, ''EchoServerZero''); (w, _) = RegisterService opts w
      in (w, \<lparr>greeter_Greet = polaris_Greet text hostname polaris_NewGreetServer\<rparr>, Some (polaris_interceptor elapsed)))"

record nacos_ClientConfig =
  nc_NamespaceId :: string
  nc_TimeoutMs :: nat
  nc_NotLoadCacheAtStart :: bool
  nc_LogDir :: string
  nc_CacheDir :: string
  nc_RotateTime :: string
  nc_MaxAge :: nat
  nc_LogLevel :: string

definition nacos_main ::
  "(string \<times> string \<times> (string \<times> nat) list \<times> nacos_ClientConfig, 'w) registry \<Rightarrow> string \<Rightarrow> (greeter_Request \<Rightarrow> string) \<Rightarrow>
   string result \<Rightarrow> string \<Rightarrow> 'w logged \<Rightarrow> 'w logged \<times> ('c, 'w) greet_setup" where
  "nacos_main RegisterService listenOn text hostname elapsed w =
     (let sc = [(''192.168.100.15'', 8848)];
          cc = \<lparr>nc_NamespaceId = ''public'', nc_TimeoutMs = 5000, nc_NotLoadCacheAtStart = True, nc_LogDir = ''/tmp/nacos/log'',
                 nc_CacheDir = ''/tmp/nacos/cache'', nc_RotateTime = ''1h'', nc_MaxAge = 3, nc_LogLevel = ''debug''\<rparr>;
          opts = (''nacos.rpc'', listenOn, sc, cc);
          (w, _) = RegisterService opts w
      in (w, \<lparr>greeter_Greet = nacos_Greet text hostname nacos_NewGreetServer\<rparr>, Some (nacos_interceptor elapsed)))"

section \<open>Clients\<close>

text \<open>One tick of a client, \<open>now\<close> being the formatted time.\<close>

definition direct_tick :: "('c, greeter_msg, 'w logged) grpc_conn \<Rightarrow> 'c \<Rightarrow> string \<Rightarrow> 'w logged \<Rightarrow> 'w logged" where
  "direct_tick conn ctx now w =
     (case greeterClient_Greet conn ctx \<lparr>greeter_Request_Name = ''kevin''\<rparr> w of
        (w, Inl err) \<Rightarrow> log_line LInfo (now @ '' X '' @ err_text err) w
      | (w, Inr resp) \<Rightarrow> log_line LInfo (now @ '' => '' @ greeter_Response_Greet resp) w)"

definition nacos_tick :: "('c, greeter_msg, 'w logged) grpc_conn \<Rightarrow> 'c \<Rightarrow> string \<Rightarrow> 'w logged \<Rightarrow> 'w logged" where
  "nacos_tick conn ctx now w =
     (case greeterClient_Greet conn ctx \<lparr>greeter_Request_Name = ''kevin''\<rparr> w of
        (w, Inl err) \<Rightarrow> log_line LInfo (now @ '' X '' @ err_text err) w
      | (w, Inr resp) \<Rightarrow> log_line LInfo (now @ '' => '' @ greeter_Response_Greet resp) w)"

definition k8s_tick :: "('c, greeter_msg, 'w logged) grpc_conn \<Rightarrow> 'c \<Rightarrow> string \<Rightarrow> 'w logged \<Rightarrow> 'w logged" where
  "k8s_tick conn ctx now w =
     (case greeterClient_Greet conn ctx \<lparr>greeter_Request_Name = ''kevin''\<rparr> w of
        (w, Inl err) \<Rightarrow> log_line LInfo (now @ '' X '' @ err_text err) w
      | (w, Inr resp) \<Rightarrow> log_line LInfo (now @ '' => '' @ greeter_Response_Greet resp) w)"

definition consul_tick :: "('c, greeter_msg, 'w logged) grpc_conn \<Rightarrow> 'c \<Rightarrow> string \<Rightarrow> 'w logged \<Rightarrow> 'w logged" where
  "consul_tick conn ctx now w =
     (case greeterClient_Greet conn ctx \<lparr>greeter_Request_Name = ''kevin''\<rparr> w of
        (w, Inl err) \<Rightarrow> log_line LInfo (now @ '' X '' @ err_text err) w
      | (w, Inr resp) \<Rightarrow> log_line LInfo (now @ '' => '' @ greeter_Response_Greet resp) w)"

definition polaris_tick :: "('c, greeter_msg, 'w logged) grpc_conn \<Rightarrow> 'c \<Rightarrow> string \<Rightarrow> 'w logged \<Rightarrow> 'w logged" where
  "polaris_tick conn ctx now w =
     (case greeterClient_Greet conn ctx \<lparr>greeter_Request_Name = ''kevin''\<rparr> w of
        (w, Inl err) \<Rightarrow> log_line LInfo (now @ '' X '' @ err_text err) w
      | (w, Inr resp) \<Rightarrow> log_line LInfo (now @ '' => '' @ greeter_Response_Greet resp) w)"

definition unary_tick :: "('c, greeter_msg, 'w logged) grpc_conn \<Rightarrow> 'c \<Rightarrow> 'w logged \<Rightarrow> 'w logged" where
  "unary_tick conn ctx w =
     (case greeterClient_Greet conn ctx \<lparr>greeter_Request_Name = ''kevin''\<rparr> w of
        (w, Inl err) \<Rightarrow> log_line LInfo (''X '' @ err_text err) w
      | (w, Inr resp) \<Rightarrow> log_line LInfo (''=> '' @ greeter_Response_Greet resp) w)"

text \<open>The load-balanced client picks its configuration by a flag.\<close>

datatype RpcClientConf = Endpoints "string list" | Etcd "string list" string

definition lb_conf :: "string \<Rightarrow> RpcClientConf result" where
  "lb_conf lb =
     (if lb = ''direct'' then Inr (Endpoints [''localhost:3456'', ''localhost:3457''])
      else if lb = ''discov'' then Inr (Etcd [''localhost:2379''] ''zrpc'')
      else Inl (Errorf ''bad load balancing type''))"

definition lb_tick ::
  "(RpcClientConf \<Rightarrow> ('c, greeter_msg, 'w logged) grpc_conn) \<Rightarrow> string \<Rightarrow> 'c \<Rightarrow> 'w logged \<Rightarrow> 'w logged result" where
  "lb_tick MustNewClient lb ctx w =
     (case lb_conf lb of
        Inl err \<Rightarrow> Inl err
      | Inr conf \<Rightarrow>
          let greet = greeterClient_Greet (MustNewClient conf)
          in Inr (case greet ctx \<lparr>greeter_Request_Name = ''kevin''\<rparr> w of
               (w, Inl err) \<Rightarrow> log_line LInfo (''X '' @ err_text err) w
             | (w, Inr resp) \<Rightarrow> log_line LInfo (''=> '' @ greeter_Response_Greet resp) w))"

section \<open>Proxy\<close>

definition proxy_Greet ::
  "('c \<Rightarrow> 'w \<Rightarrow> 'w \<times> ('c, greeter_msg, 'w) grpc_conn result) \<Rightarrow> 'c \<Rightarrow> greeter_Request \<Rightarrow> 'w \<Rightarrow> 'w \<times> greeter_Response result" where
  "proxy_Greet TakeConn ctx req w =
     (case TakeConn ctx w of
        (w, Inl err) \<Rightarrow> (w, Inl err)
      | (w, Inr conn) \<Rightarrow> greeterClient_Greet conn ctx req w)"

definition proxy_main ::
  "('c \<Rightarrow> 'w \<Rightarrow> 'w \<times> ('c, greeter_msg, 'w) grpc_conn result) \<Rightarrow> ('c, 'w) GreeterServer \<times> ('c, greeter_msg, 'w) interceptor option" where
  "proxy_main TakeConn = (\<lparr>greeter_Greet = proxy_Greet TakeConn\<rparr>, None)"

section \<open>Interfaces\<close>

lemma status_of_idem [simp]: "status_of (status_of e) = status_of e"
  by (cases e) simp_all

lemma map_err_idem [simp]: "map_err status_of (map_err status_of r) = map_err status_of r"
  by (cases r; cases "snd r") auto

text \<open>What a greeting server does with a request: it prints it and answers with its host's name.\<close>

definition greeting_of :: "string result \<Rightarrow> greeter_Response result" where
  "greeting_of = map_sum id (\<lambda> h. \<lparr>greeter_Response_Greet = ''hello from '' @ h\<rparr>)"

definition method_line :: "string \<Rightarrow> string \<Rightarrow> 'w logged \<Rightarrow> 'w logged" where
  "method_line elapsed m = log_line LInfo (''method: '' @ m @ '' time: '' @ elapsed)"

definition greet_outcome ::
  "(greeter_Request \<Rightarrow> string) \<Rightarrow> string result \<Rightarrow> string \<Rightarrow> greeter_Request \<Rightarrow> 'w logged \<Rightarrow> 'w logged \<times> greeter_Response result" where
  "greet_outcome text hostname elapsed req w =
     ((fst w @ [(LInfo, ''=> '' @ text req), (LInfo, ''method: /unary.Greeter/Greet time: '' @ elapsed)], snd w),
      greeting_of hostname)"

locale host_greeter =
  fixes greet :: "(greeter_Request \<Rightarrow> string) \<Rightarrow> string result \<Rightarrow> GreetServer \<Rightarrow> 'c \<Rightarrow> greeter_Request \<Rightarrow> 'w logged \<Rightarrow> 'w logged \<times> greeter_Response result"
    and intercept :: "string \<Rightarrow> ('c, greeter_msg, 'w logged) interceptor"
  assumes greet_law: "greet text hostname gs ctx req w = (log_line LInfo (''=> '' @ text req) w, greeting_of hostname)"
    and intercept_law: "intercept elapsed = after (method_line elapsed)"
begin

lemma greet_call:
  assumes "grpc_serves I Greeter_serviceDesc \<lparr>greeter_Greet = greet text hostname gs\<rparr> (Some (intercept elapsed))
      greeter_type_name greeter_msg_wf sc" "utf8_valid (greeter_Request_Name req)"
  shows "greeterClient_Greet I ctx req w =
    map_err status_of (greet_outcome text hostname elapsed req w)"
  using greeter_stub.stub_noted [OF assms(1) [unfolded intercept_law]] assms(2)
  by (simp add: greet_law method_line_def log_line_def greet_outcome_def)

end

text \<open>A tick prints one line after the call: the greeting, or the error's text.\<close>

locale ticker =
  fixes lead :: "string \<Rightarrow> string"
    and tick :: "('c, greeter_msg, 'w logged) grpc_conn \<Rightarrow> 'c \<Rightarrow> string \<Rightarrow> 'w logged \<Rightarrow> 'w logged"
  assumes tick_law: "greeterClient_Greet conn ctx \<lparr>greeter_Request_Name = ''kevin''\<rparr> w = (w', r) \<Longrightarrow>
    tick conn ctx now w = log_line LInfo (lead now @ (case r of Inl err \<Rightarrow> ''X '' @ err_text err | Inr resp \<Rightarrow> ''=> '' @ greeter_Response_Greet resp)) w'"

interpretation unary_host: host_greeter unary_Greet unary_interceptor
  by unfold_locales
    (simp_all add: unary_Greet_def unary_interceptor_def greeting_of_def after_def method_line_def Let_def fun_eq_iff split: sum.splits)

interpretation k8s_host: host_greeter k8s_Greet k8s_interceptor
  by unfold_locales
    (simp_all add: k8s_Greet_def k8s_interceptor_def greeting_of_def after_def method_line_def Let_def fun_eq_iff split: sum.splits)

interpretation consul_host: host_greeter consul_Greet consul_interceptor
  by unfold_locales
    (simp_all add: consul_Greet_def consul_interceptor_def greeting_of_def after_def method_line_def Let_def fun_eq_iff split: sum.splits)

interpretation polaris_host: host_greeter polaris_Greet polaris_interceptor
  by unfold_locales
    (simp_all add: polaris_Greet_def polaris_interceptor_def greeting_of_def after_def method_line_def Let_def fun_eq_iff split: sum.splits)

interpretation nacos_host: host_greeter nacos_Greet nacos_interceptor
  by unfold_locales
    (simp_all add: nacos_Greet_def nacos_interceptor_def greeting_of_def after_def method_line_def Let_def fun_eq_iff split: sum.splits)

interpretation direct_client: ticker "\<lambda> now. now @ '' ''" direct_tick
  by unfold_locales (simp add: direct_tick_def split: sum.splits)

interpretation nacos_client: ticker "\<lambda> now. now @ '' ''" nacos_tick
  by unfold_locales (simp add: nacos_tick_def split: sum.splits)

interpretation k8s_client: ticker "\<lambda> now. now @ '' ''" k8s_tick
  by unfold_locales (simp add: k8s_tick_def split: sum.splits)

interpretation consul_client: ticker "\<lambda> now. now @ '' ''" consul_tick
  by unfold_locales (simp add: consul_tick_def split: sum.splits)

interpretation polaris_client: ticker "\<lambda> now. now @ '' ''" polaris_tick
  by unfold_locales (simp add: polaris_tick_def split: sum.splits)

interpretation unary_client: ticker "\<lambda> _. []" "\<lambda> conn ctx _. unary_tick conn ctx"
  by unfold_locales (simp add: unary_tick_def split: sum.splits)

text \<open>A client's tick over a server with its interceptor: the three lines it leaves.\<close>

definition greet_lines :: "(greeter_Request \<Rightarrow> string) \<Rightarrow> string result \<Rightarrow> string \<Rightarrow> string \<Rightarrow> (log_level \<times> string) list" where
  "greet_lines text hostname elapsed lead =
     [(LInfo, ''=> '' @ text \<lparr>greeter_Request_Name = ''kevin''\<rparr>),
      (LInfo, ''method: /unary.Greeter/Greet time: '' @ elapsed),
      (LInfo, lead @ (case hostname of Inl err \<Rightarrow> ''X '' @ err_text (status_of err) | Inr h \<Rightarrow> ''=> hello from '' @ h))]"

lemma utf8_kevin: "utf8_valid ''kevin''"
  by code_simp

context ticker
begin

lemma tick_lines:
  assumes "\<And>w. greeterClient_Greet I ctx \<lparr>greeter_Request_Name = ''kevin''\<rparr> w =
    map_err status_of (greet_outcome text hostname elapsed \<lparr>greeter_Request_Name = ''kevin''\<rparr> w)"
  shows "tick I ctx now w = (fst w @ greet_lines text hostname elapsed (lead now), snd w)"
proof (cases hostname)
  case (Inl e)
  with assms [of w] show ?thesis
    by (simp add: tick_law greet_outcome_def greeting_of_def greet_lines_def log_line_def)
next
  case (Inr h)
  with assms [of w] show ?thesis
    by (simp add: tick_law greet_outcome_def greeting_of_def greet_lines_def log_line_def)
qed

end

section \<open>Properties\<close>

text \<open>The five servers and the six clients.\<close>

definition greet_servers ::
  "(((greeter_Request \<Rightarrow> string) \<Rightarrow> string result \<Rightarrow> GreetServer \<Rightarrow> 'c \<Rightarrow> greeter_Request \<Rightarrow> 'w logged \<Rightarrow> 'w logged \<times> greeter_Response result) \<times>
    (string \<Rightarrow> ('c, greeter_msg, 'w logged) interceptor)) list" where
  "greet_servers = [(unary_Greet, unary_interceptor), (k8s_Greet, k8s_interceptor), (consul_Greet, consul_interceptor),
     (polaris_Greet, polaris_interceptor), (nacos_Greet, nacos_interceptor)]"

definition greet_clients ::
  "((string \<Rightarrow> string) \<times> (('c, greeter_msg, 'w logged) grpc_conn \<Rightarrow> 'c \<Rightarrow> string \<Rightarrow> 'w logged \<Rightarrow> 'w logged)) list" where
  "greet_clients = [(\<lambda>_. [], \<lambda>conn ctx _. unary_tick conn ctx), (\<lambda>now. now @ '' '', direct_tick), (\<lambda>now. now @ '' '', k8s_tick),
     (\<lambda>now. now @ '' '', consul_tick), (\<lambda>now. now @ '' '', polaris_tick), (\<lambda>now. now @ '' '', nacos_tick)]"

lemma greet_servers_law:
  assumes "(greet, intercept) \<in> set greet_servers"
    and "grpc_serves I Greeter_serviceDesc \<lparr>greeter_Greet = greet text hostname gs\<rparr> (Some (intercept elapsed))
      greeter_type_name greeter_msg_wf sc" "utf8_valid (greeter_Request_Name req)"
  shows "greeterClient_Greet I ctx req w =
    map_err status_of (greet_outcome text hostname elapsed req w)"
  using assms(1) unfolding greet_servers_def list.set insert_iff empty_iff prod.inject
  by (elim disjE conjE)
    (insert assms(2,3), simp_all only: unary_host.greet_call k8s_host.greet_call consul_host.greet_call
      polaris_host.greet_call nacos_host.greet_call)

lemma greet_clients_law:
  assumes "(lead, tick) \<in> set greet_clients"
    and "\<And>w. greeterClient_Greet I ctx \<lparr>greeter_Request_Name = ''kevin''\<rparr> w =
      map_err status_of (greet_outcome text hostname elapsed \<lparr>greeter_Request_Name = ''kevin''\<rparr> w)"
  shows "tick I ctx now w = (fst w @ greet_lines text hostname elapsed (lead now), snd w)"
  using assms(1) unfolding greet_clients_def list.set insert_iff empty_iff prod.inject
  by (elim disjE conjE)
    (simp_all only: unary_client.tick_lines [OF assms(2)] direct_client.tick_lines [OF assms(2)] k8s_client.tick_lines [OF assms(2)]
      consul_client.tick_lines [OF assms(2)] polaris_client.tick_lines [OF assms(2)] nacos_client.tick_lines [OF assms(2)])

text \<open>
  Every greeting client works with every greeting server: a tick of any of the six clients against
  any of the five servers, whatever registry connects them, leaves exactly three lines: the server's
  print of the request, its interceptor's line, which names the method \<^verbatim>\<open>/unary.Greeter/Greet\<close> although the
  client called \<^verbatim>\<open>/unary.Greeter/greet\<close>, and the client's line with the greeting or the error's text.
\<close>

theorem greet_every_pair:
  assumes "(greet, intercept) \<in> set greet_servers" "(lead, tick) \<in> set greet_clients"
    and "grpc_serves I Greeter_serviceDesc \<lparr>greeter_Greet = greet text hostname gs\<rparr> (Some (intercept elapsed))
      greeter_type_name greeter_msg_wf sc"
  shows "tick I ctx now w = (fst w @ greet_lines text hostname elapsed (lead now), snd w)"
  by (rule greet_clients_law [OF assms(2)], rule greet_servers_law [OF assms(1,3)]) (simp only: greeter_Request.simps utf8_kevin)

theorem greet_every_pair_witness:
  "consul_tick (local_conn Greeter_serviceDesc \<lparr>greeter_Greet = nacos_Greet (\<lambda>_. ''req'') (Inr ''h1'') nacos_NewGreetServer\<rparr>
      (Some (nacos_interceptor ''1ms'')) greeter_type_name) () ''12:00:00'' ([], ()) =
    ([(LInfo, ''=> req''), (LInfo, ''method: /unary.Greeter/Greet time: 1ms''), (LInfo, ''12:00:00 => hello from h1'')], ())"
proof -
  have "(nacos_Greet, nacos_interceptor) \<in> set greet_servers" "(\<lambda>now. now @ '' '', consul_tick) \<in> set greet_clients"
    by (simp_all add: greet_servers_def greet_clients_def)
  from greet_every_pair [OF this local_conn_serves, of "\<lambda>_. ''req''" "Inr ''h1''" nacos_NewGreetServer "''1ms''" "()" "''12:00:00''" "([], ())"]
  show ?thesis by (simp add: greet_lines_def)
qed

text \<open>
  C20. The proxy is transparent: when it has a connection to a greeting server, a call to the proxy has
  the effects and the outcome of a call to that server made with the context the proxy received, errors
  included; when it has none, the client gets that error as a status and nothing else happens.
\<close>

theorem proxy_transparent:
  assumes "grpc_serves I Greeter_serviceDesc (fst (proxy_main TakeConn)) (snd (proxy_main TakeConn)) greeter_type_name greeter_msg_wf sc"
    and "(greet, intercept) \<in> set greet_servers"
    and "grpc_serves B Greeter_serviceDesc \<lparr>greeter_Greet = greet text hostname gs\<rparr> (Some (intercept elapsed))
      greeter_type_name greeter_msg_wf sb"
    and "utf8_valid (greeter_Request_Name req)"
  shows "(TakeConn (sc ctx) w = (w', Inr B) \<longrightarrow> greeterClient_Greet I ctx req w = greeterClient_Greet B (sc ctx) req w') \<and>
    (TakeConn (sc ctx) w = (w', Inl err) \<longrightarrow> greeterClient_Greet I ctx req w = (w', Inl (status_of err)))"
proof -
  have "greeterClient_Greet I ctx req w = map_err status_of (proxy_Greet TakeConn (sc ctx) req w)"
    using greeter_stub.stub_plain [of I "fst (proxy_main TakeConn)" sc req ctx w] assms(1,4) by (simp add: proxy_main_def)
  moreover have "map_err status_of (greeterClient_Greet B (sc ctx) req w') = greeterClient_Greet B (sc ctx) req w'"
    by (simp only: greet_servers_law [OF assms(2,3,4)] map_err_idem)
  ultimately show ?thesis by (simp add: proxy_Greet_def)
qed

definition demo_backend :: "(unit, greeter_msg, unit logged) grpc_conn" where
  "demo_backend = local_conn Greeter_serviceDesc \<lparr>greeter_Greet = unary_Greet (\<lambda>_. ''req'') (Inr ''h1'') unary_NewGreetServer\<rparr>
     (Some (unary_interceptor ''1ms'')) greeter_type_name"

definition demo_take :: "unit \<Rightarrow> unit logged \<Rightarrow> unit logged \<times> (unit, greeter_msg, unit logged) grpc_conn result" where
  "demo_take c w = (w, Inr demo_backend)"

theorem proxy_transparent_witness:
  "greeterClient_Greet (local_conn Greeter_serviceDesc (fst (proxy_main demo_take)) (snd (proxy_main demo_take)) greeter_type_name) ()
     \<lparr>greeter_Request_Name = ''kevin''\<rparr> ([], ()) =
   greeterClient_Greet demo_backend () \<lparr>greeter_Request_Name = ''kevin''\<rparr> ([], ())"
proof -
  have "(unary_Greet, unary_interceptor) \<in> set greet_servers" by (simp add: greet_servers_def)
  moreover have "utf8_valid (greeter_Request_Name \<lparr>greeter_Request_Name = ''kevin''\<rparr>)"
    by (simp only: greeter_Request.simps utf8_kevin)
  ultimately show ?thesis
    using proxy_transparent [OF local_conn_serves _ local_conn_serves, of unary_Greet unary_interceptor
        "\<lparr>greeter_Request_Name = ''kevin''\<rparr>" demo_take "()" "([], ())" "([], ())" "\<lambda>_. ''req''" "Inr ''h1''" unary_NewGreetServer "''1ms''"]
    by (simp del: utf8_valid.simps add: demo_take_def demo_backend_def)
qed

end
