(* ===== verification/Relay_Services.thy ===== *)
theory Relay_Services
  imports Greet_Services
begin

text \<open>
  Services in front of services: the tracing demo (\<^verbatim>\<open>tracing\<close>: an HTTP edge calls the portal, which calls the
  user service), the graceful-restart demo in its two copies (\<^verbatim>\<open>graceful/dns\<close>, \<^verbatim>\<open>graceful/etcd\<close>: an API
  server in front of an RPC server), and the ping service behind the gateway (\<^verbatim>\<open>gateway\<close>). The gateway
  itself is a library call.
\<close>

section \<open>Tracing\<close>

record UserServer_state =
  us_alive :: bool

definition NewUserServer :: UserServer_state where
  "NewUserServer = \<lparr>us_alive = True\<rparr>"

definition UserServer_GetGrade ::
  "(user_UserRequest \<Rightarrow> string) \<Rightarrow> string result \<Rightarrow> UserServer_state \<Rightarrow> 'c \<Rightarrow> user_UserRequest \<Rightarrow> 'w logged \<Rightarrow> 'w logged \<times> user_UserResponse result" where
  "UserServer_GetGrade text hostname gs ctx req w =
     (let w = log_line LInfo (''=> '' @ text req) w
      in case hostname of
           Inl err \<Rightarrow> (w, Inl err)
         | Inr hostname \<Rightarrow> (w, Inr \<lparr>user_UserResponse_Response = ''hello from '' @ hostname\<rparr>))"

definition user_main :: "(user_UserRequest \<Rightarrow> string) \<Rightarrow> string result \<Rightarrow> ('c, 'w logged) UserServer" where
  "user_main text hostname = \<lparr>user_GetGrade = UserServer_GetGrade text hostname NewUserServer\<rparr>"

record ('c, 'w) PortalServer_state =
  userRpc :: "('c, user_msg, 'w) grpc_conn"

definition NewPortalServer :: "('c, user_msg, 'w) grpc_conn \<Rightarrow> ('c, 'w) PortalServer_state" where
  "NewPortalServer client = \<lparr>userRpc = client\<rparr>"

text \<open>An error of the user service becomes the text of a successful answer.\<close>

definition PortalServer_Portal ::
  "('c, 'w) PortalServer_state \<Rightarrow> 'c \<Rightarrow> portal_PortalRequest \<Rightarrow> 'w \<Rightarrow> 'w \<times> portal_PortalResponse result" where
  "PortalServer_Portal gs ctx req w =
     (case userClient_GetGrade (userRpc gs) ctx \<lparr>user_UserRequest_Name = portal_PortalRequest_Name req\<rparr> w of
        (w, Inl err) \<Rightarrow> (w, Inr \<lparr>portal_PortalResponse_Response = err_text err\<rparr>)
      | (w, Inr resp) \<Rightarrow> (w, Inr \<lparr>portal_PortalResponse_Response = user_UserResponse_Response resp\<rparr>))"

definition portal_main :: "('c, user_msg, 'w) grpc_conn \<Rightarrow> ('c, 'w) PortalServer" where
  "portal_main client = \<lparr>portal_Portal = PortalServer_Portal (NewPortalServer client)\<rparr>"

definition edge_handle ::
  "('c, portal_msg, 'w) grpc_conn \<Rightarrow> ('q, 'c) http_lib \<Rightarrow> 'q \<Rightarrow> 'w \<Rightarrow> 'w \<times> http_write list" where
  "edge_handle client H r w =
     (case portalClient_Portal client (Context H r) \<lparr>portal_PortalRequest_Name = ''kevin''\<rparr> w of
        (w, Inl err) \<Rightarrow> (w, [HttpJsonStatus 500 ''Internal Server Error''])
      | (w, Inr resp) \<Rightarrow> (w, [HttpJsonStr (portal_PortalResponse_Response resp)]))"

definition edge_main :: "('c, portal_msg, 'w) grpc_conn \<Rightarrow> ('q, 'c) http_lib \<Rightarrow> ('q, 'c, 'w) Route list" where
  "edge_main client H = [\<lparr>Method = ''GET'', Path = ''/'', Handler = edge_handle client H\<rparr>]"

section \<open>Graceful restart\<close>

definition dns_Grace :: "(grace_Request \<Rightarrow> string) \<Rightarrow> string result \<Rightarrow> 'c \<Rightarrow> grace_Request \<Rightarrow> 'w logged \<Rightarrow> 'w logged \<times> grace_Response result" where
  "dns_Grace text hostname ctx req w =
     (let w = log_line LInfo (''=> '' @ text req) w
      in case hostname of
           Inl err \<Rightarrow> (w, Inl err)
         | Inr hostname \<Rightarrow> (w, Inr \<lparr>grace_Response_Host = hostname\<rparr>))"

text \<open>\<open>due\<close> says whether the handler's executor runs the print or discards it.\<close>

definition dns_gracefulHandler ::
  "string result \<Rightarrow> ('c, grace_msg, 'w logged) grpc_conn \<Rightarrow> 'c \<Rightarrow> bool \<Rightarrow> string \<Rightarrow> 'q \<Rightarrow> 'w logged \<Rightarrow> 'w logged \<times> http_write list" where
  "dns_gracefulHandler hostname client background due now r w =
     (case hostname of
        Inl err \<Rightarrow> (w, [HttpErrorText 501 ''Not Implemented''])
      | Inr host \<Rightarrow>
          (case graceClient_Grace client background \<lparr>grace_Request_From = host\<rparr> w of
             (w, Inl err) \<Rightarrow> (log_line LError (err_text err) w, [HttpErrorText 502 ''Bad Gateway''])
           | (w, Inr rp) \<Rightarrow>
               let w = (if due then log_line LInfo (now @ '' from host: '' @ grace_Response_Host rp) w else w)
               in (w, [HttpJson 200 [(''host'', False, JStr (grace_Response_Host rp)), (''time'', False, JInt 0)]])))"

definition dns_routes ::
  "string result \<Rightarrow> ('c, grace_msg, 'w logged) grpc_conn \<Rightarrow> 'c \<Rightarrow> bool \<Rightarrow> string \<Rightarrow> ('q, 'c, 'w logged) Route list" where
  "dns_routes hostname client background due now =
     [\<lparr>Method = ''GET'', Path = ''/api/graceful'', Handler = dns_gracefulHandler hostname client background due now\<rparr>]"

definition etcd_Grace :: "(grace_Request \<Rightarrow> string) \<Rightarrow> string result \<Rightarrow> 'c \<Rightarrow> grace_Request \<Rightarrow> 'w logged \<Rightarrow> 'w logged \<times> grace_Response result" where
  "etcd_Grace text hostname ctx req w =
     (let w = log_line LInfo (''=> '' @ text req) w
      in case hostname of
           Inl err \<Rightarrow> (w, Inl err)
         | Inr hostname \<Rightarrow> (w, Inr \<lparr>grace_Response_Host = hostname\<rparr>))"

text \<open>\<open>due\<close> says whether the handler's executor runs the print or discards it.\<close>

definition etcd_gracefulHandler ::
  "string result \<Rightarrow> ('c, grace_msg, 'w logged) grpc_conn \<Rightarrow> 'c \<Rightarrow> bool \<Rightarrow> string \<Rightarrow> 'q \<Rightarrow> 'w logged \<Rightarrow> 'w logged \<times> http_write list" where
  "etcd_gracefulHandler hostname client background due now r w =
     (case hostname of
        Inl err \<Rightarrow> (w, [HttpErrorText 501 ''Not Implemented''])
      | Inr host \<Rightarrow>
          (case graceClient_Grace client background \<lparr>grace_Request_From = host\<rparr> w of
             (w, Inl err) \<Rightarrow> (log_line LError (err_text err) w, [HttpErrorText 502 ''Bad Gateway''])
           | (w, Inr rp) \<Rightarrow>
               let w = (if due then log_line LInfo (now @ '' from host: '' @ grace_Response_Host rp) w else w)
               in (w, [HttpJson 200 [(''host'', False, JStr (grace_Response_Host rp)), (''time'', False, JInt 0)]])))"

definition etcd_routes ::
  "string result \<Rightarrow> ('c, grace_msg, 'w logged) grpc_conn \<Rightarrow> 'c \<Rightarrow> bool \<Rightarrow> string \<Rightarrow> ('q, 'c, 'w logged) Route list" where
  "etcd_routes hostname client background due now =
     [\<lparr>Method = ''GET'', Path = ''/api/graceful'', Handler = etcd_gracefulHandler hostname client background due now\<rparr>]"

section \<open>Ping\<close>

definition PingLogic_Ping :: "hello_Request \<Rightarrow> hello_Response result" where
  "PingLogic_Ping req = Inr \<lparr>hello_Response_Pong = hello_Request_Ping req\<rparr>"

definition HelloServer_Ping :: "'c \<Rightarrow> hello_Request \<Rightarrow> 'w \<Rightarrow> 'w \<times> hello_Response result" where
  "HelloServer_Ping ctx req w = (w, PingLogic_Ping req)"

definition UnimplementedHelloServer_Ping :: "'c \<Rightarrow> hello_Request \<Rightarrow> 'w \<Rightarrow> 'w \<times> hello_Response result" where
  "UnimplementedHelloServer_Ping ctx req w = (w, Inl (Status 12 ''method Ping not implemented''))"

definition defaultHello_Ping :: "('c, hello_msg, 'w) grpc_conn \<Rightarrow> 'c \<Rightarrow> hello_Request \<Rightarrow> 'w \<Rightarrow> 'w \<times> hello_Response result" where
  "defaultHello_Ping cli ctx req w = helloClient_Ping cli ctx req w"

section \<open>Properties\<close>

lemma ping_roundtrip:
  assumes "grpc_serves I Hello_serviceDesc \<lparr>hello_Ping = HelloServer_Ping\<rparr> None hello_type_name hello_msg_wf sc"
    and "utf8_valid (hello_Request_Ping req)"
  shows "defaultHello_Ping I ctx req w = (w, Inr \<lparr>hello_Response_Pong = hello_Request_Ping req\<rparr>)"
  using hello_stub.stub_plain [OF assms(1), of req] assms(2)
  by (simp add: defaultHello_Ping_def HelloServer_Ping_def PingLogic_Ping_def)

text \<open>Every branch of the graceful handlers, over a linked server.\<close>

lemma graceful_answers:
  assumes "grpc_serves I GraceService_serviceDesc \<lparr>grace_Grace = dns_Grace text there\<rparr> None grace_type_name grace_msg_wf sc"
    and "\<And>h. here = Inr h \<Longrightarrow> utf8_valid h"
  shows "snd (dns_gracefulHandler here I ctx due now r w) =
    (case here of
       Inl _ \<Rightarrow> [HttpErrorText 501 ''Not Implemented'']
     | Inr _ \<Rightarrow> (case there of Inl _ \<Rightarrow> [HttpErrorText 502 ''Bad Gateway'']
         | Inr h \<Rightarrow> [HttpJson 200 [(''host'', False, JStr h), (''time'', False, JInt 0)]]))"
proof (cases here)
  case (Inr h)
  have "graceClient_Grace I ctx \<lparr>grace_Request_From = h\<rparr> w = map_err status_of (dns_Grace text there (sc ctx) \<lparr>grace_Request_From = h\<rparr> w)"
    using grace_stub.stub_plain [OF assms(1), of "\<lparr>grace_Request_From = h\<rparr>"] assms(2) [OF Inr] by simp
  with Inr show ?thesis by (cases there) (simp_all add: dns_gracefulHandler_def dns_Grace_def Let_def)
qed (simp add: dns_gracefulHandler_def)

lemma graceful_copies: "etcd_Grace = dns_Grace" "etcd_gracefulHandler = dns_gracefulHandler"
  by (simp_all add: fun_eq_iff etcd_Grace_def dns_Grace_def etcd_gracefulHandler_def dns_gracefulHandler_def)

lemma utf8_kevin_portal: "utf8_valid (portal_PortalRequest_Name \<lparr>portal_PortalRequest_Name = ''kevin''\<rparr>)"
  by (simp only: portal_PortalRequest.simps utf8_kevin)

lemma utf8_kevin_user: "utf8_valid (user_UserRequest_Name \<lparr>user_UserRequest_Name = ''kevin''\<rparr>)"
  by (simp only: user_UserRequest.simps utf8_kevin)

lemma edge_answer:
  assumes "grpc_serves P Portal_serviceDesc (portal_main U) None portal_type_name portal_msg_wf sc"
    and "userClient_GetGrade U (sc (Context H r)) \<lparr>user_UserRequest_Name = ''kevin''\<rparr> w = (w', res)"
  shows "edge_handle P H r w =
    (w', [HttpJsonStr (case res of Inl err \<Rightarrow> err_text err | Inr resp \<Rightarrow> user_UserResponse_Response resp)])"
proof -
  have "portalClient_Portal P (Context H r) \<lparr>portal_PortalRequest_Name = ''kevin''\<rparr> w =
      map_err status_of (PortalServer_Portal (NewPortalServer U) (sc (Context H r)) \<lparr>portal_PortalRequest_Name = ''kevin''\<rparr> w)"
    using portal_stub.stub_plain [OF assms(1), of "\<lparr>portal_PortalRequest_Name = ''kevin''\<rparr>"] utf8_kevin_portal
    by (simp del: utf8_valid.simps add: portal_main_def)
  with assms(2) show ?thesis
    by (cases res) (simp_all add: edge_handle_def PortalServer_Portal_def NewPortalServer_def)
qed

text \<open>
  C26. The tracing chain hides failures: whenever the portal is reachable, \<^verbatim>\<open>GET /\<close> at the edge answers
  200, with the user service's greeting when that service works, and otherwise with the text of the gRPC status that its
  error became, or of the error of reaching it, in place of the greeting. Over a linked user service the answer
  is its host's name or \<^verbatim>\<open>rpc error: code = Unknown desc = \<close> and its host-name error, after it printed the request once; the answer 500 is for a
  portal that cannot be reached.
\<close>

theorem tracing_chain:
  assumes "grpc_serves P Portal_serviceDesc (portal_main U) None portal_type_name portal_msg_wf sc"
  shows "(\<exists>text. snd (serve (edge_main P H) (''GET'', ''/'', r) w) = [HttpJsonStr text]) \<and>
    (grpc_serves U User_serviceDesc (user_main show hostname) None user_type_name user_msg_wf su \<longrightarrow>
       serve (edge_main P H) (''GET'', ''/'', r) w =
         ((fst w @ [(LInfo, ''=> '' @ show \<lparr>user_UserRequest_Name = ''kevin''\<rparr>)], snd w),
          [HttpJsonStr (case hostname of Inl err \<Rightarrow> err_text (status_of err) | Inr h \<Rightarrow> ''hello from '' @ h)])) \<and>
    (fst (userClient_GetGrade U (sc (Context H r)) \<lparr>user_UserRequest_Name = ''kevin''\<rparr> w) = w \<and>
     snd (userClient_GetGrade U (sc (Context H r)) \<lparr>user_UserRequest_Name = ''kevin''\<rparr> w) = Inl err \<longrightarrow>
       serve (edge_main P H) (''GET'', ''/'', r) w = (w, [HttpJsonStr (err_text err)]))"
proof (intro conjI impI)
  have s: "serve (edge_main P H) (''GET'', ''/'', r) w = edge_handle P H r w"
    by (simp add: serve_def route_for_def edge_main_def)
  obtain w' res where u: "userClient_GetGrade U (sc (Context H r)) \<lparr>user_UserRequest_Name = ''kevin''\<rparr> w = (w', res)"
    by fastforce
  note e = edge_answer [OF assms u]
  show "\<exists>text. snd (serve (edge_main P H) (''GET'', ''/'', r) w) = [HttpJsonStr text]" by (simp add: s e)
  show "serve (edge_main P H) (''GET'', ''/'', r) w =
      ((fst w @ [(LInfo, ''=> '' @ show \<lparr>user_UserRequest_Name = ''kevin''\<rparr>)], snd w),
       [HttpJsonStr (case hostname of Inl err \<Rightarrow> err_text (status_of err) | Inr h \<Rightarrow> ''hello from '' @ h)])"
    if "grpc_serves U User_serviceDesc (user_main show hostname) None user_type_name user_msg_wf su"
  proof -
    have "(w', res) = map_err status_of (UserServer_GetGrade show hostname NewUserServer (su (sc (Context H r)))
        \<lparr>user_UserRequest_Name = ''kevin''\<rparr> w)"
      using user_stub.stub_plain [OF that, of "\<lparr>user_UserRequest_Name = ''kevin''\<rparr>"] utf8_kevin_user u
      by (simp del: utf8_valid.simps add: user_main_def)
    then show ?thesis
      by (cases hostname) (simp_all add: s e UserServer_GetGrade_def log_line_def)
  qed
  show "serve (edge_main P H) (''GET'', ''/'', r) w = (w, [HttpJsonStr (err_text err)])"
    if "fst (userClient_GetGrade U (sc (Context H r)) \<lparr>user_UserRequest_Name = ''kevin''\<rparr> w) = w \<and>
      snd (userClient_GetGrade U (sc (Context H r)) \<lparr>user_UserRequest_Name = ''kevin''\<rparr> w) = Inl err"
    using that u by (simp add: s e)
qed

definition demo_user :: "(unit, user_msg, unit logged) grpc_conn" where
  "demo_user = local_conn User_serviceDesc (user_main (\<lambda> _. ''req'') (Inl (Errorf ''no host''))) None user_type_name"

definition demo_http :: "(unit, unit) http_lib" where
  "demo_http = \<lparr>Context = (\<lambda> _. ()), RemoteAddr = (\<lambda> _. []), Parse = (\<lambda> _ _. Inr [])\<rparr>"

theorem tracing_chain_witness:
  "serve (edge_main (local_conn Portal_serviceDesc (portal_main demo_user) None portal_type_name) demo_http) (''GET'', ''/'', ()) ([], ()) =
    (([(LInfo, ''=> req'')], ()), [HttpJsonStr ''rpc error: code = Unknown desc = no host''])"
proof -
  have "grpc_serves demo_user User_serviceDesc (user_main (\<lambda>_. ''req'') (Inl (Errorf ''no host''))) None user_type_name user_msg_wf id"
    unfolding demo_user_def by (rule local_conn_serves)
  then show ?thesis
    using tracing_chain [OF local_conn_serves, of demo_user demo_http "()" "([], ())" "\<lambda>_. ''req''" "Inl (Errorf ''no host'')" id] by simp
qed

end
