(* ===== verification/Service_Mains.thy ===== *)
theory Service_Mains
  imports Book_Service Tls_Shorturl File_Server Relay_Services
begin

text \<open>
  The programs around the layered services: their configuration structs, service contexts and \<^verbatim>\<open>main\<close> functions
  (\<^verbatim>\<open>shorturl\<close>, \<^verbatim>\<open>bookstore\<close>, \<^verbatim>\<open>rpc/tls/shorturl/api\<close>, \<^verbatim>\<open>http/upload\<close>, \<^verbatim>\<open>http/download\<close>, \<^verbatim>\<open>monolithic\<close>, \<^verbatim>\<open>graceful\<close>, \<^verbatim>\<open>gateway\<close>).
  A main loads its configuration, builds what it serves and starts, or ends with the first error. Loading, dialling
  and the construction of servers are parameters. The lemmas at the end take programs that have started to the
  hypotheses of the services' theorems.
\<close>

section \<open>Configurations and programs\<close>

text \<open>The embedded library structs, as far as the programs read them; a record extension is Go's embedding.\<close>

record RestConf =
  rc_Host :: string
  rc_Port :: "64 word"

record RpcServerConf =
  rs_ListenOn :: string

record 'e transform_Config = RpcServerConf +
  tc_DataSource :: string
  tc_Table :: string
  tc_Cache :: 'e

record 'k shorturl_Config = RestConf +
  sc_Transform :: 'k

record 'e add_Config = RpcServerConf +
  ad_DataSource :: string
  ad_Cache :: 'e

record 'e check_Config = RpcServerConf +
  ch_DataSource :: string
  ch_Cache :: 'e

record 'k bookstore_Config = RestConf +
  bc_Add :: 'k
  bc_Check :: 'k

record 'k tls_api_Config = RestConf +
  ta_Transform :: 'k

record upload_Config = RestConf +
  up_Path :: string

record mono_Config = RestConf +
  mo_Path :: string

record 'k dns_Config = RestConf +
  dn_Rpc :: 'k

record 'k etcd_Config = RestConf +
  et_Rpc :: 'k

text \<open>What a started program is: its address, whether \<^verbatim>\<open>rest.WithCors\<close> puts its headers in front of what the routes answer, the routes, and what it printed on the way.\<close>

record ('q, 'c, 'w) http_program =
  hp_conf :: RestConf
  hp_cors :: bool
  hp_routes :: "('q, 'c, 'w) Route list"
  hp_lines :: "string list"

record 's rpc_program =
  rp_listen :: string
  rp_impl :: 's
  rp_lines :: "string list"

definition and_then :: "'a result \<Rightarrow> ('a \<Rightarrow> 'b result) \<Rightarrow> 'b result" where
  "and_then r k = (case r of Inl err \<Rightarrow> Inl err | Inr x \<Rightarrow> k x)"

lemma and_then_ok: "and_then r k = Inr y \<longleftrightarrow> (\<exists>x. r = Inr x \<and> k x = Inr y)"
  by (cases r) (simp_all add: and_then_def)

lemma and_then_err: "and_then r k = Inl err \<longleftrightarrow> r = Inl err \<or> (\<exists>x. r = Inr x \<and> k x = Inl err)"
  by (cases r) (simp_all add: and_then_def)

definition starting_http :: "RestConf \<Rightarrow> string" where
  "starting_http c = ''Starting server at '' @ rc_Host c @ '':'' @ itoa (rc_Port c) @ ''...''"

definition starting_rpc :: "string \<Rightarrow> string" where
  "starting_rpc listenOn = ''Starting rpc server at '' @ listenOn @ ''...''"

section \<open>The short-URL programs\<close>

text \<open>\<open>Open\<close> is \<^verbatim>\<open>sqlx.NewMysql\<close> of the data source with the cache's configuration; the table's name in the configuration is not read.\<close>

definition transform_main ::
  "(string \<Rightarrow> 'e transform_Config result) \<Rightarrow> (string \<Rightarrow> 'e \<Rightarrow> ('c, Shorturl, 'w) mysql_lib) \<Rightarrow> (string \<Rightarrow> string) \<Rightarrow>
   (RpcServerConf \<Rightarrow> unit result) \<Rightarrow> string \<Rightarrow> ('c, 'w) TransformerServer rpc_program result" where
  "transform_main MustLoad Open md5hex NewServer configFile =
     and_then (MustLoad configFile) (\<lambda>c.
       let ctx = rpc_NewServiceContext (Open (tc_DataSource c) (tc_Cache c)); transformerSrv = NewTransformerServer md5hex ctx
       in and_then (NewServer (RpcServerConf.truncate c)) (\<lambda>_.
            Inr \<lparr>rp_listen = rs_ListenOn c, rp_impl = transformerSrv, rp_lines = [starting_rpc (rs_ListenOn c)]\<rparr>))"

definition shorturl_main ::
  "(string \<Rightarrow> 'k shorturl_Config result) \<Rightarrow> ('k \<Rightarrow> ('c, transform_msg, 'w) grpc_conn result) \<Rightarrow> (RestConf \<Rightarrow> unit result) \<Rightarrow>
   json_lib \<Rightarrow> ('q, 'c) http_lib \<Rightarrow> string \<Rightarrow> ('q, 'c, 'w) http_program result" where
  "shorturl_main MustLoad MustNewClient MustNewServer J H configFile =
     and_then (MustLoad configFile) (\<lambda>c.
     and_then (MustNewClient (sc_Transform c)) (\<lambda>conn.
       let ctx = api_NewServiceContext J conn
       in and_then (MustNewServer (RestConf.truncate c)) (\<lambda>_.
            Inr \<lparr>hp_conf = RestConf.truncate c, hp_cors = False, hp_routes = shorturl_routes H ctx, hp_lines = []\<rparr>)))"

text \<open>Over TLS the client is dialled with the credentials that the service context loads.\<close>

definition tls_api_main ::
  "(string \<Rightarrow> 'k tls_api_Config result) \<Rightarrow> ('cert, 'pool, 'cred) tls_lib \<Rightarrow> ('k \<Rightarrow> 'cred \<Rightarrow> ('c, transform_msg, 'w) grpc_conn result) \<Rightarrow>
   (RestConf \<Rightarrow> unit result) \<Rightarrow> json_lib \<Rightarrow> ('q, 'c) http_lib \<Rightarrow> string \<Rightarrow> ('q, 'c, 'w) http_program result" where
  "tls_api_main MustLoad X MustNewClient MustNewServer J H configFile =
     and_then (MustLoad configFile) (\<lambda>c.
     and_then (tls_api_NewServiceContext X J (MustNewClient (ta_Transform c))) (\<lambda>ctx.
     and_then (MustNewServer (RestConf.truncate c)) (\<lambda>_.
       Inr \<lparr>hp_conf = RestConf.truncate c, hp_cors = False, hp_routes = tls_routes H ctx, hp_lines = []\<rparr>)))"

section \<open>The bookstore programs\<close>

definition add_main ::
  "(string \<Rightarrow> 'e add_Config result) \<Rightarrow> (string \<Rightarrow> 'e \<Rightarrow> (unit, Book, 'w) mysql_lib) \<Rightarrow> json_lib \<Rightarrow>
   (RpcServerConf \<Rightarrow> unit result) \<Rightarrow> string \<Rightarrow> ('c, 'w logged) AdderServer rpc_program result" where
  "add_main MustLoad Open J NewServer configFile =
     and_then (MustLoad configFile) (\<lambda>c.
       let ctx = add_NewServiceContext (Open (ad_DataSource c) (ad_Cache c)); adderSrv = NewAdderServer J ctx
       in and_then (NewServer (RpcServerConf.truncate c)) (\<lambda>_.
            Inr \<lparr>rp_listen = rs_ListenOn c, rp_impl = adderSrv, rp_lines = [starting_rpc (rs_ListenOn c)]\<rparr>))"

definition check_main ::
  "(string \<Rightarrow> 'e check_Config result) \<Rightarrow> (string \<Rightarrow> 'e \<Rightarrow> (unit, Book, 'w) mysql_lib) \<Rightarrow> json_lib \<Rightarrow>
   (RpcServerConf \<Rightarrow> unit result) \<Rightarrow> string \<Rightarrow> ('c, 'w logged) CheckerServer rpc_program result" where
  "check_main MustLoad Open J NewServer configFile =
     and_then (MustLoad configFile) (\<lambda>c.
       let ctx = check_NewServiceContext (Open (ch_DataSource c) (ch_Cache c)); checkerSrv = NewCheckerServer J ctx
       in and_then (NewServer (RpcServerConf.truncate c)) (\<lambda>_.
            Inr \<lparr>rp_listen = rs_ListenOn c, rp_impl = checkerSrv, rp_lines = [starting_rpc (rs_ListenOn c)]\<rparr>))"

definition bookstore_main ::
  "(string \<Rightarrow> 'k bookstore_Config result) \<Rightarrow> ('k \<Rightarrow> ('c, add_msg, 'w logged) grpc_conn result) \<Rightarrow>
   ('k \<Rightarrow> ('c, check_msg, 'w logged) grpc_conn result) \<Rightarrow> (RestConf \<Rightarrow> unit result) \<Rightarrow> json_lib \<Rightarrow> ('q, 'c) http_lib \<Rightarrow> string \<Rightarrow>
   ('q, 'c, 'w logged) http_program result" where
  "bookstore_main MustLoad NewAddClient NewCheckClient MustNewServer J H configFile =
     and_then (MustLoad configFile) (\<lambda>c.
     and_then (NewAddClient (bc_Add c)) (\<lambda>addConn.
     and_then (NewCheckClient (bc_Check c)) (\<lambda>checkConn.
       let ctx = book_NewServiceContext addConn checkConn
       in and_then (MustNewServer (RestConf.truncate c)) (\<lambda>_.
            Inr \<lparr>hp_conf = RestConf.truncate c, hp_cors = True, hp_routes = book_routes J H ctx,
              hp_lines = [starting_http (RestConf.truncate c)]\<rparr>))))"

section \<open>The file services\<close>

record upload_ServiceContext = us_Config :: upload_Config
record download_ServiceContext = ds_Config :: RestConf
record mono_ServiceContext = ms_Config :: mono_Config

definition upload_NewServiceContext :: "upload_Config \<Rightarrow> upload_ServiceContext" where
  "upload_NewServiceContext c = \<lparr>us_Config = c\<rparr>"

definition download_NewServiceContext :: "RestConf \<Rightarrow> download_ServiceContext" where
  "download_NewServiceContext c = \<lparr>ds_Config = c\<rparr>"

definition mono_NewServiceContext :: "mono_Config \<Rightarrow> mono_ServiceContext" where
  "mono_NewServiceContext c = \<lparr>ms_Config = c\<rparr>"

definition upload_main ::
  "(string \<Rightarrow> upload_Config result) \<Rightarrow> (RestConf \<Rightarrow> unit result) \<Rightarrow> string \<Rightarrow> ('q file_request, 'c, fs logged) http_program result" where
  "upload_main MustLoad MustNewServer configFile =
     and_then (MustLoad configFile) (\<lambda>c.
       let ctx = upload_NewServiceContext c
       in and_then (MustNewServer (RestConf.truncate c)) (\<lambda>_.
            Inr \<lparr>hp_conf = RestConf.truncate c, hp_cors = False, hp_routes = upload_routes (up_Path (us_Config ctx)),
              hp_lines = [starting_http (RestConf.truncate c)]\<rparr>))"

definition download_main ::
  "(string \<Rightarrow> RestConf result) \<Rightarrow> (RestConf \<Rightarrow> unit result) \<Rightarrow> ('q, 'c) http_lib \<Rightarrow> string \<Rightarrow>
   ('q file_request, 'c, fs logged) http_program result" where
  "download_main MustLoad MustNewServer H configFile =
     and_then (MustLoad configFile) (\<lambda>c.
     and_then (MustNewServer c) (\<lambda>_.
       Inr \<lparr>hp_conf = c, hp_cors = False, hp_routes = download_routes H, hp_lines = [starting_http c]\<rparr>))"

definition mono_main ::
  "(string \<Rightarrow> mono_Config result) \<Rightarrow> (RestConf \<Rightarrow> unit result) \<Rightarrow> ('q, 'c) http_lib \<Rightarrow> string \<Rightarrow>
   ('q file_request, 'c, fs logged) http_program result" where
  "mono_main MustLoad MustNewServer H configFile =
     and_then (MustLoad configFile) (\<lambda>c.
       let ctx = mono_NewServiceContext c
       in and_then (MustNewServer (RestConf.truncate c)) (\<lambda>_.
            Inr \<lparr>hp_conf = RestConf.truncate c, hp_cors = False, hp_routes = mono_routes H (mo_Path (ms_Config ctx)),
              hp_lines = [starting_http (RestConf.truncate c)]\<rparr>))"

section \<open>Graceful restarts and the gateway\<close>

definition dns_rpc_main ::
  "(string \<Rightarrow> RpcServerConf result) \<Rightarrow> (RpcServerConf \<Rightarrow> unit result) \<Rightarrow> (grace_Request \<Rightarrow> string) \<Rightarrow> string result \<Rightarrow> string \<Rightarrow>
   ('c, 'w logged) GraceServiceServer rpc_program result" where
  "dns_rpc_main MustLoad MustNewServer text hostname configFile =
     and_then (MustLoad configFile) (\<lambda>c.
     and_then (MustNewServer c) (\<lambda>_.
       Inr \<lparr>rp_listen = rs_ListenOn c, rp_impl = \<lparr>grace_Grace = dns_Grace text hostname\<rparr>, rp_lines = []\<rparr>))"

definition etcd_rpc_main ::
  "(string \<Rightarrow> RpcServerConf result) \<Rightarrow> (RpcServerConf \<Rightarrow> unit result) \<Rightarrow> (grace_Request \<Rightarrow> string) \<Rightarrow> string result \<Rightarrow> string \<Rightarrow>
   ('c, 'w logged) GraceServiceServer rpc_program result" where
  "etcd_rpc_main MustLoad MustNewServer text hostname configFile =
     and_then (MustLoad configFile) (\<lambda>c.
     and_then (MustNewServer c) (\<lambda>_.
       Inr \<lparr>rp_listen = rs_ListenOn c, rp_impl = \<lparr>grace_Grace = etcd_Grace text hostname\<rparr>, rp_lines = []\<rparr>))"

definition dns_api_main ::
  "(string \<Rightarrow> 'k dns_Config result) \<Rightarrow> ('k \<Rightarrow> ('c, grace_msg, 'w logged) grpc_conn result) \<Rightarrow> (RestConf \<Rightarrow> unit result) \<Rightarrow>
   string result \<Rightarrow> 'c \<Rightarrow> bool \<Rightarrow> string \<Rightarrow> string \<Rightarrow> ('q, 'c, 'w logged) http_program result" where
  "dns_api_main MustLoad MustNewClient MustNewServer hostname background due now configFile =
     and_then (MustLoad configFile) (\<lambda>c.
     and_then (MustNewClient (dn_Rpc c)) (\<lambda>client.
     and_then (MustNewServer (RestConf.truncate c)) (\<lambda>_.
       Inr \<lparr>hp_conf = RestConf.truncate c, hp_cors = False, hp_routes = dns_routes hostname client background due now, hp_lines = []\<rparr>)))"

definition etcd_api_main ::
  "(string \<Rightarrow> 'k etcd_Config result) \<Rightarrow> ('k \<Rightarrow> ('c, grace_msg, 'w logged) grpc_conn result) \<Rightarrow> (RestConf \<Rightarrow> unit result) \<Rightarrow>
   string result \<Rightarrow> 'c \<Rightarrow> bool \<Rightarrow> string \<Rightarrow> string \<Rightarrow> ('q, 'c, 'w logged) http_program result" where
  "etcd_api_main MustLoad MustNewClient MustNewServer hostname background due now configFile =
     and_then (MustLoad configFile) (\<lambda>c.
     and_then (MustNewClient (et_Rpc c)) (\<lambda>client.
     and_then (MustNewServer (RestConf.truncate c)) (\<lambda>_.
       Inr \<lparr>hp_conf = RestConf.truncate c, hp_cors = False, hp_routes = etcd_routes hostname client background due now, hp_lines = []\<rparr>)))"

definition hello_main ::
  "(string \<Rightarrow> RpcServerConf result) \<Rightarrow> (RpcServerConf \<Rightarrow> unit result) \<Rightarrow> string \<Rightarrow> ('c, 'w) HelloServer rpc_program result" where
  "hello_main MustLoad MustNewServer configFile =
     and_then (MustLoad configFile) (\<lambda>c.
     and_then (MustNewServer c) (\<lambda>_.
       Inr \<lparr>rp_listen = rs_ListenOn c, rp_impl = \<lparr>hello_Ping = HelloServer_Ping\<rparr>, rp_lines = [starting_rpc (rs_ListenOn c)]\<rparr>))"

text \<open>
  The gateway's client: one request per tick, with the tick's time in the path, until a request fails; what it prints.
\<close>

fun gateway_client :: "string \<Rightarrow> (string \<Rightarrow> 'w \<Rightarrow> 'w \<times> string result) \<Rightarrow> string list \<Rightarrow> 'w \<Rightarrow> 'w \<times> string list" where
  "gateway_client domain Do [] w = (w, [])"
| "gateway_client domain Do (t # ts) w =
     (case Do (domain @ ''/pingHello/'' @ t) w of
        (w, Inl err) \<Rightarrow> (w, [err_text err])
      | (w, Inr body) \<Rightarrow> (case gateway_client domain Do ts w of (w, out) \<Rightarrow> (w, body # out)))"


section \<open>Started programs\<close>

lemmas main_defs = transform_main_def shorturl_main_def tls_api_main_def add_main_def check_main_def bookstore_main_def
  upload_main_def download_main_def mono_main_def dns_rpc_main_def etcd_rpc_main_def dns_api_main_def etcd_api_main_def hello_main_def

text \<open>A program starts exactly when each of its steps succeeds, and ends with the first error otherwise.\<close>

lemma bookstore_main_error:
  "bookstore_main MustLoad A C MustNewServer J H f = Inl err \<longleftrightarrow>
     MustLoad f = Inl err \<or> (\<exists>c. MustLoad f = Inr c \<and> (A (bc_Add c) = Inl err \<or> is_ok (A (bc_Add c)) \<and>
       (C (bc_Check c) = Inl err \<or> is_ok (C (bc_Check c)) \<and> MustNewServer (RestConf.truncate c) = Inl err)))"
  by (auto simp: main_defs and_then_err and_then_ok Let_def)

lemma upload_started:
  assumes "upload_main MustLoad MustNewServer f = Inr p"
  obtains c where "MustLoad f = Inr c" "hp_routes p = upload_routes (up_Path c)"
  using assms by (auto simp: main_defs and_then_ok Let_def upload_NewServiceContext_def)

lemma mono_started:
  assumes "mono_main MustLoad MustNewServer H f = Inr p"
  obtains c where "MustLoad f = Inr c" "hp_routes p = mono_routes H (mo_Path c)"
  using assms by (auto simp: main_defs and_then_ok Let_def mono_NewServiceContext_def)

lemma tls_api_started:
  assumes "tls_api_main MustLoad X MustNewClient MustNewServer J H f = Inr p"
  obtains c cred conn where "MustLoad f = Inr c" "client_loadTLSCredentials X = Inr cred" "MustNewClient (ta_Transform c) cred = Inr conn"
    "hp_routes p = tls_routes H (api_NewServiceContext J conn)"
proof -
  obtain c ctx where c: "MustLoad f = Inr c" "tls_api_NewServiceContext X J (MustNewClient (ta_Transform c)) = Inr ctx"
    "hp_routes p = tls_routes H ctx"
    using assms by (auto simp: main_defs and_then_ok)
  then obtain cred conn where d: "client_loadTLSCredentials X = Inr cred" "MustNewClient (ta_Transform c) cred = Inr conn"
    by (auto simp: tls_api_NewServiceContext_def split: sum.splits)
  with c tls_context_eq [of X cred "MustNewClient (ta_Transform c)" conn J] that show thesis by simp
qed

lemma shorturl_deployed:
  assumes "transform_main MustLoad Open md5hex NewServer f = Inr rpc"
    and "shorturl_main MustLoad' MustNewClient MustNewServer J H f' = Inr api"
    and "json_ok J" "md5_ok md5hex" "\<forall>source cache. mysql_ok (Open source cache) V shorturl_spec"
    and "spelled V short_codes"
    and "\<forall>k conn. MustNewClient k = Inr conn \<longrightarrow>
      grpc_ok conn Transformer_serviceDesc (rp_impl rpc) ic transform_type_name transform_msg_wf sc"
  obtains L conn where "shorturl_stack J conn md5hex L V ic sc" "hp_routes api = shorturl_routes H (api_NewServiceContext J conn)"
proof -
  obtain c where c: "MustLoad f = Inr c" "rp_impl rpc = shorturl_server md5hex (Open (tc_DataSource c) (tc_Cache c))"
    using assms(1) by (auto simp: main_defs and_then_ok Let_def)
  obtain k conn where k: "MustNewClient k = Inr conn" "hp_routes api = shorturl_routes H (api_NewServiceContext J conn)"
    using assms(2) by (auto simp: main_defs and_then_ok Let_def)
  show thesis by (rule that [OF _ k(2)]) (use assms c k(1) in \<open>auto simp: shorturl_stack_def\<close>)
qed

lemma bookstore_deployed:
  assumes "add_main MustLoadA Open J NewServer fa = Inr adder" "check_main MustLoadC Open J NewServer fc = Inr checker"
    and "bookstore_main MustLoad A C MustNewServer J H f = Inr api"
    and "\<forall>source cache. mysql_ok (Open source cache) V (book_spec n)"
    and "\<forall>ca cc. MustLoadA fa = Inr ca \<and> MustLoadC fc = Inr cc \<longrightarrow> ad_DataSource ca = ch_DataSource cc \<and> ad_Cache ca = ch_Cache cc"
    and "\<forall>k conn. A k = Inr conn \<longrightarrow> grpc_ok conn Adder_serviceDesc (rp_impl adder) ica add_goType add_msg_wf sc"
    and "\<forall>k conn. C k = Inr conn \<longrightarrow> grpc_ok conn Checker_serviceDesc (rp_impl checker) icc check_goType check_msg_wf sc"
  obtains L Ia Ic where "book_stack n J Ia Ic L V ica icc sc" "hp_routes api = book_routes J H (book_NewServiceContext Ia Ic)"
proof -
  obtain ca cc where m: "MustLoadA fa = Inr ca" "rp_impl adder = NewAdderServer J (add_NewServiceContext (Open (ad_DataSource ca) (ad_Cache ca)))"
    "MustLoadC fc = Inr cc" "rp_impl checker = NewCheckerServer J (check_NewServiceContext (Open (ch_DataSource cc) (ch_Cache cc)))"
    using assms(1,2) by (auto simp: main_defs and_then_ok Let_def)
  obtain k k' Ia Ic where k: "A k = Inr Ia" "C k' = Inr Ic" "hp_routes api = book_routes J H (book_NewServiceContext Ia Ic)"
    using assms(3) by (auto simp: main_defs and_then_ok Let_def)
  show thesis
    by (rule that [OF _ k(3)])
      (use assms(4-7) m k in \<open>auto simp: book_stack_def\<close>)
qed

section \<open>Properties\<close>

text \<open>
  C10. End to end, from the programs' starts: once the RPC program and the API program have started and the API's client
  reaches the server that the RPC program registered, a URL of at most 255 characters that \<^verbatim>\<open>GET /shorten\<close> accepts is answered
  with the first six digits of its MD5 hash, and after any further requests, in any order, \<^verbatim>\<open>GET /expand\<close> of that code
  answers the very URL: a short link, once given out, is never lost or redirected elsewhere.
\<close>

theorem shorturl_links_deployed:
  assumes "transform_main MustLoad Open md5hex NewServer f = Inr rpc"
    and "shorturl_main MustLoad' MustNewClient MustNewServer J H f' = Inr api"
    and "json_ok J" "md5_ok md5hex" "\<forall>source cache. mysql_ok (Open source cache) V shorturl_spec"
    and "spelled V short_codes"
    and "\<forall>k conn. MustNewClient k = Inr conn \<longrightarrow>
      grpc_ok conn Transformer_serviceDesc (rp_impl rpc) ic transform_type_name transform_msg_wf sc"
    and "codes_coherent V w"
    and "Parse H q1 [(FormField, ''url'', JStr [])] = Inr [JStr u]" "utf8_valid u"
    and "table_of V w (take 6 (md5hex u)) = None" "utf8_length u \<le> 255"
    and "text_requests H qs"
    and "Parse H q2 [(FormField, ''shorten'', JStr [])] = Inr [JStr (take 6 (md5hex u))]"
  shows "\<exists>w1. serve (hp_routes api) (''GET'', ''/shorten'', q1) w =
      (w1, [HttpJson 200 [(''shorten'', False, JStr (take 6 (md5hex u)))]]) \<and>
    snd (serve (hp_routes api) (''GET'', ''/expand'', q2) (serve_all (hp_routes api) qs w1)) =
      [HttpJson 200 [(''url'', False, JStr u)]]"
proof -
  obtain L conn where s: "shorturl_stack J conn md5hex L V ic sc" and r: "hp_routes api = shorturl_routes H (api_NewServiceContext J conn)"
    using shorturl_deployed [OF assms(1-7)] by blast
  show ?thesis unfolding r by (rule shorturl_links_permanent [OF s assms(8-14)])
qed

text \<open>
  C16. The bookstore from the programs' starts: when the two RPC programs are configured with the same database and
  cache, the API program's clients reach them, and nothing is cached for the book, \<^verbatim>\<open>GET /add\<close> of a new
  book (no stored name equals its name under the column's collation, and its price fits the column, of whatever width) answers, behind the headers of \<^verbatim>\<open>rest.WithCors\<close>, \<^verbatim>\<open>ok\<close>, \<^verbatim>\<open>GET /check\<close> of it then finds it with its price, and no layer logs an error.
\<close>

theorem bookstore_roundtrip_deployed:
  assumes "add_main MustLoadA Open J NewServer fa = Inr adder" "check_main MustLoadC Open J NewServer fc = Inr checker"
    and "bookstore_main MustLoad A C MustNewServer J H f = Inr api"
    and "\<forall>source cache. mysql_ok (Open source cache) V (book_spec n)"
    and "\<forall>ca cc. MustLoadA fa = Inr ca \<and> MustLoadC fc = Inr cc \<longrightarrow> ad_DataSource ca = ch_DataSource cc \<and> ad_Cache ca = ch_Cache cc"
    and "\<forall>k conn. A k = Inr conn \<longrightarrow> grpc_ok conn Adder_serviceDesc (rp_impl adder) ica add_goType add_msg_wf sc"
    and "\<forall>k conn. C k = Inr conn \<longrightarrow> grpc_ok conn Checker_serviceDesc (rp_impl checker) icc check_goType check_msg_wf sc"
    and "Parse H q1 [(FormField, ''book'', JStr []), (FormField, ''price'', JInt 0)] = Inr [JStr b, JInt p]"
    and "Parse H q2 [(FormField, ''book'', JStr [])] = Inr [JStr b]"
    and "utf8_valid b" "row_fits (book_spec n) \<lparr>Book_Book = b, Book_Price = p\<rparr>"
    and "table_of V (snd w) b = None" "cache_of V (snd w) (cacheBookPrefix @ b) = None"
  shows "\<exists>w1 w2 ls. serve (hp_routes api) (''GET'', ''/add'', q1) w = (w1, [HttpJson 200 [(''ok'', False, JBool True)]]) \<and>
    serve (hp_routes api) (''GET'', ''/check'', q2) w1 =
      (w2, [HttpJson 200 [(''found'', False, JBool True), (''price'', False, JInt p)]]) \<and>
    fst w2 = fst w @ ls \<and> errors_logged ls = 0"
proof -
  obtain L Ia Ic where s: "book_stack n J Ia Ic L V ica icc sc" and r: "hp_routes api = book_routes J H (book_NewServiceContext Ia Ic)"
    using bookstore_deployed [OF assms(1-7)] by blast
  show ?thesis unfolding r by (rule book_add_then_check [OF s assms(8-13)])
qed


text \<open>The reference database and connections, with configurations that load.\<close>

definition demo_transform :: "(unit, Shorturl ref_world) TransformerServer rpc_program" where
  "demo_transform = \<lparr>rp_listen = ''localhost:8080'', rp_impl = shorturl_server ref_md5 ref_shorturl_lib,
     rp_lines = [starting_rpc ''localhost:8080'']\<rparr>"

definition demo_shorturl :: "(string, unit, Shorturl ref_world) http_program" where
  "demo_shorturl = \<lparr>hp_conf = \<lparr>rc_Host = ''0.0.0.0'', rc_Port = 8888\<rparr>, hp_cors = False,
     hp_routes = shorturl_routes ref_http (api_NewServiceContext ref_json ref_conn), hp_lines = []\<rparr>"

lemma demo_shorturl_started:
  "transform_main (\<lambda>_. Inr \<lparr>rs_ListenOn = ''localhost:8080'', tc_DataSource = ''db'', tc_Table = ''shorturl'', tc_Cache = ()\<rparr>)
     (\<lambda>_ _. ref_shorturl_lib) ref_md5 (\<lambda>_. Inr ()) f = Inr demo_transform"
  "shorturl_main (\<lambda>_. Inr \<lparr>rc_Host = ''0.0.0.0'', rc_Port = 8888, sc_Transform = ()\<rparr>) (\<lambda>_. Inr ref_conn) (\<lambda>_. Inr ()) ref_json ref_http f =
     Inr demo_shorturl"
  by (simp_all add: main_defs and_then_def demo_transform_def demo_shorturl_def RestConf.truncate_def Let_def)

theorem shorturl_links_deployed_witness:
  "\<exists>w1. serve (hp_routes demo_shorturl) (''GET'', ''/shorten'', ''http://a'') (Map.empty, Map.empty) =
        (w1, [HttpJson 200 [(''shorten'', False, JStr ''aaaaaa'')]]) \<and>
      snd (serve (hp_routes demo_shorturl) (''GET'', ''/expand'', ''aaaaaa'')
        (serve_all (hp_routes demo_shorturl) [(''GET'', ''/expand'', ''bbbbbb'')] w1)) =
      [HttpJson 200 [(''url'', False, JStr ''http://a'')]]"
proof -
  have t: "text_requests ref_http [(''GET'', ''/expand'', ''bbbbbb'')]"
    by (simp add: text_requests_def ref_http_def utf8_range_def)
  have k: "take 6 (ref_md5 s) = ''aaaaaa''" for s by (simp add: ref_md5_def numeral_eq_Suc)
  have g: "\<forall>(k :: unit) conn. Inr ref_conn = (Inr conn :: _ result) \<longrightarrow>
      grpc_ok conn Transformer_serviceDesc (rp_impl demo_transform) None transform_type_name transform_msg_wf id"
    using ref_stack by (simp add: shorturl_stack_def demo_transform_def)
  have m: "\<forall>(source :: string) (cache :: unit). mysql_ok ref_shorturl_lib ref_view shorturl_spec" by (simp add: ref_shorturl_ok)
  show ?thesis
    using shorturl_links_deployed [OF demo_shorturl_started ref_json_ok ref_md5_ok m ref_spelled g ref_coherent_empty [of _ _ Map.empty] _ _ _ _ t, of "''http://a''" "''http://a''" "''aaaaaa''"]
    by (simp add: k ref_http_def utf8_range_def utf8_length_def utf8_cont_def)
qed

definition demo_adder :: "(unit, Book ref_world logged) AdderServer rpc_program" where
  "demo_adder = \<lparr>rp_listen = ''localhost:8081'', rp_impl = NewAdderServer ref_json (add_NewServiceContext ref_book_lib),
     rp_lines = [starting_rpc ''localhost:8081'']\<rparr>"

definition demo_checker :: "(unit, Book ref_world logged) CheckerServer rpc_program" where
  "demo_checker = \<lparr>rp_listen = ''localhost:8082'', rp_impl = NewCheckerServer ref_json (check_NewServiceContext ref_book_lib),
     rp_lines = [starting_rpc ''localhost:8082'']\<rparr>"

definition demo_bookstore :: "(string, unit, Book ref_world logged) http_program" where
  "demo_bookstore = (let c = \<lparr>rc_Host = ''0.0.0.0'', rc_Port = 8888\<rparr> in
     \<lparr>hp_conf = c, hp_cors = True, hp_routes = book_routes ref_json ref_book_http (book_NewServiceContext ref_add_conn ref_check_conn),
      hp_lines = [starting_http c]\<rparr>)"

lemma demo_bookstore_started:
  "add_main (\<lambda>_. Inr \<lparr>rs_ListenOn = ''localhost:8081'', ad_DataSource = ''db'', ad_Cache = ()\<rparr>)
     (\<lambda>_ _. ref_book_lib) ref_json (\<lambda>_. Inr ()) f = Inr demo_adder"
  "check_main (\<lambda>_. Inr \<lparr>rs_ListenOn = ''localhost:8082'', ch_DataSource = ''db'', ch_Cache = ()\<rparr>)
     (\<lambda>_ _. ref_book_lib) ref_json (\<lambda>_. Inr ()) f = Inr demo_checker"
  "bookstore_main (\<lambda>_. Inr \<lparr>rc_Host = ''0.0.0.0'', rc_Port = 8888, bc_Add = (), bc_Check = ()\<rparr>) (\<lambda>_. Inr ref_add_conn)
     (\<lambda>_. Inr ref_check_conn) (\<lambda>_. Inr ()) ref_json ref_book_http f = Inr demo_bookstore"
  by (simp_all add: main_defs and_then_def demo_adder_def demo_checker_def demo_bookstore_def RestConf.truncate_def Let_def)

theorem bookstore_roundtrip_deployed_witness:
  "\<exists>w1 w2 ls. serve (hp_routes demo_bookstore) (''GET'', ''/add'', ''sicp'') ([], (Map.empty, Map.empty)) =
        (w1, [HttpJson 200 [(''ok'', False, JBool True)]]) \<and>
      serve (hp_routes demo_bookstore) (''GET'', ''/check'', ''sicp'') w1 =
        (w2, [HttpJson 200 [(''found'', False, JBool True), (''price'', False, JInt 30)]]) \<and>
      fst w2 = ls \<and> errors_logged ls = 0"
proof -
  have m: "\<forall>(source :: string) (cache :: unit). mysql_ok ref_book_lib ref_view (book_spec 64)" by (simp add: ref_book_ok)
  have c: "\<forall>ca cc. Inr \<lparr>rs_ListenOn = ''localhost:8081'', ad_DataSource = ''db'', ad_Cache = ()\<rparr> = (Inr ca :: _ result) \<and>
      Inr \<lparr>rs_ListenOn = ''localhost:8082'', ch_DataSource = ''db'', ch_Cache = ()\<rparr> = (Inr cc :: _ result) \<longrightarrow>
      ad_DataSource ca = ch_DataSource cc \<and> ad_Cache ca = ch_Cache cc" by auto
  have a: "\<forall>(k :: unit) conn. Inr ref_add_conn = (Inr conn :: _ result) \<longrightarrow>
      grpc_ok conn Adder_serviceDesc (rp_impl demo_adder) None add_goType add_msg_wf id"
    and b: "\<forall>(k :: unit) conn. Inr ref_check_conn = (Inr conn :: _ result) \<longrightarrow>
      grpc_ok conn Checker_serviceDesc (rp_impl demo_checker) None check_goType check_msg_wf id"
    using ref_book_stack by (simp_all add: book_stack_def demo_adder_def demo_checker_def)
  show ?thesis
    using bookstore_roundtrip_deployed [OF demo_bookstore_started m c a b,
        of "''sicp''" "''sicp''" 30 "''sicp''" "([], (Map.empty, Map.empty))"]
    by (simp add: lower_def lower_char_def ref_book_http_def book_spec_def utf8_length_def utf8_cont_def utf8_range_def)
qed

end
