(* ===== verification/Mocks.thy ===== *)
theory Mocks
  imports Shorturl_Service
begin

text \<open>
  The generated mocks of the short-URL service (\<^verbatim>\<open>shorturl/rpc/transform/model/shorturlmodel_mock.go\<close>,
  \<^verbatim>\<open>shorturl/rpc/transform/transformer/transformer_mock.go\<close> and the latter's copy under \<^verbatim>\<open>rpc/tls\<close>), and the service's logic over them,
  which is what the repository's unit tests run. The controller (\<^verbatim>\<open>gomock\<close>) is a parameter.
\<close>

section \<open>The controller\<close>

text \<open>Values of type \<^verbatim>\<open>interface{}\<close> that pass through the mocks, and what an expectation gives for an argument.\<close>

datatype 'c mock_val =
    NilV
  | CtxV 'c
  | StringV string
  | ErrorV go_error
  | ShorturlV Shorturl
  | ResultV sql_result
  | ExpandReqV cl_ExpandReq
  | ExpandRespV cl_ExpandResp
  | ShortenReqV cl_ShortenReq
  | ShortenRespV cl_ShortenResp

datatype 'c matcher = AnyM | EqM "'c mock_val"

fun matches :: "'c matcher \<Rightarrow> 'c mock_val \<Rightarrow> bool" where
  "matches AnyM v = True"
| "matches (EqM u) v = (u = v)"

text \<open>
  \<^verbatim>\<open>Call\<close> answers a call of a mocked method, or ends the test when it was not expected; \<^verbatim>\<open>RecordCallWithMethodType\<close>
  notes an expectation, on which \<^verbatim>\<open>Return\<close> and \<^verbatim>\<open>Times\<close> work. The receiver is told apart by a number.
\<close>

record ('c, 'h, 'k) Controller =
  Call :: "nat \<Rightarrow> string \<Rightarrow> 'c mock_val list \<Rightarrow> 'k \<Rightarrow> 'k \<times> 'c mock_val list result"
  RecordCallWithMethodType :: "nat \<Rightarrow> string \<Rightarrow> 'c matcher list \<Rightarrow> 'k \<Rightarrow> 'k \<times> 'h"
  call_Return :: "'h \<Rightarrow> 'c mock_val list \<Rightarrow> 'k \<Rightarrow> 'k"
  call_Times :: "'h \<Rightarrow> nat \<Rightarrow> 'k \<Rightarrow> 'k"

text \<open>\<^verbatim>\<open>ret[i]\<close> panics out of range; \<^verbatim>\<open>v, _ := ret[i].(T)\<close> is nil when the value has another type.\<close>

definition ret_at :: "'c mock_val list \<Rightarrow> nat \<Rightarrow> 'c mock_val result" where
  "ret_at ret i = (if i < length ret then Inr (ret ! i) else Inl (Panicked IndexOutOfRange))"

fun as_error :: "'c mock_val \<Rightarrow> go_error option" where
  "as_error (ErrorV e) = Some e"
| "as_error _ = None"

fun as_Shorturl :: "'c mock_val \<Rightarrow> Shorturl option" where
  "as_Shorturl (ShorturlV d) = Some d"
| "as_Shorturl _ = None"

fun as_Result :: "'c mock_val \<Rightarrow> sql_result option" where
  "as_Result (ResultV r) = Some r"
| "as_Result _ = None"

fun as_ExpandResp :: "'c mock_val \<Rightarrow> cl_ExpandResp option" where
  "as_ExpandResp (ExpandRespV r) = Some r"
| "as_ExpandResp _ = None"

fun as_ShortenResp :: "'c mock_val \<Rightarrow> cl_ShortenResp option" where
  "as_ShortenResp (ShortenRespV r) = Some r"
| "as_ShortenResp _ = None"

section \<open>The mock of the model\<close>

record ('c, 'h, 'k) Mock =
  mk_ctrl :: "('c, 'h, 'k) Controller"
  mk_self :: nat

definition NewMockshorturlModel :: "nat \<Rightarrow> ('c, 'h, 'k) Controller \<Rightarrow> ('c, 'h, 'k) Mock" where
  "NewMockshorturlModel self ctrl = \<lparr>mk_ctrl = ctrl, mk_self = self\<rparr>"

definition MockshorturlModel_Delete :: "('c, 'h, 'k) Mock \<Rightarrow> 'c \<Rightarrow> string \<Rightarrow> 'k \<Rightarrow> 'k \<times> go_error option result" where
  "MockshorturlModel_Delete m ctx shorten k =
     (case Call (mk_ctrl m) (mk_self m) ''Delete'' [CtxV ctx, StringV shorten] k of
        (k, Inl err) \<Rightarrow> (k, Inl err)
      | (k, Inr ret) \<Rightarrow> (k, map_sum id as_error (ret_at ret 0)))"

definition MockRecorder_Delete :: "('c, 'h, 'k) Mock \<Rightarrow> 'c matcher \<Rightarrow> 'c matcher \<Rightarrow> 'k \<Rightarrow> 'k \<times> 'h" where
  "MockRecorder_Delete m ctx shorten = RecordCallWithMethodType (mk_ctrl m) (mk_self m) ''Delete'' [ctx, shorten]"

definition MockshorturlModel_FindOne ::
  "('c, 'h, 'k) Mock \<Rightarrow> 'c \<Rightarrow> string \<Rightarrow> 'k \<Rightarrow> 'k \<times> (Shorturl option \<times> go_error option) result" where
  "MockshorturlModel_FindOne m ctx shorten k =
     (case Call (mk_ctrl m) (mk_self m) ''FindOne'' [CtxV ctx, StringV shorten] k of
        (k, Inl err) \<Rightarrow> (k, Inl err)
      | (k, Inr ret) \<Rightarrow>
          (k, case ret_at ret 0 of
                Inl err \<Rightarrow> Inl err
              | Inr v0 \<Rightarrow> (case ret_at ret 1 of Inl err \<Rightarrow> Inl err | Inr v1 \<Rightarrow> Inr (as_Shorturl v0, as_error v1))))"

definition MockRecorder_FindOne :: "('c, 'h, 'k) Mock \<Rightarrow> 'c matcher \<Rightarrow> 'c matcher \<Rightarrow> 'k \<Rightarrow> 'k \<times> 'h" where
  "MockRecorder_FindOne m ctx shorten = RecordCallWithMethodType (mk_ctrl m) (mk_self m) ''FindOne'' [ctx, shorten]"

definition MockshorturlModel_Insert ::
  "('c, 'h, 'k) Mock \<Rightarrow> 'c \<Rightarrow> Shorturl \<Rightarrow> 'k \<Rightarrow> 'k \<times> (sql_result option \<times> go_error option) result" where
  "MockshorturlModel_Insert m ctx data k =
     (case Call (mk_ctrl m) (mk_self m) ''Insert'' [CtxV ctx, ShorturlV data] k of
        (k, Inl err) \<Rightarrow> (k, Inl err)
      | (k, Inr ret) \<Rightarrow>
          (k, case ret_at ret 0 of
                Inl err \<Rightarrow> Inl err
              | Inr v0 \<Rightarrow> (case ret_at ret 1 of Inl err \<Rightarrow> Inl err | Inr v1 \<Rightarrow> Inr (as_Result v0, as_error v1))))"

definition MockRecorder_Insert :: "('c, 'h, 'k) Mock \<Rightarrow> 'c matcher \<Rightarrow> 'c matcher \<Rightarrow> 'k \<Rightarrow> 'k \<times> 'h" where
  "MockRecorder_Insert m ctx data = RecordCallWithMethodType (mk_ctrl m) (mk_self m) ''Insert'' [ctx, data]"

definition MockshorturlModel_Update :: "('c, 'h, 'k) Mock \<Rightarrow> 'c \<Rightarrow> Shorturl \<Rightarrow> 'k \<Rightarrow> 'k \<times> go_error option result" where
  "MockshorturlModel_Update m ctx data k =
     (case Call (mk_ctrl m) (mk_self m) ''Update'' [CtxV ctx, ShorturlV data] k of
        (k, Inl err) \<Rightarrow> (k, Inl err)
      | (k, Inr ret) \<Rightarrow> (k, map_sum id as_error (ret_at ret 0)))"

definition MockRecorder_Update :: "('c, 'h, 'k) Mock \<Rightarrow> 'c matcher \<Rightarrow> 'c matcher \<Rightarrow> 'k \<Rightarrow> 'k \<times> 'h" where
  "MockRecorder_Update m ctx data = RecordCallWithMethodType (mk_ctrl m) (mk_self m) ''Update'' [ctx, data]"

section \<open>The mock of the client package\<close>

definition NewMockTransformer :: "nat \<Rightarrow> ('c, 'h, 'k) Controller \<Rightarrow> ('c, 'h, 'k) Mock" where
  "NewMockTransformer self ctrl = \<lparr>mk_ctrl = ctrl, mk_self = self\<rparr>"

definition MockTransformer_Expand ::
  "('c, 'h, 'k) Mock \<Rightarrow> 'c \<Rightarrow> cl_ExpandReq \<Rightarrow> 'k \<Rightarrow> 'k \<times> (cl_ExpandResp option \<times> go_error option) result" where
  "MockTransformer_Expand m ctx req k =
     (case Call (mk_ctrl m) (mk_self m) ''Expand'' [CtxV ctx, ExpandReqV req] k of
        (k, Inl err) \<Rightarrow> (k, Inl err)
      | (k, Inr ret) \<Rightarrow>
          (k, case ret_at ret 0 of
                Inl err \<Rightarrow> Inl err
              | Inr v0 \<Rightarrow> (case ret_at ret 1 of Inl err \<Rightarrow> Inl err | Inr v1 \<Rightarrow> Inr (as_ExpandResp v0, as_error v1))))"

definition MockRecorder_Expand :: "('c, 'h, 'k) Mock \<Rightarrow> 'c matcher \<Rightarrow> 'c matcher \<Rightarrow> 'k \<Rightarrow> 'k \<times> 'h" where
  "MockRecorder_Expand m ctx req = RecordCallWithMethodType (mk_ctrl m) (mk_self m) ''Expand'' [ctx, req]"

definition MockTransformer_Shorten ::
  "('c, 'h, 'k) Mock \<Rightarrow> 'c \<Rightarrow> cl_ShortenReq \<Rightarrow> 'k \<Rightarrow> 'k \<times> (cl_ShortenResp option \<times> go_error option) result" where
  "MockTransformer_Shorten m ctx req k =
     (case Call (mk_ctrl m) (mk_self m) ''Shorten'' [CtxV ctx, ShortenReqV req] k of
        (k, Inl err) \<Rightarrow> (k, Inl err)
      | (k, Inr ret) \<Rightarrow>
          (k, case ret_at ret 0 of
                Inl err \<Rightarrow> Inl err
              | Inr v0 \<Rightarrow> (case ret_at ret 1 of Inl err \<Rightarrow> Inl err | Inr v1 \<Rightarrow> Inr (as_ShortenResp v0, as_error v1))))"

definition MockRecorder_Shorten :: "('c, 'h, 'k) Mock \<Rightarrow> 'c matcher \<Rightarrow> 'c matcher \<Rightarrow> 'k \<Rightarrow> 'k \<times> 'h" where
  "MockRecorder_Shorten m ctx req = RecordCallWithMethodType (mk_ctrl m) (mk_self m) ''Shorten'' [ctx, req]"

text \<open>The copy under \<^verbatim>\<open>rpc/tls\<close>.\<close>

definition tls_NewMockTransformer :: "nat \<Rightarrow> ('c, 'h, 'k) Controller \<Rightarrow> ('c, 'h, 'k) Mock" where
  "tls_NewMockTransformer self ctrl = \<lparr>mk_ctrl = ctrl, mk_self = self\<rparr>"

definition tls_MockTransformer_Expand ::
  "('c, 'h, 'k) Mock \<Rightarrow> 'c \<Rightarrow> cl_ExpandReq \<Rightarrow> 'k \<Rightarrow> 'k \<times> (cl_ExpandResp option \<times> go_error option) result" where
  "tls_MockTransformer_Expand m ctx req k =
     (case Call (mk_ctrl m) (mk_self m) ''Expand'' [CtxV ctx, ExpandReqV req] k of
        (k, Inl err) \<Rightarrow> (k, Inl err)
      | (k, Inr ret) \<Rightarrow>
          (k, case ret_at ret 0 of
                Inl err \<Rightarrow> Inl err
              | Inr v0 \<Rightarrow> (case ret_at ret 1 of Inl err \<Rightarrow> Inl err | Inr v1 \<Rightarrow> Inr (as_ExpandResp v0, as_error v1))))"

definition tls_MockRecorder_Expand :: "('c, 'h, 'k) Mock \<Rightarrow> 'c matcher \<Rightarrow> 'c matcher \<Rightarrow> 'k \<Rightarrow> 'k \<times> 'h" where
  "tls_MockRecorder_Expand m ctx req = RecordCallWithMethodType (mk_ctrl m) (mk_self m) ''Expand'' [ctx, req]"

definition tls_MockTransformer_Shorten ::
  "('c, 'h, 'k) Mock \<Rightarrow> 'c \<Rightarrow> cl_ShortenReq \<Rightarrow> 'k \<Rightarrow> 'k \<times> (cl_ShortenResp option \<times> go_error option) result" where
  "tls_MockTransformer_Shorten m ctx req k =
     (case Call (mk_ctrl m) (mk_self m) ''Shorten'' [CtxV ctx, ShortenReqV req] k of
        (k, Inl err) \<Rightarrow> (k, Inl err)
      | (k, Inr ret) \<Rightarrow>
          (k, case ret_at ret 0 of
                Inl err \<Rightarrow> Inl err
              | Inr v0 \<Rightarrow> (case ret_at ret 1 of Inl err \<Rightarrow> Inl err | Inr v1 \<Rightarrow> Inr (as_ShortenResp v0, as_error v1))))"

definition tls_MockRecorder_Shorten :: "('c, 'h, 'k) Mock \<Rightarrow> 'c matcher \<Rightarrow> 'c matcher \<Rightarrow> 'k \<Rightarrow> 'k \<times> 'h" where
  "tls_MockRecorder_Shorten m ctx req = RecordCallWithMethodType (mk_ctrl m) (mk_self m) ''Shorten'' [ctx, req]"

section \<open>The logic over the mocks\<close>

text \<open>
  What a caller makes of a pointer and an error: the error wins, and a nil pointer without an error is
  dereferenced. The result of \<^verbatim>\<open>Insert\<close> is not looked at.
\<close>

fun deref :: "'k \<times> ('a option \<times> go_error option) result \<Rightarrow> 'k \<times> 'a result" where
  "deref (k, Inl err) = (k, Inl err)"
| "deref (k, Inr (_, Some err)) = (k, Inl err)"
| "deref (k, Inr (Some v, None)) = (k, Inr v)"
| "deref (k, Inr (None, None)) = (k, Inl (Panicked NilDereference))"

fun ignore_result :: "'k \<times> (sql_result option \<times> go_error option) result \<Rightarrow> 'k \<times> sql_result result" where
  "ignore_result (k, Inl err) = (k, Inl err)"
| "ignore_result (k, Inr (_, Some err)) = (k, Inl err)"
| "ignore_result (k, Inr (r, None)) = (k, Inr (case r of Some n \<Rightarrow> n | None \<Rightarrow> 0))"

fun error_only :: "'k \<times> go_error option result \<Rightarrow> 'k \<times> unit result" where
  "error_only (k, Inl err) = (k, Inl err)"
| "error_only (k, Inr (Some err)) = (k, Inl err)"
| "error_only (k, Inr None) = (k, Inr ())"

definition mock_model :: "('c, 'h, 'k) Mock \<Rightarrow> ('c, 'k) rpc_ServiceContext" where
  "mock_model m = \<lparr>Model = (\<lambda>ctx. \<lparr>
     op_insert = (\<lambda>d k. ignore_result (MockshorturlModel_Insert m ctx d k)),
     op_find = (\<lambda>s k. deref (MockshorturlModel_FindOne m ctx s k)),
     op_update = (\<lambda>d k. error_only (MockshorturlModel_Update m ctx d k)),
     op_delete = (\<lambda>s k. error_only (MockshorturlModel_Delete m ctx s k))\<rparr>)\<rparr>"

definition mock_transformer :: "('c, 'h, 'k) Mock \<Rightarrow> ('c, 'k) api_ServiceContext" where
  "mock_transformer m = \<lparr>api_Transformer = \<lparr>
     tr_Expand = (\<lambda>ctx r k. deref (MockTransformer_Expand m ctx r k)),
     tr_Shorten = (\<lambda>ctx r k. deref (MockTransformer_Shorten m ctx r k))\<rparr>\<rparr>"

text \<open>\<^verbatim>\<open>EXPECT().M(...).Return(...).Times(1)\<close>.\<close>

definition expect_once :: "('c, 'h, 'k) Mock \<Rightarrow> ('k \<Rightarrow> 'k \<times> 'h) \<Rightarrow> 'c mock_val list \<Rightarrow> 'k \<Rightarrow> 'k" where
  "expect_once m record rets k =
     (case record k of (k, h) \<Rightarrow> call_Times (mk_ctrl m) h 1 (call_Return (mk_ctrl m) h rets k))"

text \<open>
  The controller's contract: when nothing is expected, an expectation of one call is met by a matching call, which
  gets the values given, and nothing is expected again.
\<close>

definition ctrl_ok :: "('c, 'h, 'k) Controller \<Rightarrow> ('k \<Rightarrow> bool) \<Rightarrow> bool" where
  "ctrl_ok C idle \<longleftrightarrow> (\<forall>self meth ms args rets k k1 h. idle k \<and> list_all2 matches ms args \<and>
     RecordCallWithMethodType C self meth ms k = (k1, h) \<longrightarrow>
     (\<exists>k2. Call C self meth args (call_Times C h 1 (call_Return C h rets k1)) = (k2, Inr rets) \<and> idle k2))"

locale mocked_method =
  fixes recorder :: "('c, 'h, 'k) Mock \<Rightarrow> 'c matcher \<Rightarrow> 'c matcher \<Rightarrow> 'k \<Rightarrow> 'k \<times> 'h"
    and method_call :: "('c, 'h, 'k) Mock \<Rightarrow> 'c \<Rightarrow> 'a \<Rightarrow> 'k \<Rightarrow> 'k \<times> 'r result"
    and meth :: string
    and arg :: "'a \<Rightarrow> 'c mock_val"
    and read :: "'c mock_val list \<Rightarrow> 'r result"
  assumes recorder_law: "recorder m p q = RecordCallWithMethodType (mk_ctrl m) (mk_self m) meth [p, q]"
    and call_law: "Call (mk_ctrl m) (mk_self m) meth [CtxV ctx, arg a] k = (k', Inr ret) \<Longrightarrow> method_call m ctx a k = (k', read ret)"
begin

text \<open>A call that matches the expectation gets what the expectation returns, read at the method's types.\<close>

lemma expected_call:
  assumes "ctrl_ok (mk_ctrl m) idle" "idle k" "matches p (CtxV ctx)" "matches q (arg a)"
  shows "\<exists>k'. method_call m ctx a (expect_once m (recorder m p q) rets k) = (k', read rets) \<and> idle k'"
proof -
  obtain k1 h where r: "RecordCallWithMethodType (mk_ctrl m) (mk_self m) meth [p, q] k = (k1, h)" by fastforce
  have "list_all2 matches [p, q] [CtxV ctx, arg a]" using assms(3,4) by simp
  then obtain k2 where "Call (mk_ctrl m) (mk_self m) meth [CtxV ctx, arg a]
      (call_Times (mk_ctrl m) h 1 (call_Return (mk_ctrl m) h rets k1)) = (k2, Inr rets)" "idle k2"
    using assms(1,2) r unfolding ctrl_ok_def by blast
  moreover have "expect_once m (recorder m p q) rets k = call_Times (mk_ctrl m) h 1 (call_Return (mk_ctrl m) h rets k1)"
    by (simp add: expect_once_def recorder_law r)
  ultimately show ?thesis using call_law by auto
qed

end

definition read_two :: "('c mock_val \<Rightarrow> 'a option) \<Rightarrow> 'c mock_val list \<Rightarrow> ('a option \<times> go_error option) result" where
  "read_two conv ret = (case ret_at ret 0 of
     Inl err \<Rightarrow> Inl err
   | Inr v0 \<Rightarrow> (case ret_at ret 1 of Inl err \<Rightarrow> Inl err | Inr v1 \<Rightarrow> Inr (conv v0, as_error v1)))"

lemma read_two_simp [simp]: "read_two conv [u, v] = Inr (conv u, as_error v)"
  by (simp add: read_two_def ret_at_def)

interpretation find_mock: mocked_method MockRecorder_FindOne MockshorturlModel_FindOne "''FindOne''" StringV "read_two as_Shorturl"
  by unfold_locales (simp_all add: MockRecorder_FindOne_def MockshorturlModel_FindOne_def read_two_def)

interpretation insert_mock: mocked_method MockRecorder_Insert MockshorturlModel_Insert "''Insert''" ShorturlV "read_two as_Result"
  by unfold_locales (simp_all add: MockRecorder_Insert_def MockshorturlModel_Insert_def read_two_def)

interpretation update_mock: mocked_method MockRecorder_Update MockshorturlModel_Update "''Update''" ShorturlV
    "\<lambda>ret. map_sum id as_error (ret_at ret 0)"
  by unfold_locales (simp_all add: MockRecorder_Update_def MockshorturlModel_Update_def)

interpretation delete_mock: mocked_method MockRecorder_Delete MockshorturlModel_Delete "''Delete''" StringV
    "\<lambda>ret. map_sum id as_error (ret_at ret 0)"
  by unfold_locales (simp_all add: MockRecorder_Delete_def MockshorturlModel_Delete_def)

interpretation expand_mock: mocked_method MockRecorder_Expand MockTransformer_Expand "''Expand''" ExpandReqV "read_two as_ExpandResp"
  by unfold_locales (simp_all add: MockRecorder_Expand_def MockTransformer_Expand_def read_two_def)

interpretation shorten_mock: mocked_method MockRecorder_Shorten MockTransformer_Shorten "''Shorten''" ShortenReqV "read_two as_ShortenResp"
  by unfold_locales (simp_all add: MockRecorder_Shorten_def MockTransformer_Shorten_def read_two_def)

interpretation tls_expand_mock:
  mocked_method tls_MockRecorder_Expand tls_MockTransformer_Expand "''Expand''" ExpandReqV "read_two as_ExpandResp"
  by unfold_locales (simp_all add: tls_MockRecorder_Expand_def tls_MockTransformer_Expand_def read_two_def)

interpretation tls_shorten_mock:
  mocked_method tls_MockRecorder_Shorten tls_MockTransformer_Shorten "''Shorten''" ShortenReqV "read_two as_ShortenResp"
  by unfold_locales (simp_all add: tls_MockRecorder_Shorten_def tls_MockTransformer_Shorten_def read_two_def)

section \<open>Properties\<close>

text \<open>What a logic makes of the two values an expectation returns.\<close>

definition told :: "'a option \<Rightarrow> go_error option \<Rightarrow> ('a \<Rightarrow> 'b) \<Rightarrow> 'b result" where
  "told v err answer = (case (err, v) of
     (Some e, _) \<Rightarrow> Inl e
   | (None, Some a) \<Rightarrow> Inr (answer a)
   | (None, None) \<Rightarrow> Inl (Panicked NilDereference))"

lemma deref_told: "deref (k, Inr (v, e)) = (k, told v e (\<lambda>a. a))"
  by (cases v; cases e) (simp_all add: told_def)

text \<open>
  The unit tests of the short-URL logic, for all inputs and answers: with one expectation on the mock, the RPC
  logic and the API logic answer with the mock's error when it returns one, otherwise with its
  value (the code, for \<^verbatim>\<open>Shorten\<close>), and the expectation is used up. A mock that returns neither value nor
  error makes the logic that reads the value dereference nil.
\<close>

theorem mocked_logic:
  assumes "ctrl_ok (mk_ctrl m) idle" "idle k" "6 \<le> length (md5hex url)"
  shows "(\<exists>k'. idle k' \<and>
      rpc_Shorten md5hex (rpc_NewShortenLogic ctx (mock_model m)) \<lparr>ShortenReq_Url = url\<rparr>
        (expect_once m (MockRecorder_Insert m AnyM AnyM) [v, err] k) =
      (k', case as_error err of Some e \<Rightarrow> Inl e | None \<Rightarrow> Inr \<lparr>ShortenResp_Shorten = take 6 (md5hex url)\<rparr>)) \<and>
    (\<exists>k'. idle k' \<and>
      rpc_Expand (rpc_NewExpandLogic ctx (mock_model m)) \<lparr>ExpandReq_Shorten = code\<rparr>
        (expect_once m (MockRecorder_FindOne m AnyM AnyM) [v, err] k) =
      (k', told (as_Shorturl v) (as_error err) (\<lambda>d. \<lparr>ExpandResp_Url = Url d\<rparr>))) \<and>
    (\<exists>k'. idle k' \<and>
      api_Expand (api_NewExpandLogic ctx (mock_transformer m)) \<lparr>tyExpandReq_Shorten = code\<rparr>
        (expect_once m (MockRecorder_Expand m AnyM AnyM) [v, err] k) =
      (k', told (as_ExpandResp v) (as_error err) (\<lambda>r. \<lparr>tyExpandResp_Url = clExpandResp_Url r\<rparr>))) \<and>
    (\<exists>k'. idle k' \<and>
      api_Shorten (api_NewShortenLogic ctx (mock_transformer m)) \<lparr>tyShortenReq_Url = url\<rparr>
        (expect_once m (MockRecorder_Shorten m AnyM AnyM) [v, err] k) =
      (k', told (as_ShortenResp v) (as_error err) (\<lambda>r. \<lparr>tyShortenResp_Shorten = clShortenResp_Shorten r\<rparr>)))"
proof (intro conjI)
  obtain k' where "idle k'" "MockshorturlModel_Insert m ctx \<lparr>Shorten = take 6 (md5hex url), Url = url\<rparr>
      (expect_once m (MockRecorder_Insert m AnyM AnyM) [v, err] k) = (k', Inr (as_Result v, as_error err))"
    using insert_mock.expected_call [OF assms(1,2), of AnyM ctx AnyM "\<lparr>Shorten = take 6 (md5hex url), Url = url\<rparr>" "[v, err]"] by auto
  then show "\<exists>k'. idle k' \<and>
      rpc_Shorten md5hex (rpc_NewShortenLogic ctx (mock_model m)) \<lparr>ShortenReq_Url = url\<rparr>
        (expect_once m (MockRecorder_Insert m AnyM AnyM) [v, err] k) =
      (k', case as_error err of Some e \<Rightarrow> Inl e | None \<Rightarrow> Inr \<lparr>ShortenResp_Shorten = take 6 (md5hex url)\<rparr>)"
    using assms(3) by (auto simp: rpc_Shorten_def rpc_NewShortenLogic_def mock_model_def Let_def split: option.splits)
next
  obtain k' where "idle k'" "MockshorturlModel_FindOne m ctx code
      (expect_once m (MockRecorder_FindOne m AnyM AnyM) [v, err] k) = (k', Inr (as_Shorturl v, as_error err))"
    using find_mock.expected_call [OF assms(1,2), of AnyM ctx AnyM code "[v, err]"] by auto
  then show "\<exists>k'. idle k' \<and>
      rpc_Expand (rpc_NewExpandLogic ctx (mock_model m)) \<lparr>ExpandReq_Shorten = code\<rparr>
        (expect_once m (MockRecorder_FindOne m AnyM AnyM) [v, err] k) =
      (k', told (as_Shorturl v) (as_error err) (\<lambda>d. \<lparr>ExpandResp_Url = Url d\<rparr>))"
    by (auto simp: rpc_Expand_def rpc_NewExpandLogic_def mock_model_def deref_told told_def split: option.splits)
next
  obtain k' where "idle k'" "MockTransformer_Expand m ctx \<lparr>clExpandReq_Shorten = code\<rparr>
      (expect_once m (MockRecorder_Expand m AnyM AnyM) [v, err] k) = (k', Inr (as_ExpandResp v, as_error err))"
    using expand_mock.expected_call [OF assms(1,2), of AnyM ctx AnyM "\<lparr>clExpandReq_Shorten = code\<rparr>" "[v, err]"] by auto
  then show "\<exists>k'. idle k' \<and>
      api_Expand (api_NewExpandLogic ctx (mock_transformer m)) \<lparr>tyExpandReq_Shorten = code\<rparr>
        (expect_once m (MockRecorder_Expand m AnyM AnyM) [v, err] k) =
      (k', told (as_ExpandResp v) (as_error err) (\<lambda>r. \<lparr>tyExpandResp_Url = clExpandResp_Url r\<rparr>))"
    by (auto simp: api_Expand_def api_NewExpandLogic_def mock_transformer_def deref_told told_def split: option.splits)
next
  obtain k' where "idle k'" "MockTransformer_Shorten m ctx \<lparr>clShortenReq_Url = url\<rparr>
      (expect_once m (MockRecorder_Shorten m AnyM AnyM) [v, err] k) = (k', Inr (as_ShortenResp v, as_error err))"
    using shorten_mock.expected_call [OF assms(1,2), of AnyM ctx AnyM "\<lparr>clShortenReq_Url = url\<rparr>" "[v, err]"] by auto
  then show "\<exists>k'. idle k' \<and>
      api_Shorten (api_NewShortenLogic ctx (mock_transformer m)) \<lparr>tyShortenReq_Url = url\<rparr>
        (expect_once m (MockRecorder_Shorten m AnyM AnyM) [v, err] k) =
      (k', told (as_ShortenResp v) (as_error err) (\<lambda>r. \<lparr>tyShortenResp_Shorten = clShortenResp_Shorten r\<rparr>))"
    by (auto simp: api_Shorten_def api_NewShortenLogic_def mock_transformer_def deref_told told_def split: option.splits)
qed

text \<open>A controller that meets the contract: a list of expectations, each with the calls still to come.\<close>

record 'c expectation =
  ex_self :: nat
  ex_meth :: string
  ex_args :: "'c matcher list"
  ex_rets :: "'c mock_val list"
  ex_left :: nat

fun ref_Call :: "nat \<Rightarrow> string \<Rightarrow> 'c mock_val list \<Rightarrow> 'c expectation list \<Rightarrow> 'c expectation list \<times> 'c mock_val list result" where
  "ref_Call self meth args [] = ([], Inl (Errorf ''unexpected call''))"
| "ref_Call self meth args (e # es) =
     (if 0 < ex_left e \<and> ex_self e = self \<and> ex_meth e = meth \<and> list_all2 matches (ex_args e) args
      then (e\<lparr>ex_left := ex_left e - 1\<rparr> # es, Inr (ex_rets e))
      else (case ref_Call self meth args es of (es, r) \<Rightarrow> (e # es, r)))"

definition ref_ctrl :: "('c, nat, 'c expectation list) Controller" where
  "ref_ctrl = \<lparr>Call = ref_Call,
     RecordCallWithMethodType = (\<lambda>self meth ms es.
       (es @ [\<lparr>ex_self = self, ex_meth = meth, ex_args = ms, ex_rets = [], ex_left = 1\<rparr>], length es)),
     call_Return = (\<lambda>h rets es. es[h := (es ! h)\<lparr>ex_rets := rets\<rparr>]),
     call_Times = (\<lambda>h n es. es[h := (es ! h)\<lparr>ex_left := n\<rparr>])\<rparr>"

definition ref_idle :: "'c expectation list \<Rightarrow> bool" where
  "ref_idle es \<longleftrightarrow> (\<forall>e \<in> set es. ex_left e = 0)"

lemma ref_Call_last:
  "ref_idle es \<Longrightarrow> 0 < ex_left e \<Longrightarrow> ex_self e = self \<Longrightarrow> ex_meth e = meth \<Longrightarrow> list_all2 matches (ex_args e) args \<Longrightarrow>
     ref_Call self meth args (es @ [e]) = (es @ [e\<lparr>ex_left := ex_left e - 1\<rparr>], Inr (ex_rets e))"
  by (induction es) (auto simp: ref_idle_def)

lemma ref_ctrl_ok: "ctrl_ok ref_ctrl ref_idle"
  unfolding ctrl_ok_def
proof (intro allI impI, elim conjE)
  fix self meth and ms :: "'c matcher list" and args rets k k1 h
  assume a: "ref_idle k" "list_all2 matches ms args" "RecordCallWithMethodType ref_ctrl self meth ms k = (k1, h)"
  let ?e = "\<lparr>ex_self = self, ex_meth = meth, ex_args = ms, ex_rets = rets, ex_left = 1\<rparr>"
  have "call_Times ref_ctrl h 1 (call_Return ref_ctrl h rets k1) = k @ [?e]" using a(3) by (auto simp: ref_ctrl_def)
  moreover have "ref_Call self meth args (k @ [?e]) = (k @ [?e\<lparr>ex_left := 0\<rparr>], Inr rets)"
    using ref_Call_last [OF a(1), of ?e self meth args] a(2) by simp
  moreover have "ref_idle (k @ [?e\<lparr>ex_left := 0\<rparr>])" using a(1) by (auto simp: ref_idle_def)
  ultimately show "\<exists>k2. Call ref_ctrl self meth args (call_Times ref_ctrl h 1 (call_Return ref_ctrl h rets k1)) = (k2, Inr rets) \<and> ref_idle k2"
    by (simp add: ref_ctrl_def)
qed

theorem mocked_logic_witness:
  "\<exists>k'. api_Expand (api_NewExpandLogic () (mock_transformer (NewMockTransformer 0 ref_ctrl))) \<lparr>tyExpandReq_Shorten = []\<rparr>
      (expect_once (NewMockTransformer 0 ref_ctrl) (MockRecorder_Expand (NewMockTransformer 0 ref_ctrl) AnyM AnyM)
        [ExpandRespV \<lparr>clExpandResp_Url = ''url''\<rparr>, NilV] []) =
    (k', Inr \<lparr>tyExpandResp_Url = ''url''\<rparr>)"
proof -
  have c: "ctrl_ok (mk_ctrl (NewMockTransformer 0 ref_ctrl)) (ref_idle :: unit expectation list \<Rightarrow> bool)"
    by (simp add: NewMockTransformer_def ref_ctrl_ok)
  have i: "ref_idle ([] :: unit expectation list)" by (simp add: ref_idle_def)
  show ?thesis
    using mocked_logic [OF c i, of "\<lambda>_. ''abcdef''" "''testUrl''" "()" "ExpandRespV \<lparr>clExpandResp_Url = ''url''\<rparr>" NilV "[]"]
    by (auto simp: told_def)
qed

end
