(* ===== verification/Map_Reduce.thy ===== *)
theory Map_Reduce
  imports Go_Prelude "HOL-Library.Word" "HOL-Library.Multiset"
begin

text \<open>
  The map-reduce programs: the counter of Go functions (\<^verbatim>\<open>mapreduce/countfunc\<close>), the user checks of
  \<^verbatim>\<open>mapreduce/mr\<close>, and the smaller ones (\<^verbatim>\<open>flatmap\<close>, \<^verbatim>\<open>deadlock\<close>, \<^verbatim>\<open>irregular\<close>, \<^verbatim>\<open>goroutineleak\<close>,
  \<^verbatim>\<open>fx/square.go\<close>).

  The libraries \<^verbatim>\<open>mr\<close> and \<^verbatim>\<open>fx\<close> are parameters: \<open>map_reduce_ok\<close> says that without a cancellation the
  reducer gets every value the mappers wrote, in some order, and that a cancellation's error is the
  result. The goroutine that reads a file and the mapper that ranges over its channel are a small
  state machine with an unbuffered channel.
\<close>

section \<open>The library\<close>

text \<open>What a mapper or reducer does with its writer and its cancel function, in order.\<close>

datatype 'b mr_act = Write 'b | Cancel go_error

fun written :: "'b mr_act list \<Rightarrow> 'b list" where
  "written [] = []"
| "written (Write b # as) = b # written as"
| "written (Cancel e # as) = written as"

fun cancels :: "'b mr_act list \<Rightarrow> go_error list" where
  "cancels [] = []"
| "cancels (Write b # as) = cancels as"
| "cancels (Cancel e # as) = e # cancels as"

type_synonym ('a, 'b, 'c) map_reduce =
  "'a list \<Rightarrow> ('a \<Rightarrow> 'b mr_act list) \<Rightarrow> ('b list \<Rightarrow> 'c mr_act list) \<Rightarrow> 'c result"

definition ErrReduceNoOutput :: go_error where
  "ErrReduceNoOutput = Sentinel ''reduce not writing value''"

definition reduced :: "'c mr_act list \<Rightarrow> 'c result" where
  "reduced out =
     (case cancels out of
        e # _ \<Rightarrow> Inl e
      | [] \<Rightarrow> (case written out of [] \<Rightarrow> Inl ErrReduceNoOutput | v # _ \<Rightarrow> Inr v))"

text \<open>The contract of \<^verbatim>\<open>mr.MapReduce\<close>.\<close>

definition map_reduce_ok :: "('a, 'b, 'c) map_reduce \<Rightarrow> bool" where
  "map_reduce_ok MapReduce \<longleftrightarrow>
     (\<forall>items mapper reducer. (\<forall>x \<in> set items. cancels (mapper x) = []) \<longrightarrow>
        (\<exists>pipe. mset pipe = mset (concat (map (written \<circ> mapper) items)) \<and>
           MapReduce items mapper reducer = reduced (reducer pipe))) \<and>
     (\<forall>items mapper reducer. (\<exists>x \<in> set items. cancels (mapper x) \<noteq> []) \<and> (\<forall>p. cancels (reducer p) = []) \<longrightarrow>
        (\<exists>x \<in> set items. \<exists>e \<in> set (cancels (mapper x)). MapReduce items mapper reducer = Inl e))"

lemma map_reduce_all:
  assumes "map_reduce_ok MapReduce" "\<forall>x \<in> set items. cancels (mapper x) = []"
  obtains pipe where "mset pipe = mset (concat (map (written \<circ> mapper) items))"
    "MapReduce items mapper reducer = reduced (reducer pipe)"
  using assms unfolding map_reduce_ok_def by meson

lemma map_reduce_cancelled:
  assumes "map_reduce_ok MapReduce" "x \<in> set items" "cancels (mapper x) \<noteq> []" "\<forall>p. cancels (reducer p) = []"
  obtains y e where "y \<in> set items" "e \<in> set (cancels (mapper y))" "MapReduce items mapper reducer = Inl e"
  using assms unfolding map_reduce_ok_def by meson

text \<open>One implementation: run the mappers one after the other.\<close>

definition seq_map_reduce :: "('a, 'b, 'c) map_reduce" where
  "seq_map_reduce items mapper reducer =
     (case concat (map (cancels \<circ> mapper) items) of
        e # _ \<Rightarrow> Inl e
      | [] \<Rightarrow>
          reduced (reducer (concat (map (written \<circ> mapper) items))))"

lemma concat_empty: "(\<forall>x \<in> set xs. f x = []) \<Longrightarrow> concat (map f xs) = []"
  by simp

lemma seq_map_reduce_ok: "map_reduce_ok seq_map_reduce"
  unfolding map_reduce_ok_def
proof (intro conjI allI impI, goal_cases)
  case (1 items mapper reducer)
  then have c: "concat (map (cancels \<circ> mapper) items) = []" by simp
  show ?case
    by (rule exI [of _ "concat (map (written \<circ> mapper) items)"]) (simp only: seq_map_reduce_def c list.case simp_thms)
next
  case (2 items mapper reducer)
  then obtain e es where e: "concat (map (cancels \<circ> mapper) items) = e # es"
    by (cases "concat (map (cancels \<circ> mapper) items)") auto
  have "e \<in> set (concat (map (cancels \<circ> mapper) items))" unfolding e by simp
  then obtain x where "x \<in> set items" "e \<in> set (cancels (mapper x))" by auto
  moreover have "seq_map_reduce items mapper reducer = Inl e" unfolding seq_map_reduce_def e by simp
  ultimately show ?case by blast
qed

section \<open>Paths\<close>

text \<open>\<^verbatim>\<open>path.Base\<close> and \<^verbatim>\<open>path.Ext\<close> of the standard library.\<close>

definition slash_char :: char where "slash_char = CHR ''/''"

definition path_Base :: "string \<Rightarrow> string" where
  "path_Base p =
     (if p = [] then ''.''
      else let s = rev (dropWhile (\<lambda>c. c = slash_char) (rev p))
        in if s = [] then ''/'' else rev (takeWhile (\<lambda>c. c \<noteq> slash_char) (rev s)))"

text \<open>The suffix from the last dot of the last element; empty if there is none.\<close>

definition path_Ext :: "string \<Rightarrow> string" where
  "path_Ext p =
     (let l = takeWhile (\<lambda>c. c \<noteq> slash_char) (rev p)
      in if CHR ''.'' \<in> set l then CHR ''.'' # rev (takeWhile (\<lambda>c. c \<noteq> CHR ''.'') l) else [])"

section \<open>Reading the lines of a file\<close>

text \<open>
  A file that cannot be opened, one whose content ends with \<^verbatim>\<open>io.EOF\<close>, and one where reading fails with
  another error after some bytes, again at every further read.
\<close>

datatype src_file = NoFile | File string | BadFile string

text \<open>\<^verbatim>\<open>reader.ReadString('\n')\<close>: the line with its newline and the rest, or the bytes left when the data
  runs out.\<close>

fun read_string :: "string \<Rightarrow> string \<times> string option" where
  "read_string [] = ([], None)"
| "read_string (c # s) =
     (if c = newline_char then ([c], Some s)
      else (case read_string s of (l, r) \<Rightarrow> (c # l, r)))"

lemma read_string_shorter: "read_string s = (l, Some r) \<Longrightarrow> length r < length s"
  by (induction s arbitrary: l r) (auto split: if_splits prod.splits)

text \<open>
  The goroutine of \<open>enumerateLines\<close>: opening, at the top of the loop with the unread data (and whether
  the data ends in EOF), sending a line, closed, or returned without closing. The mapper's loop:
  ranging with its count, or done. The channel is unbuffered: a send is a step of both.
\<close>

datatype enum_pc =
    EOpen
  | ERead string bool
  | ESend string string bool
  | EClosed
  | EReturned

datatype range_pc = Ranging "64 word" | RangeDone "64 word"

definition isFunc :: "string \<Rightarrow> bool" where
  "isFunc line \<longleftrightarrow> has_prefix (trim_space line) ''func''"

fun enumerateLines :: "src_file \<Rightarrow> enum_pc \<Rightarrow> enum_pc option" where
  "enumerateLines NoFile EOpen = Some EReturned"
| "enumerateLines (File s) EOpen = Some (ERead s True)"
| "enumerateLines (BadFile s) EOpen = Some (ERead s False)"
| "enumerateLines f (ERead s eof) =
     (case read_string s of
        (line, Some s') \<Rightarrow> Some (if has_prefix line ''#'' then ERead s' eof else ESend line s' eof)
      | (line, None) \<Rightarrow>
          if eof then Some EClosed
          else Some (if has_prefix line ''#'' then ERead [] eof else ESend line [] eof))"
| "enumerateLines f (ESend l s eof) = None"
| "enumerateLines f EClosed = None"
| "enumerateLines f EReturned = None"

inductive count_step :: "src_file \<Rightarrow> enum_pc \<times> range_pc \<Rightarrow> enum_pc \<times> range_pc \<Rightarrow> bool" for f :: src_file where
  producer: "enumerateLines f e = Some e' \<Longrightarrow> count_step f (e, r) (e', r)"
| rendezvous: "count_step f (ESend l s eof, Ranging n)
    (ERead s eof, Ranging (if isFunc l then n + 1 else n))"
| channel_closed: "count_step f (EClosed, Ranging n) (EClosed, RangeDone n)"

inductive_cases count_stepE: "count_step f s t"
inductive_simps count_step_read: "count_step f (ERead s eof, r) t"
inductive_simps count_step_send: "count_step f (ESend l s eof, r) t"
inductive_simps count_step_closed: "count_step f (EClosed, r) t"
inductive_simps count_step_returned: "count_step f (EReturned, r) t"
inductive_simps count_step_open: "count_step f (EOpen, r) t"

lemmas count_step_simps = count_step_read count_step_send count_step_closed count_step_returned count_step_open

definition count_start :: "enum_pc \<times> range_pc" where
  "count_start = (EOpen, Ranging 0)"

text \<open>What is counted: the lines that end in a newline and do not begin with \<^verbatim>\<open>#\<close>.\<close>

function full_lines :: "string \<Rightarrow> string list" where
  "full_lines s = (case read_string s of (l, Some r) \<Rightarrow> l # full_lines r | (l, None) \<Rightarrow> [])"
  by pat_completeness auto
termination by (relation "measure length") (auto dest!: read_string_shorter [OF sym])

declare full_lines.simps [simp del]

definition count_funcs :: "string \<Rightarrow> nat" where
  "count_funcs s = length (filter (\<lambda>l. \<not> has_prefix l ''#'' \<and> isFunc l) (full_lines s))"

lemma count_funcs_more:
  "read_string s = (l, Some r) \<Longrightarrow>
   count_funcs s = (if \<not> has_prefix l ''#'' \<and> isFunc l then 1 else 0) + count_funcs r"
  by (simp add: count_funcs_def full_lines.simps [of s])

lemma count_funcs_end: "read_string s = (l, None) \<Longrightarrow> count_funcs s = 0"
  by (simp add: count_funcs_def full_lines.simps [of s])

section \<open>Every run over a readable file ends with the count\<close>

text \<open>What is left to count and to do in a state; both are kept or shrink with every step.\<close>

fun pending :: "enum_pc \<Rightarrow> nat" where
  "pending (ERead s eof) = count_funcs s"
| "pending (ESend l s eof) = (if isFunc l then 1 else 0) + count_funcs s"
| "pending _ = 0"

fun counted :: "range_pc \<Rightarrow> 64 word" where
  "counted (Ranging n) = n"
| "counted (RangeDone n) = n"

fun live :: "string \<Rightarrow> enum_pc \<times> range_pc \<Rightarrow> bool" where
  "live s (EOpen, Ranging n) = (n = 0)"
| "live s (ERead r eof, Ranging n) = (eof \<and> n + of_nat (count_funcs r) = of_nat (count_funcs s))"
| "live s (ESend l r eof, Ranging n) = (eof \<and> n + of_nat (pending (ESend l r eof)) = of_nat (count_funcs s))"
| "live s (EClosed, Ranging n) = (n = of_nat (count_funcs s))"
| "live s (EClosed, RangeDone n) = (n = of_nat (count_funcs s))"
| "live s _ = False"

fun enum_work :: "enum_pc \<Rightarrow> nat" where
  "enum_work EOpen = 0"
| "enum_work (ERead s eof) = 2 * length s + 2"
| "enum_work (ESend l s eof) = 2 * length s + 3"
| "enum_work EClosed = 1"
| "enum_work EReturned = 0"

definition count_work :: "src_file \<Rightarrow> enum_pc \<times> range_pc \<Rightarrow> nat" where
  "count_work f = (\<lambda>(e, r).
     (if e = EOpen then (case f of File s \<Rightarrow> 2 * length s + 3 | _ \<Rightarrow> 1) else enum_work e) +
     (case r of Ranging _ \<Rightarrow> 1 | RangeDone _ \<Rightarrow> 0))"

lemma live_step: "live s x \<Longrightarrow> count_step (File s) x y \<Longrightarrow> live s y \<and> count_work (File s) y < count_work (File s) x"
proof (erule count_stepE, goal_cases)
  case (1 e e' r)
  show ?case
  proof (cases e)
    case (ERead u eof)
    with 1 obtain n where r: "r = Ranging n" "eof" by (cases r) auto
    show ?thesis
    proof (cases "read_string u")
      case (Pair l rest)
      show ?thesis
        using 1 ERead r Pair read_string_shorter [of u l]
        by (cases rest) (auto simp: count_work_def count_funcs_more count_funcs_end split: if_splits)
    qed
  qed (use 1 in \<open>cases r; auto simp: count_work_def\<close>)+
next
  case (2 l u eof n)
  then show ?case by (auto simp: count_work_def algebra_simps split: if_splits)
next
  case (3 n)
  then show ?case by (auto simp: count_work_def)
qed

lemma live_progress: "live s x \<Longrightarrow> (\<exists>y. count_step (File s) x y) \<or> x = (EClosed, RangeDone (of_nat (count_funcs s)))"
proof (cases "(s, x)" rule: live.cases)
  case (2 s' r eof n)
  then show ?thesis by (cases "read_string r") (auto simp: count_step_read split: option.splits)
qed (auto simp: count_step_simps)

lemma live_finishes: "live s x \<Longrightarrow> (count_step (File s))\<^sup>*\<^sup>* x (EClosed, RangeDone (of_nat (count_funcs s)))"
proof (induction "count_work (File s) x" arbitrary: x rule: less_induct)
  case less
  show ?case
  proof (cases "x = (EClosed, RangeDone (of_nat (count_funcs s)))")
    case False
    with live_progress [OF less.prems] obtain y where y: "count_step (File s) x y" by blast
    from live_step [OF less.prems y] less.hyps [of y] y show ?thesis
      by (meson converse_rtranclp_into_rtranclp)
  qed simp
qed

interpretation counting: machine "\<lambda>x. x = count_start" "count_step (File s)" "live s" for s
  by unfold_locales (auto simp: count_start_def dest: live_step)

text \<open>A file that cannot be opened leaves the mapper waiting on a channel that is never closed; a file
  that stops being readable keeps the goroutine sending.\<close>

lemma unopened_stuck: "(count_step NoFile)\<^sup>*\<^sup>* count_start x \<Longrightarrow> x = count_start \<or> x = (EReturned, Ranging 0)"
  by (induction rule: rtranclp_induct) (auto simp: count_start_def count_step_simps)

fun reading :: "enum_pc \<times> range_pc \<Rightarrow> bool" where
  "reading (EOpen, Ranging n) = True"
| "reading (ERead s eof, Ranging n) = (\<not> eof)"
| "reading (ESend l s eof, Ranging n) = (\<not> eof)"
| "reading _ = False"

lemma reading_step: "reading x \<Longrightarrow> count_step (BadFile s) x y \<Longrightarrow> reading y"
proof (erule count_stepE, goal_cases)
  case (1 e e' r)
  then show ?case
    by (cases e; cases r) (auto split: prod.splits option.splits if_splits)
qed auto

interpretation bad_reading: machine "\<lambda>x. x = count_start" "count_step (BadFile s)" reading for s
  by unfold_locales (auto simp: count_start_def dest: reading_step)

lemma reading_continues: "reading x \<Longrightarrow> \<exists>y. count_step (BadFile s) x y"
proof (cases x rule: reading.cases)
  case (2 u eof n)
  then show ?thesis by (cases "read_string u") (auto simp: count_step_read split: option.splits)
qed (auto simp: count_step_simps)

section \<open>The function counter\<close>

record count_flags =
  fl_stopOnFile :: string
  fl_maxFiles :: "64 word"
  fl_mode :: string

text \<open>What the mapper's loop over the file ends with, if it ends; \<open>range_count_run\<close> below ties it to
  the machine.\<close>

fun range_count :: "src_file \<Rightarrow> 64 word option" where
  "range_count (File s) = Some (of_nat (count_funcs s))"
| "range_count _ = None"

datatype mapper_out = MapperActs "64 word mr_act list" | MapperPanic string

text \<open>The mapper with the shared counter \<^verbatim>\<open>count\<close>; \<open>None\<close>: it never returns.\<close>

definition mapper ::
  "(string \<Rightarrow> src_file) \<Rightarrow> count_flags \<Rightarrow> string \<Rightarrow> 32 word \<Rightarrow> (32 word \<times> mapper_out) option" where
  "mapper fs fl filename cnt =
     (if 0 < length (fl_stopOnFile fl) \<and> path_Base filename = fl_stopOnFile fl
      then Some (cnt, MapperActs [Cancel (Errorf ''stop on file'')])
      else case range_count (fs filename) of
        None \<Rightarrow> None
      | Some result \<Rightarrow>
          if fl_mode fl = ''return'' then
            (if (cnt + 1) mod 10 = 0 then Some (cnt + 1, MapperActs [])
             else Some (cnt + 1, MapperActs [Write result]))
          else if fl_mode fl = ''panic'' then
            (if (cnt + 1) mod 10 = 0 then Some (cnt + 1, MapperPanic ''wow'')
             else Some (cnt + 1, MapperActs [Write result]))
          else Some (cnt, MapperActs [Write result]))"

fun reducer_loop :: "64 word \<Rightarrow> 64 word \<Rightarrow> 64 word list \<Rightarrow> 64 word mr_act list" where
  "reducer_loop maxFiles result [] = [Write result]"
| "reducer_loop maxFiles result (v # input) =
     (if 0 < sint maxFiles \<and> sint maxFiles \<le> sint result then [Cancel (Errorf ''max files reached'')]
      else reducer_loop maxFiles (result + v) input)"

definition reducer :: "count_flags \<Rightarrow> 64 word list \<Rightarrow> 64 word mr_act list" where
  "reducer fl input = reducer_loop (fl_maxFiles fl) 0 input"

text \<open>The walk's callback on its entries: the path and whether it is a directory; \<^verbatim>\<open>Walk\<close> reports an
  entry it cannot stat with a nil \<^verbatim>\<open>FileInfo\<close>.\<close>

fun source_files :: "(string \<times> bool option) list \<Rightarrow> go_panic + string list" where
  "source_files [] = Inr []"
| "source_files ((fpath, None) # es) = Inl NilDereference"
| "source_files ((fpath, Some isDir) # es) =
     (case source_files es of
        Inl p \<Rightarrow> Inl p
      | Inr fs \<Rightarrow> Inr (if \<not> isDir \<and> path_Ext fpath = ''.go'' then fpath # fs else fs))"

fun acts_of :: "(32 word \<times> mapper_out) option \<Rightarrow> 64 word mr_act list" where
  "acts_of (Some (c, MapperActs as)) = as"
| "acts_of _ = []"

text \<open>The program without a simulation mode, where the mappers share nothing; \<open>None\<close> when one of them
  never returns.\<close>

definition count_main ::
  "(string, 64 word, 64 word) map_reduce \<Rightarrow> (string \<Rightarrow> src_file) \<Rightarrow> count_flags \<Rightarrow> (string \<times> bool option) list \<Rightarrow>
   64 word result option" where
  "count_main MapReduce fs fl entries =
     (case source_files entries of
        Inl p \<Rightarrow> Some (Inl (Panicked p))
      | Inr files \<Rightarrow>
          if list_ex (\<lambda>f. mapper fs fl f 0 = None) files then None
          else Some (MapReduce files (\<lambda>f. acts_of (mapper fs fl f 0)) (reducer fl)))"

lemma reducer_loop_spec:
  "reducer_loop m acc xs =
     (if 0 < sint m \<and> (\<exists>k < length xs. sint m \<le> sint (acc + sum_list (take k xs)))
      then [Cancel (Errorf ''max files reached'')] else [Write (acc + sum_list xs)])"
proof (induction xs arbitrary: acc)
  case (Cons v xs)
  have "(\<exists>k < length (v # xs). sint m \<le> sint (acc + sum_list (take k (v # xs)))) \<longleftrightarrow>
      sint m \<le> sint acc \<or> (\<exists>k < length xs. sint m \<le> sint (acc + v + sum_list (take k xs)))"
    (is "?l \<longleftrightarrow> ?r")
  proof
    assume ?l
    then obtain k where k: "k < Suc (length xs)" "sint m \<le> sint (acc + sum_list (take k (v # xs)))" by auto
    then show ?r by (cases k) (auto simp: add.assoc)
  next
    assume ?r
    then show ?l
    proof
      assume "sint m \<le> sint acc"
      then show ?l by (intro exI [of _ 0]) simp
    next
      assume "\<exists>k < length xs. sint m \<le> sint (acc + v + sum_list (take k xs))"
      then obtain k where "k < length xs" "sint m \<le> sint (acc + v + sum_list (take k xs))" by blast
      then show ?l by (intro exI [of _ "Suc k"]) (simp add: add.assoc)
    qed
  qed
  then show ?case using Cons.IH [of "acc + v"] by (auto simp: add.assoc)
qed simp

lemma range_count_run: "(\<exists>e. (count_step f)\<^sup>*\<^sup>* count_start (e, RangeDone n)) \<longleftrightarrow> range_count f = Some n"
proof (cases f)
  case NoFile
  then show ?thesis using unopened_stuck by (auto simp: count_start_def)
next
  case (File s)
  have "live s (e, RangeDone n) \<Longrightarrow> n = of_nat (count_funcs s)" for e by (cases e) auto
  then show ?thesis
    using counting.inv_reachable [OF refl, of s] live_finishes [of s count_start]
    by (fastforce simp: File count_start_def)
next
  case (BadFile s)
  have "\<not> reading (e, RangeDone n)" for e by (cases e) auto
  then show ?thesis using bad_reading.inv_reachable [OF refl, of s] by (fastforce simp: BadFile)
qed

section \<open>Properties of the counter\<close>

text \<open>
  C23. Counting a readable file always ends, whatever the interleaving of the reading goroutine and
  the mapper: every reachable state can still finish, and the only state without a next step is the
  one where the mapper has counted exactly the newline-terminated lines that do not begin with \<^verbatim>\<open>#\<close>
  and begin, after trimming, with \<^verbatim>\<open>func\<close> (a last line without a newline is not counted).
\<close>

theorem countfunc_file_count:
  assumes "(count_step (File s))\<^sup>*\<^sup>* count_start x"
  shows "(count_step (File s))\<^sup>*\<^sup>* x (EClosed, RangeDone (of_nat (count_funcs s))) \<and>
    ((\<forall>y. \<not> count_step (File s) x y) \<longrightarrow> x = (EClosed, RangeDone (of_nat (count_funcs s))))"
proof -
  have "live s x" using counting.inv_reachable [OF refl assms] .
  then show ?thesis using live_finishes [of s x] live_progress [of s x] by blast
qed

theorem countfunc_file_count_witness:
  "(let s = ''func a() {}'' @ [newline_char] @ ''# func b'' @ [newline_char] @ '' func c() {}'' @ [newline_char] @ ''func d()''
    in (count_step (File s))\<^sup>*\<^sup>* count_start (EClosed, RangeDone 2))"
proof -
  have "count_funcs (''func a() {}'' @ [newline_char] @ ''# func b'' @ [newline_char] @ '' func c() {}'' @ [newline_char] @ ''func d()'') = 2"
    by code_simp
  then show ?thesis
    using countfunc_file_count [OF rtranclp.rtrancl_refl, of "''func a() {}'' @ [newline_char] @ ''# func b'' @ [newline_char] @ '' func c() {}'' @ [newline_char] @ ''func d()''"]
    by (simp add: Let_def)
qed

text \<open>
  C24. A file that cannot be opened, or that fails while it is read, hangs its mapper: after a failed
  open the goroutine returns without closing the channel and the only reachable state without a step
  is the mapper waiting for ever; after a failed read the goroutine never stops sending. In both
  cases no run ever reaches the end of the mapper's loop.
\<close>

theorem countfunc_unreadable_hangs:
  "(\<forall>x. (count_step NoFile)\<^sup>*\<^sup>* count_start x \<longrightarrow>
      (\<forall>n. snd x \<noteq> RangeDone n) \<and> ((\<forall>y. \<not> count_step NoFile x y) \<longleftrightarrow> x = (EReturned, Ranging 0))) \<and>
   (\<forall>x. (count_step (BadFile s))\<^sup>*\<^sup>* count_start x \<longrightarrow>
      (\<forall>n. snd x \<noteq> RangeDone n) \<and> (\<exists>y. count_step (BadFile s) x y))"
proof (intro conjI allI impI, goal_cases)
  case (1 x n)
  then show ?case using unopened_stuck [of x] by (auto simp: count_start_def)
next
  case (2 x)
  then show ?case using unopened_stuck [of x] by (auto simp: count_start_def count_step_simps)
next
  case (3 x n)
  then have "reading x" using bad_reading.inv_reachable by blast
  then show ?case by (cases x rule: reading.cases) auto
next
  case (4 x)
  then have "reading x" using bad_reading.inv_reachable by blast
  then show ?case by (rule reading_continues)
qed

theorem countfunc_unreadable_hangs_witness:
  "(count_step NoFile)\<^sup>*\<^sup>* count_start (EReturned, Ranging 0) \<and> (\<forall>y. \<not> count_step NoFile (EReturned, Ranging 0) y)"
proof -
  have r: "(count_step NoFile)\<^sup>*\<^sup>* count_start (EReturned, Ranging 0)"
    by (rule r_into_rtranclp) (simp add: count_start_def count_step_open)
  then show ?thesis using countfunc_unreadable_hangs by blast
qed

lemma sum_list_mset: "mset xs = mset ys \<Longrightarrow> sum_list xs = (sum_list ys :: 64 word)"
  by (metis sum_mset_sum_list)

text \<open>
  C25. The counter's result does not depend on the order in which the mappers finish: over readable
  files, without the simulation options, it is the sum of the files' counts (modulo \<open>2 ^ 64\<close>), each
  Go file of the tree once.
\<close>

theorem countfunc_total:
  assumes "map_reduce_ok MapReduce" "source_files entries = Inr files"
    and "\<forall>f \<in> set files. \<exists>s. fs f = File s"
    and "fl_stopOnFile fl = []" "fl_maxFiles fl = 0" "fl_mode fl = []"
  shows "count_main MapReduce fs fl entries =
    Some (Inr (\<Sum>f\<leftarrow>files. of_nat (case fs f of File s \<Rightarrow> count_funcs s | _ \<Rightarrow> 0)))"
proof -
  let ?m = "\<lambda>f. acts_of (mapper fs fl f 0)" and ?c = "\<lambda>f. of_nat (case fs f of File s \<Rightarrow> count_funcs s | _ \<Rightarrow> 0)"
  have m: "mapper fs fl f 0 = Some (0, MapperActs [Write (?c f)])" if "f \<in> set files" for f
    using assms(3-6) that by (auto simp: mapper_def)
  then have "\<forall>x \<in> set files. cancels (?m x) = []" by simp
  then obtain pipe where p: "mset pipe = mset (concat (map (written \<circ> ?m) files))"
    "MapReduce files ?m (reducer fl) = reduced (reducer fl pipe)"
    using map_reduce_all [OF assms(1)] by metis
  have "concat (map (written \<circ> ?m) files) = map ?c files"
    using m by (induction files) auto
  with p(1) have "sum_list pipe = sum_list (map ?c files)" using sum_list_mset by metis
  moreover have "reducer fl pipe = [Write (sum_list pipe)]" using assms(5) by (simp add: reducer_def reducer_loop_spec)
  moreover have "\<not> list_ex (\<lambda>f. mapper fs fl f 0 = None) files" using m by (auto simp: list_ex_iff)
  ultimately show ?thesis using p(2) assms(2) by (simp add: count_main_def reduced_def)
qed

theorem countfunc_total_witness:
  "count_main seq_map_reduce (\<lambda>f. File (''func f()'' @ [newline_char])) \<lparr>fl_stopOnFile = [], fl_maxFiles = 0, fl_mode = []\<rparr>
     [(''src'', Some True), (''src/a.go'', Some False), (''src/b.md'', Some False), (''src/c.go'', Some False)] = Some (Inr 2)"
proof -
  have f: "source_files [(''src'', Some True), (''src/a.go'', Some False), (''src/b.md'', Some False), (''src/c.go'', Some False)] =
    Inr [''src/a.go'', ''src/c.go'']"
    by (simp add: path_Ext_def slash_char_def)
  have c: "count_funcs (''func f()'' @ [newline_char]) = 1"
    by code_simp
  show ?thesis
    using countfunc_total [OF seq_map_reduce_ok f, of "\<lambda>f. File (''func f()'' @ [newline_char])"
        "\<lparr>fl_stopOnFile = [], fl_maxFiles = 0, fl_mode = []\<rparr>"] c
    by simp
qed

text \<open>
  The reducer's limit stops on what has been counted, not on files: with a positive limit it
  cancels with \<^verbatim>\<open>max files reached\<close> exactly when some counts arrived after the running total, as a
  signed 64-bit number, had reached the limit; otherwise it writes the total. The limit is never
  checked after the last value.
\<close>

theorem countfunc_reducer_limit:
  "reducer fl input =
     (if 0 < sint (fl_maxFiles fl) \<and>
         (\<exists>k < length input. sint (fl_maxFiles fl) \<le> sint (sum_list (take k input)))
      then [Cancel (Errorf ''max files reached'')] else [Write (sum_list input)])"
  by (simp add: reducer_def reducer_loop_spec)

end
