(* ===== verification/Map_Reduce_Programs.thy ===== *)
theory Map_Reduce_Programs
  imports Map_Reduce
begin

text \<open>
  The smaller programs over \<^verbatim>\<open>mr\<close> and \<^verbatim>\<open>fx\<close>: \<^verbatim>\<open>productDetail\<close> and \<^verbatim>\<open>checkLegal\<close> (\<^verbatim>\<open>mapreduce/mr/mr.go\<close>),
  \<^verbatim>\<open>flatmap\<close>, \<^verbatim>\<open>deadlock\<close>, \<^verbatim>\<open>irregular\<close>, \<^verbatim>\<open>goroutineleak\<close>, and \<^verbatim>\<open>fx/square.go\<close>. What each computes is
  proved for every order in which the library may run its goroutines.
\<close>

section \<open>Product details and legality checks\<close>

text \<open>The three RPC stand-ins return a nil value and no error.\<close>

datatype any_val = Nil_val | Int_val "64 word"

definition user_User :: "64 word \<Rightarrow> any_val result" where "user_User uid = Inr Nil_val"
definition store_Store :: "64 word \<Rightarrow> any_val result" where "store_Store pid = Inr Nil_val"
definition order_Order :: "64 word \<Rightarrow> any_val result" where "order_Order pid = Inr Nil_val"

record ProductDetail =
  pd_User :: any_val
  pd_Store :: any_val
  pd_Order :: any_val

text \<open>
  \<^verbatim>\<open>mr.Finish\<close> runs its functions concurrently and returns the first error. Each of the three writes its
  own field, so the order does not matter; they are given as updates with their errors.
\<close>

type_synonym 's finish_fn = "'s \<Rightarrow> 's \<times> unit result"

definition set_field :: "('v \<Rightarrow> 's \<Rightarrow> 's) \<Rightarrow> 'v result \<Rightarrow> 'v \<Rightarrow> 's finish_fn" where
  "set_field upd r dflt s = (case r of Inl e \<Rightarrow> (upd dflt s, Inl e) | Inr v \<Rightarrow> (upd v s, Inr ()))"

fun run_fns :: "'s finish_fn list \<Rightarrow> 's \<Rightarrow> 's \<times> go_error list" where
  "run_fns [] s = (s, [])"
| "run_fns (f # fs) s =
     (case f s of (s', r) \<Rightarrow> (case run_fns fs s' of (s'', es) \<Rightarrow> (s'', (case r of Inl e \<Rightarrow> e # es | Inr _ \<Rightarrow> es))))"

definition finish_ok :: "('s finish_fn list \<Rightarrow> 's \<Rightarrow> 's \<times> unit result) \<Rightarrow> bool" where
  "finish_ok Finish \<longleftrightarrow>
     (\<forall>fs s. \<exists>gs. mset gs = mset fs \<and>
        Finish fs s = (fst (run_fns gs s), case snd (run_fns gs s) of [] \<Rightarrow> Inr () | e # _ \<Rightarrow> Inl e))"

definition productDetail ::
  "(ProductDetail finish_fn list \<Rightarrow> ProductDetail \<Rightarrow> ProductDetail \<times> unit result) \<Rightarrow> 64 word \<Rightarrow> 64 word \<Rightarrow> ProductDetail result" where
  "productDetail Finish uid pid =
     (case Finish
             [set_field (\<lambda>v pd. pd\<lparr>pd_User := v\<rparr>) (user_User uid) Nil_val,
              set_field (\<lambda>v pd. pd\<lparr>pd_Store := v\<rparr>) (store_Store pid) Nil_val,
              set_field (\<lambda>v pd. pd\<lparr>pd_Order := v\<rparr>) (order_Order pid) Nil_val]
             \<lparr>pd_User = Nil_val, pd_Store = Nil_val, pd_Order = Nil_val\<rparr> of
        (pd, Inl err) \<Rightarrow> Inl err
      | (pd, Inr _) \<Rightarrow> Inr pd)"

definition check :: "64 word \<Rightarrow> bool \<times> go_error option" where
  "check uid = (True, None)"

definition checkLegal_mapper :: "64 word \<Rightarrow> 64 word mr_act list" where
  "checkLegal_mapper uid =
     (case check uid of
        (legal, err) \<Rightarrow> (case err of None \<Rightarrow> [] | Some e \<Rightarrow> [Cancel e]) @ (if legal then [Write uid] else []))"

definition collect_pipe :: "'a list \<Rightarrow> 'a list mr_act list" where
  "collect_pipe pipe = [Write pipe]"

definition checkLegal ::
  "(64 word, 64 word, 64 word list) map_reduce \<Rightarrow> 64 word list \<Rightarrow> 64 word list result" where
  "checkLegal MapReduce uids =
     (case MapReduce uids checkLegal_mapper collect_pipe of Inl err \<Rightarrow> Inl err | Inr r \<Rightarrow> Inr r)"

section \<open>Flat map\<close>

definition persons :: "string list" where
  "persons = [''john'', ''mary'', ''alice'', ''bob'']"

definition friends :: "string \<Rightarrow> string list" where
  "friends p =
     (if p = ''john'' then [''harry'', ''hermione'', ''ron'']
      else if p = ''mary'' then [''sam'', ''frodo'']
      else if p = ''alice'' then []
      else if p = ''bob'' then [''jamie'', ''tyrion'', ''cersei'']
      else [])"

text \<open>\<^verbatim>\<open>mr.ForEach\<close> runs the mapper on every item, in some order; the mutex makes each append one step.\<close>

definition flatmap_main :: "string list \<Rightarrow> string list" where
  "flatmap_main order = fold (\<lambda>item allFriends. allFriends @ friends item) order []"

section \<open>A reducer that writes nothing, and a mapper that cancels\<close>

record User =
  User_Uid :: "64 word"
  User_Name :: string

definition deadlock_uids :: "64 word list" where "deadlock_uids = [111, 222, 333]"

definition deadlock_mapper :: "64 word \<Rightarrow> User mr_act list" where
  "deadlock_mapper uid = [Write \<lparr>User_Uid = uid, User_Name = itoa uid\<rparr>]"

definition deadlock_reducer :: "User list \<Rightarrow> User list mr_act list" where
  "deadlock_reducer pipe = []"

text \<open>The program logs the error, or the length of the result.\<close>

definition deadlock_main :: "(64 word, User, User list) map_reduce \<Rightarrow> go_error + nat" where
  "deadlock_main MapReduce =
     (case MapReduce deadlock_uids deadlock_mapper deadlock_reducer of Inl err \<Rightarrow> Inl err | Inr res \<Rightarrow> Inr (length res))"

definition leak_items :: "nat list" where "leak_items = [0..<100]"

definition leak_mapper :: "nat \<Rightarrow> nat mr_act list" where
  "leak_mapper item = (if item = 40 then [Cancel (Errorf ''any'')] else [Write item])"

definition leak_round :: "(nat, nat, nat list) map_reduce \<Rightarrow> nat list result" where
  "leak_round MapReduce = MapReduce leak_items leak_mapper collect_pipe"

definition irregular_items :: "nat list" where "irregular_items = [0..<10]"

text \<open>The mapper's pause in seconds, and what it writes.\<close>

definition irregular_mapper :: "nat \<Rightarrow> nat \<times> nat mr_act list" where
  "irregular_mapper i = (if i = 0 then 10 else 5, [Write i])"

section \<open>The stream of squares\<close>

text \<open>
  \<^verbatim>\<open>fx\<close> may reorder items between its stages; a run is a choice of the order after each stage.
\<close>

definition square_source :: "int list" where "square_source = map int [0..<10]"
definition square_map :: "int \<Rightarrow> int" where "square_map i = i * i"
definition square_filter :: "int \<Rightarrow> bool" where "square_filter i \<longleftrightarrow> i mod 2 = 0"
definition square_reduce :: "int list \<Rightarrow> int" where "square_reduce pipe = fold (\<lambda>i result. result + i) pipe 0"

definition square_runs :: "int list \<Rightarrow> int list \<Rightarrow> int list \<Rightarrow> bool" where
  "square_runs mapped filtered dist \<longleftrightarrow>
     mset mapped = mset (map square_map square_source) \<and>
     mset filtered = mset (filter square_filter mapped) \<and>
     mset dist = mset (remdups filtered)"

section \<open>Properties\<close>

lemma collected: "map_reduce_ok MapReduce \<Longrightarrow> \<forall>x \<in> set items. mp x = [Write (g x)] \<Longrightarrow>
   \<exists>r. MapReduce items mp collect_pipe = Inr r \<and> mset r = mset (map g items)"
proof -
  assume ok: "map_reduce_ok MapReduce" and w: "\<forall>x \<in> set items. mp x = [Write (g x)]"
  then have "\<forall>x \<in> set items. cancels (mp x) = []" by simp
  from map_reduce_all [OF ok this, of collect_pipe] obtain pipe
    where p: "mset pipe = mset (concat (map (written \<circ> mp) items))"
      "MapReduce items mp collect_pipe = reduced (collect_pipe pipe)" .
  have "concat (map (written \<circ> mp) items) = map g items" using w by (induction items) auto
  with p show ?thesis by (simp add: reduced_def collect_pipe_def)
qed

lemma mset_concat_map: "mset (concat (map f xs)) = (\<Sum>x\<leftarrow>xs. mset (f x))"
  by (induction xs) auto

lemma sum_list_map_mset: "mset xs = mset ys \<Longrightarrow> (\<Sum>x\<leftarrow>xs. f x) = (\<Sum>x\<leftarrow>ys. (f x :: 'b :: comm_monoid_add))"
  by (metis mset_map sum_mset_sum_list)

lemma flatmap_concat: "flatmap_main order = concat (map friends order)"
proof -
  have "fold (\<lambda>item a. a @ friends item) order acc = acc @ concat (map friends order)" for acc
    by (induction order arbitrary: acc) auto
  then show ?thesis by (simp add: flatmap_main_def)
qed

text \<open>
  C27. What the map-reduce programs compute, for every schedule of the library: \<^verbatim>\<open>checkLegal\<close> returns all
  the given users (each as often as given), the flat map of friends is the same eight names in some
  order, the reducer that writes nothing gives the library's no-output error, and a round of the leak
  test ends with the error of its cancelling mapper.
\<close>

theorem map_reduce_programs_schedule_free:
  assumes "map_reduce_ok MR1" "map_reduce_ok MR2" "map_reduce_ok MR3" "mset order = mset persons"
  shows "(\<exists>r. checkLegal MR1 uids = Inr r \<and> mset r = mset uids) \<and>
    mset (flatmap_main order) = mset [''harry'', ''hermione'', ''ron'', ''sam'', ''frodo'', ''jamie'', ''tyrion'', ''cersei''] \<and>
    deadlock_main MR2 = Inl ErrReduceNoOutput \<and>
    leak_round MR3 = Inl (Errorf ''any'')"
proof (intro conjI)
  have "\<forall>x \<in> set uids. checkLegal_mapper x = [Write (id x)]" by (simp add: checkLegal_mapper_def check_def)
  from collected [OF assms(1) this] show "\<exists>r. checkLegal MR1 uids = Inr r \<and> mset r = mset uids"
    by (auto simp: checkLegal_def)
  have "mset (flatmap_main order) = (\<Sum>x\<leftarrow>persons. mset (friends x))"
    using sum_list_map_mset [OF assms(4)] by (simp add: flatmap_concat mset_concat_map)
  then show "mset (flatmap_main order) = mset [''harry'', ''hermione'', ''ron'', ''sam'', ''frodo'', ''jamie'', ''tyrion'', ''cersei'']"
    by (simp add: persons_def friends_def)
  have "\<forall>x \<in> set deadlock_uids. cancels (deadlock_mapper x) = []" by (simp add: deadlock_mapper_def)
  from map_reduce_all [OF assms(2) this, of deadlock_reducer] obtain pipe
    where "MR2 deadlock_uids deadlock_mapper deadlock_reducer = reduced (deadlock_reducer pipe)" by blast
  then show "deadlock_main MR2 = Inl ErrReduceNoOutput"
    by (simp add: deadlock_main_def deadlock_reducer_def reduced_def)
  have "40 \<in> set leak_items" "cancels (leak_mapper 40) \<noteq> []" "\<forall>p. cancels (collect_pipe p) = []"
    by (simp_all add: leak_items_def leak_mapper_def collect_pipe_def)
  from map_reduce_cancelled [OF assms(3) this(1), where mapper = leak_mapper and reducer = collect_pipe, OF this(2,3)]
  obtain y e
    where "e \<in> set (cancels (leak_mapper y))" "MR3 leak_items leak_mapper collect_pipe = Inl e" by blast
  then show "leak_round MR3 = Inl (Errorf ''any'')"
    by (simp add: leak_round_def) (simp add: leak_mapper_def split: if_splits)
qed

theorem map_reduce_programs_schedule_free_witness:
  "(\<exists>r. checkLegal seq_map_reduce [1, 2, 3] = Inr r \<and> mset r = mset [1, 2, 3]) \<and>
   mset (flatmap_main [''bob'', ''alice'', ''mary'', ''john'']) =
     mset [''harry'', ''hermione'', ''ron'', ''sam'', ''frodo'', ''jamie'', ''tyrion'', ''cersei''] \<and>
   deadlock_main seq_map_reduce = Inl ErrReduceNoOutput \<and> leak_round seq_map_reduce = Inl (Errorf ''any'')"
  by (rule map_reduce_programs_schedule_free [OF seq_map_reduce_ok seq_map_reduce_ok seq_map_reduce_ok])
    (simp add: persons_def)

text \<open>
  Whatever order the stages of the square stream deliver their items in, it reduces to \<open>120\<close>: the
  sum of the distinct even squares below one hundred.
\<close>

theorem square_stream_result:
  assumes "square_runs mapped filtered dist"
  shows "square_reduce dist = 120"
proof -
  have red: "square_reduce xs = sum_list xs" for xs
  proof -
    have "fold (\<lambda>i r. r + i) xs acc = acc + sum_list xs" for acc :: int by (induction xs arbitrary: acc) auto
    then show ?thesis by (simp add: square_reduce_def)
  qed
  have m: "mset mapped = mset (map square_map square_source)" and f: "mset filtered = mset (filter square_filter mapped)"
    and d: "mset dist = mset (remdups filtered)" using assms by (auto simp: square_runs_def)
  have "sum_list dist = sum_list (remdups filtered)" using sum_list_map_mset [OF d, of id] by simp
  also have "\<dots> = (\<Sum>x \<in> set filtered. x)" by (simp add: distinct_sum_list_conv_Sum)
  also have "set filtered = set (filter square_filter (map square_map square_source))"
    using mset_eq_setD [OF f] mset_eq_setD [OF m] by auto
  also have "\<dots> = {0, 4, 16, 36, 64}" by (simp add: square_source_def square_map_def square_filter_def upt_rec)
  finally show ?thesis by (simp add: red)
qed

theorem square_stream_result_witness:
  "square_reduce [64, 36, 16, 4, 0] = 120"
  by (rule square_stream_result [of "map square_map square_source" "[0, 4, 16, 36, 64]"])
    (simp add: square_runs_def square_source_def square_map_def square_filter_def upt_rec)

end
