(* ===== verification/Traffic_Counters.thy ===== *)
theory Traffic_Counters
  imports Go_Prelude "HOL-Library.Word" "HOL-Library.Multiset" "HOL-Library.Signed_Division"
begin

text \<open>
  The load generators and their counters: the client of the breaker demo (\<^verbatim>\<open>http/breaker/client\<close>), the
  breaker simulation (\<^verbatim>\<open>breaker/main.go\<close>), the load client (\<^verbatim>\<open>load/simulate/client\<close>), the in-flight
  tracker (\<^verbatim>\<open>load/main.go\<close>) and the two limiter clients (\<^verbatim>\<open>limit/period\<close>, \<^verbatim>\<open>limit/token\<close>). Each program
  is a list of atomic events in the order they happen, over any number of goroutines; counters have
  the width of the source.

  The locale \<open>ledger\<close> is their common interface: every event changes what is booked by a fixed
  amount, so after any interleaving the books show the sum of the events.
\<close>

section \<open>Ledgers\<close>

locale ledger =
  fixes apply_event :: "'e \<Rightarrow> 's \<Rightarrow> 's"
    and booked :: "'s \<Rightarrow> 'n :: comm_monoid_add"
    and worth :: "'e \<Rightarrow> 'n"
  assumes event_booked: "booked (apply_event e s) = booked s + worth e"
begin

lemma booked_all: "booked (fold apply_event es s) = booked s + sum_list (map worth es)"
  by (induction es arbitrary: s) (simp_all add: event_booked add.assoc)

lemma order_irrelevant:
  assumes "mset es = mset es'"
  shows "booked (fold apply_event es s) = booked (fold apply_event es' s)"
proof -
  have "sum_list (map worth es) = sum_list (map worth es')"
    using assms by (metis mset_map sum_mset_sum_list)
  then show ?thesis by (simp add: booked_all)
qed

end

lemma sum_list_indicator:
  "sum_list (map (\<lambda>e. if P e then 1 else 0) es) = (of_nat (length (filter P es)) :: 'n :: semiring_1)"
  by (induction es) (simp_all add: algebra_simps)

section \<open>The client of the breaker demo\<close>

record counting =
  ct_ok :: "64 word"
  ct_fail :: "64 word"
  ct_reject :: "64 word"
  ct_errs :: "64 word"
  ct_unknown :: "64 word"

definition zero_counting :: counting where
  "zero_counting = \<lparr>ct_ok = 0, ct_fail = 0, ct_reject = 0, ct_errs = 0, ct_unknown = 0\<rparr>"

text \<open>The methods run under the metric's lock, one after the other.\<close>

definition metric_addOk :: "counting \<Rightarrow> counting" where
  "metric_addOk m = m\<lparr>ct_ok := ct_ok m + 1\<rparr>"
definition metric_addFail :: "counting \<Rightarrow> counting" where
  "metric_addFail m = m\<lparr>ct_ok := ct_ok m + 1\<rparr>"
definition metric_addReject :: "counting \<Rightarrow> counting" where
  "metric_addReject m = m\<lparr>ct_ok := ct_ok m + 1\<rparr>"
definition metric_addErrs :: "counting \<Rightarrow> counting" where
  "metric_addErrs m = m\<lparr>ct_errs := ct_errs m + 1\<rparr>"
definition metric_addUnknown :: "counting \<Rightarrow> counting" where
  "metric_addUnknown m = m\<lparr>ct_unknown := ct_unknown m + 1\<rparr>"

definition metric_reset :: "counting \<Rightarrow> counting \<times> counting" where
  "metric_reset m =
     (let result = \<lparr>ct_ok = ct_ok m, ct_fail = ct_fail m, ct_reject = ct_reject m, ct_errs = ct_errs m,
                    ct_unknown = ct_unknown m\<rparr>
      in (m\<lparr>ct_ok := 0, ct_fail := 0, ct_reject := 0, ct_errs := 0, ct_unknown := 0\<rparr>, result))"

text \<open>The outcome of \<^verbatim>\<open>http.Get\<close>, and what the goroutine of \<^verbatim>\<open>runRequests\<close> does with it.\<close>

datatype get_outcome = GetError | GetStatus nat

definition runRequests_count :: "get_outcome \<Rightarrow> counting \<Rightarrow> counting" where
  "runRequests_count out m =
     (case out of
        GetError \<Rightarrow> metric_addErrs m
      | GetStatus c \<Rightarrow>
          if c = 200 then metric_addOk m
          else if c = 500 then metric_addFail m
          else if c = 503 then metric_addReject m
          else metric_addUnknown m)"

text \<open>One of the two metrics with the rows written so far: an answered request, or the reporter's tick.\<close>

datatype client_event = Answered get_outcome | ReportTick

fun client_event_step :: "client_event \<Rightarrow> counting \<times> counting list \<Rightarrow> counting \<times> counting list" where
  "client_event_step (Answered out) (m, rows) = (runRequests_count out m, rows)"
| "client_event_step ReportTick (m, rows) = (case metric_reset m of (m', row) \<Rightarrow> (m', rows @ [row]))"

definition counting_total :: "counting \<Rightarrow> 64 word" where
  "counting_total c = ct_ok c + ct_fail c + ct_reject c + ct_errs c + ct_unknown c"

definition client_booked :: "counting \<times> counting list \<Rightarrow> 64 word" where
  "client_booked s = counting_total (fst s) + sum_list (map counting_total (snd s))"

fun client_worth :: "client_event \<Rightarrow> 64 word" where
  "client_worth (Answered _) = 1"
| "client_worth ReportTick = 0"

lemmas metric_defs = metric_addOk_def metric_addFail_def metric_addReject_def metric_addErrs_def
  metric_addUnknown_def metric_reset_def runRequests_count_def

interpretation demo: ledger client_event_step client_booked client_worth
proof (unfold_locales, goal_cases)
  case (1 e s)
  then show ?case
    by (cases s; cases e)
      (auto simp: client_booked_def counting_total_def metric_defs Let_def split: get_outcome.splits)
qed

definition never_failed :: "counting \<times> counting list \<Rightarrow> bool" where
  "never_failed s \<longleftrightarrow> (\<forall>c \<in> insert (fst s) (set (snd s)). ct_fail c = 0 \<and> ct_reject c = 0)"

lemma never_failed_step: "never_failed s \<Longrightarrow> never_failed (client_event_step e s)"
  by (cases s; cases e) (auto simp: never_failed_def metric_defs Let_def split: get_outcome.splits)

lemma never_failed_all: "never_failed s \<Longrightarrow> never_failed (fold client_event_step es s)"
  by (induction es arbitrary: s) (simp_all add: never_failed_step)

section \<open>The breaker simulation\<close>

record sim_server =
  sv_state :: "32 word"

definition newServer :: sim_server where "newServer = \<lparr>sv_state = 0\<rparr>"

record sim_metric =
  sm_calls :: "64 word"

definition sim_addCall :: "sim_metric \<Rightarrow> sim_metric" where
  "sim_addCall m = m\<lparr>sm_calls := sm_calls m + 1\<rparr>"

definition sim_reset :: "sim_metric \<Rightarrow> sim_metric \<times> 64 word" where
  "sim_reset m = (m\<lparr>sm_calls := 0\<rparr>, sm_calls m)"

definition sim_serve :: "sim_server \<Rightarrow> sim_metric \<Rightarrow> sim_metric \<times> bool" where
  "sim_serve s m = (sim_addCall m, sv_state s = 1)"

definition breakRange :: nat where "breakRange = 20"
definition workRange :: nat where "workRange = 50"

text \<open>One round of the server's goroutine: with the random number \<open>v\<close>, the pause in seconds and the
  new state. \<^verbatim>\<open>state ^= 1\<close> flips the goroutine's own copy, which it then stores.\<close>

definition sim_pause :: "(nat \<Rightarrow> nat) \<Rightarrow> 32 word \<Rightarrow> nat" where
  "sim_pause int31n state = (let v = (if state = 0 then int31n breakRange else int31n workRange) in v + 1)"

unbundle bit_operations_syntax

definition sim_flip :: "32 word \<Rightarrow> 32 word" where
  "sim_flip state = state XOR 1"

text \<open>
  The simulation's events: the server changes state, a request reaches the breaker (which runs it or
  rejects it: \<^verbatim>\<open>breaker.Do\<close> is the library's), the reporter's tick.
\<close>

datatype sim_event = ServerFlips | Request bool | SimTick

record sim =
  si_server :: sim_server
  si_metric :: sim_metric
  si_rows :: "(32 word \<times> 64 word) list"
  si_results :: "go_error option list"

definition ErrServiceUnavailable :: go_error where
  "ErrServiceUnavailable = Sentinel ''circuit breaker is open''"

definition runBreaker_call :: "sim \<Rightarrow> sim" where
  "runBreaker_call s =
     (case sim_serve (si_server s) (si_metric s) of
        (m, served) \<Rightarrow> s\<lparr>si_metric := m,
          si_results := si_results s @ [if served then None else Some ErrServiceUnavailable]\<rparr>)"

fun sim_step :: "sim_event \<Rightarrow> sim \<Rightarrow> sim" where
  "sim_step ServerFlips s = s\<lparr>si_server := \<lparr>sv_state = sim_flip (sv_state (si_server s))\<rparr>\<rparr>"
| "sim_step (Request accepted) s = (if accepted then runBreaker_call s else s)"
| "sim_step SimTick s =
     (case sim_reset (si_metric s) of
        (m, gcalls) \<Rightarrow> s\<lparr>si_metric := m, si_rows := si_rows s @ [(sv_state (si_server s), gcalls)]\<rparr>)"

definition sim_start :: sim where
  "sim_start = \<lparr>si_server = newServer, si_metric = \<lparr>sm_calls = 0\<rparr>, si_rows = [], si_results = []\<rparr>"

definition sim_booked :: "sim \<Rightarrow> 64 word" where
  "sim_booked s = sm_calls (si_metric s) + sum_list (map snd (si_rows s))"

fun sim_worth :: "sim_event \<Rightarrow> 64 word" where
  "sim_worth (Request True) = 1"
| "sim_worth _ = 0"

lemmas sim_defs = sim_reset_def sim_serve_def sim_addCall_def runBreaker_call_def

interpretation simulation: ledger sim_step sim_booked sim_worth
proof (unfold_locales, goal_cases)
  case (1 e s)
  then show ?case by (cases e rule: sim_worth.cases) (auto simp: sim_booked_def sim_defs)
qed

definition sim_inv :: "sim \<Rightarrow> bool" where
  "sim_inv s \<longleftrightarrow> sv_state (si_server s) \<in> {0, 1} \<and> (\<forall>r \<in> set (si_rows s). fst r \<in> {0, 1})"

lemma sim_flip_01: "w \<in> {0, 1} \<Longrightarrow> sim_flip w \<in> {0, 1}"
  by (auto simp: sim_flip_def)

lemma sim_inv_step: "sim_inv s \<Longrightarrow> sim_inv (sim_step e s)"
  by (cases e) (use sim_flip_01 in \<open>auto simp: sim_inv_def sim_defs\<close>)

lemma sim_inv_all: "sim_inv s \<Longrightarrow> sim_inv (fold sim_step es s)"
  by (induction es arbitrary: s) (simp_all add: sim_inv_step)

lemma sim_state_parity:
  "sv_state (si_server s) \<in> {0, 1} \<Longrightarrow>
   sv_state (si_server (fold sim_step es s)) =
     (if even (length (filter (\<lambda>e. e = ServerFlips) es)) then sv_state (si_server s)
      else sim_flip (sv_state (si_server s)))"
proof (induction es arbitrary: s)
  case (Cons e es)
  have "sv_state (si_server (sim_step e s)) =
      (if e = ServerFlips then sim_flip (sv_state (si_server s)) else sv_state (si_server s))"
    by (cases e) (auto simp: sim_defs)
  with Cons sim_flip_01 [OF Cons.prems] show ?case by (auto simp: sim_flip_def)
qed simp

text \<open>What the calls that pass the breaker return, given whether the server is up at first.\<close>

fun sim_expected :: "bool \<Rightarrow> sim_event list \<Rightarrow> go_error option list" where
  "sim_expected up [] = []"
| "sim_expected up (ServerFlips # es) = sim_expected (\<not> up) es"
| "sim_expected up (Request True # es) = (if up then None else Some ErrServiceUnavailable) # sim_expected up es"
| "sim_expected up (Request False # es) = sim_expected up es"
| "sim_expected up (SimTick # es) = sim_expected up es"

lemma sim_results:
  "sv_state (si_server s) \<in> {0, 1} \<Longrightarrow>
   si_results (fold sim_step es s) = si_results s @ sim_expected (sv_state (si_server s) = 1) es"
proof (induction "sv_state (si_server s) = 1" es arbitrary: s rule: sim_expected.induct)
  case (2 es)
  then show ?case using sim_flip_01 [OF 2(2)] by (auto simp: sim_flip_def)
qed (auto simp: sim_defs)

section \<open>The load client\<close>

definition errServiceUnavailable :: go_error where "errServiceUnavailable = Sentinel ''service unavailable''"
definition ErrTimeout :: go_error where "ErrTimeout = Sentinel ''context deadline exceeded''"

text \<open>\<^verbatim>\<open>http.Get\<close> gives an error or a status code.\<close>

definition load_job :: "nat result \<Rightarrow> go_error option" where
  "load_job r = (case r of Inl err \<Rightarrow> Some err | Inr code \<Rightarrow> if code = 200 then None else Some errServiceUnavailable)"

record load =
  ld_total :: "64 word"
  ld_pass :: "64 word"
  ld_fail :: "64 word"
  ld_drop :: "64 word"
  ld_seconds :: "64 word"
  ld_part :: "64 word list"
  ld_rows :: "64 word list list"

definition load_start :: load where
  "load_start = \<lparr>ld_total = 0, ld_pass = 0, ld_fail = 0, ld_drop = 0, ld_seconds = 1, ld_part = [], ld_rows = []\<rparr>"

text \<open>\<^verbatim>\<open>issueRequest\<close> has two atomic parts: counting the request, and, after \<^verbatim>\<open>fx.DoWithTimeout\<close> returned
  (the job's error, or a timeout), counting its outcome.\<close>

definition issue_begin :: "load \<Rightarrow> load" where
  "issue_begin s = s\<lparr>ld_total := ld_total s + 1\<rparr>"

definition issue_end :: "go_error option \<Rightarrow> load \<Rightarrow> load" where
  "issue_end err s =
     (case err of
        None \<Rightarrow> s\<lparr>ld_pass := ld_pass s + 1\<rparr>
      | Some e \<Rightarrow> if e = errServiceUnavailable then s\<lparr>ld_drop := ld_drop s + 1\<rparr> else s\<lparr>ld_fail := ld_fail s + 1\<rparr>)"

text \<open>\<^verbatim>\<open>reset\<close> reads and clears the counters one by one, then writes the row; \<open>ld_part\<close> are the values it
  has so far.\<close>

definition load_reset_step :: "load \<Rightarrow> load" where
  "load_reset_step s =
     (let p = ld_part s
      in if length p = 0 then s\<lparr>ld_part := [ld_seconds s]\<rparr>
         else if length p = 1 then s\<lparr>ld_part := p @ [ld_total s], ld_total := 0\<rparr>
         else if length p = 2 then s\<lparr>ld_part := p @ [ld_pass s], ld_pass := 0\<rparr>
         else if length p = 3 then s\<lparr>ld_part := p @ [ld_fail s], ld_fail := 0\<rparr>
         else if length p = 4 then s\<lparr>ld_part := [], ld_rows := ld_rows s @ [p @ [ld_drop s]], ld_drop := 0\<rparr>
         else s)"

datatype load_event = Begin | End "go_error option" | ResetStep | NextSecond

fun load_step :: "load_event \<Rightarrow> load \<Rightarrow> load" where
  "load_step Begin s = issue_begin s"
| "load_step (End err) s = issue_end err s"
| "load_step ResetStep s = load_reset_step s"
| "load_step NextSecond s = s\<lparr>ld_seconds := ld_seconds s + 1\<rparr>"

text \<open>What has been booked as begun, and as ended with each outcome: in the counters, in the row being
  collected, and in the rows written.\<close>

definition at_col :: "nat \<Rightarrow> 64 word list \<Rightarrow> 64 word" where
  "at_col i r = (if i < length r then r ! i else 0)"

definition col :: "nat \<Rightarrow> load \<Rightarrow> 64 word" where
  "col i s = at_col i (ld_part s) + sum_list (map (at_col i) (ld_rows s))"

fun load_worth :: "load_event \<Rightarrow> 64 word \<times> 64 word \<times> 64 word \<times> 64 word" where
  "load_worth Begin = (1, 0, 0, 0)"
| "load_worth (End None) = (0, 1, 0, 0)"
| "load_worth (End (Some e)) = (if e = errServiceUnavailable then (0, 0, 0, 1) else (0, 0, 1, 0))"
| "load_worth _ = (0, 0, 0, 0)"

lemma at_col_append [simp]:
  "at_col i (xs @ [x]) = (if i = length xs then x else at_col i xs)"
  by (auto simp: at_col_def nth_append)

lemma at_col_beyond [simp]: "length xs \<le> i \<Longrightarrow> at_col i xs = 0"
  by (simp add: at_col_def)

lemma load_booked_step:
  "ld_total (load_step e s) + col 1 (load_step e s) = ld_total s + col 1 s + fst (load_worth e)"
  "ld_pass (load_step e s) + col 2 (load_step e s) = ld_pass s + col 2 s + fst (snd (load_worth e))"
  "ld_fail (load_step e s) + col 3 (load_step e s) = ld_fail s + col 3 s + fst (snd (snd (load_worth e)))"
  "ld_drop (load_step e s) + col 4 (load_step e s) = ld_drop s + col 4 s + snd (snd (snd (load_worth e)))"
proof -
  consider "e = Begin" | "e = End None" | x where "e = End (Some x)" | "e = ResetStep" | "e = NextSecond"
    by (cases e) (auto intro: option.exhaust)
  note step_cases = this
  show "ld_total (load_step e s) + col 1 (load_step e s) = ld_total s + col 1 s + fst (load_worth e)"
    using step_cases by cases (auto simp: col_def issue_begin_def issue_end_def load_reset_step_def Let_def)
  show "ld_pass (load_step e s) + col 2 (load_step e s) = ld_pass s + col 2 s + fst (snd (load_worth e))"
    using step_cases by cases (auto simp: col_def issue_begin_def issue_end_def load_reset_step_def Let_def)
  show "ld_fail (load_step e s) + col 3 (load_step e s) = ld_fail s + col 3 s + fst (snd (snd (load_worth e)))"
    using step_cases by cases (auto simp: col_def issue_begin_def issue_end_def load_reset_step_def Let_def)
  show "ld_drop (load_step e s) + col 4 (load_step e s) = ld_drop s + col 4 s + snd (snd (snd (load_worth e)))"
    using step_cases by cases (auto simp: col_def issue_begin_def issue_end_def load_reset_step_def Let_def)
qed

interpretation begun: ledger load_step "\<lambda>s. ld_total s + col 1 s" "\<lambda>e. fst (load_worth e)"
  by unfold_locales (rule load_booked_step)

interpretation passed: ledger load_step "\<lambda>s. ld_pass s + col 2 s" "\<lambda>e. fst (snd (load_worth e))"
  by unfold_locales (rule load_booked_step)

interpretation failed: ledger load_step "\<lambda>s. ld_fail s + col 3 s" "\<lambda>e. fst (snd (snd (load_worth e)))"
  by unfold_locales (rule load_booked_step)

interpretation dropped: ledger load_step "\<lambda>s. ld_drop s + col 4 s" "\<lambda>e. snd (snd (snd (load_worth e)))"
  by unfold_locales (rule load_booked_step)

section \<open>The limiter clients\<close>

datatype take_code = TakeUnknown | Allowed | HitQuota | OverQuota

record limit_counts =
  lc_allowed :: "32 word"
  lc_denied :: "32 word"

text \<open>One turn of a goroutine of \<^verbatim>\<open>limit/period\<close>: an error ends the process (\<^verbatim>\<open>log.Fatal\<close>).\<close>

definition period_turn :: "take_code result \<Rightarrow> limit_counts \<Rightarrow> limit_counts result" where
  "period_turn r c =
     (case r of
        Inl err \<Rightarrow> Inl err
      | Inr v \<Rightarrow> if v = Allowed then Inr (c\<lparr>lc_allowed := lc_allowed c + 1\<rparr>) else Inr (c\<lparr>lc_denied := lc_denied c + 1\<rparr>))"

definition token_turn :: "bool \<Rightarrow> limit_counts \<Rightarrow> limit_counts" where
  "token_turn allow c =
     (if allow then c\<lparr>lc_allowed := lc_allowed c + 1\<rparr> else c\<lparr>lc_denied := lc_denied c + 1\<rparr>)"

fun period_run :: "take_code result list \<Rightarrow> limit_counts \<Rightarrow> limit_counts result" where
  "period_run [] c = Inr c"
| "period_run (r # rs) c = (case period_turn r c of Inl err \<Rightarrow> Inl err | Inr c' \<Rightarrow> period_run rs c')"

definition limit_start :: limit_counts where "limit_start = \<lparr>lc_allowed = 0, lc_denied = 0\<rparr>"

text \<open>The summary line: the counts and the rate over the five seconds, in signed 32-bit arithmetic.\<close>

definition limit_summary :: "limit_counts \<Rightarrow> 32 word \<times> 32 word \<times> 32 word" where
  "limit_summary c = (lc_allowed c, lc_denied c, word_of_int (sint (lc_allowed c + lc_denied c) sdiv 5))"

interpretation tokens_allowed: ledger token_turn lc_allowed "\<lambda>allow. if allow then 1 else 0"
  by unfold_locales (simp add: token_turn_def)

interpretation tokens_denied: ledger token_turn lc_denied "\<lambda>allow. if \<not> allow then 1 else 0"
  by unfold_locales (simp add: token_turn_def)

lemma period_run_ok:
  "\<forall>r \<in> set rs. is_ok r \<Longrightarrow> period_run rs c = Inr (fold token_turn (map (\<lambda>r. r = Inr Allowed) rs) c)"
  by (induction rs arbitrary: c) (auto simp: period_turn_def token_turn_def split: if_splits)

lemma period_run_err: "\<exists>r \<in> set rs. \<not> is_ok r \<Longrightarrow> \<exists>err. period_run rs c = Inl err \<and> Inl err \<in> set rs"
proof (induction rs arbitrary: c)
  case (Cons r rs)
  then show ?case by (cases r) (auto simp: period_turn_def split: if_splits)
qed simp

section \<open>Requests in flight\<close>

text \<open>\<^verbatim>\<open>issueRequest\<close> of \<^verbatim>\<open>load/main.go\<close> adds one to \<open>flying\<close> and later adds the complement of zero; both
  additions return the new value.\<close>

definition flying_up :: "64 word \<Rightarrow> 64 word" where "flying_up f = f + 1"
definition flying_down :: "64 word \<Rightarrow> 64 word" where "flying_down f = f + NOT 0"

datatype fly_event = Up | Down

fun fly_step :: "fly_event \<Rightarrow> 64 word \<Rightarrow> 64 word" where
  "fly_step Up f = flying_up f"
| "fly_step Down f = flying_down f"

interpretation flight: ledger fly_step "\<lambda>f. f" "\<lambda>e. case e of Up \<Rightarrow> 1 | Down \<Rightarrow> - 1"
proof (unfold_locales, goal_cases)
  case (1 e s)
  then show ?case by (cases e) (simp_all add: flying_up_def flying_down_def)
qed

definition ups :: "fly_event list \<Rightarrow> nat" where "ups es = length (filter (\<lambda>e. e = Up) es)"
definition downs :: "fly_event list \<Rightarrow> nat" where "downs es = length (filter (\<lambda>e. e = Down) es)"

lemma fly_sum: "sum_list (map (\<lambda>e. case e of Up \<Rightarrow> 1 | Down \<Rightarrow> - 1) es) = (of_nat (ups es) - of_nat (downs es) :: 64 word)"
proof (induction es)
  case (Cons e es)
  then show ?case by (cases e) (simp_all add: ups_def downs_def algebra_simps)
qed (simp add: ups_def downs_def)

section \<open>Properties\<close>

text \<open>
  In the breaker demo's client no answered request is lost: after any sequence of answers and
  report ticks, the rows written and the current counters add up to the number of answers. But the
  \<^verbatim>\<open>fail\<close> and \<^verbatim>\<open>reject\<close> columns are always zero: \<^verbatim>\<open>addFail\<close> and \<^verbatim>\<open>addReject\<close> count the request as \<^verbatim>\<open>ok\<close>, so
  the drop ratio the program exists to show never leaves zero.
\<close>

theorem breaker_client_counts:
  "let s = fold client_event_step es (zero_counting, [])
   in client_booked s = of_nat (length (filter (\<lambda>e. e \<noteq> ReportTick) es)) \<and>
      (\<forall>row \<in> set (snd s). ct_fail row = 0 \<and> ct_reject row = 0)"
proof -
  have w: "client_worth = (\<lambda>e. if e \<noteq> ReportTick then 1 else 0)"
  proof
    fix e show "client_worth e = (if e \<noteq> ReportTick then 1 else 0)" by (cases e) auto
  qed
  have z: "client_booked (zero_counting, []) = 0" by (simp add: client_booked_def counting_total_def zero_counting_def)
  have "never_failed (zero_counting, [])" by (simp add: never_failed_def zero_counting_def)
  from never_failed_all [OF this, of es] show ?thesis
    using demo.booked_all [of es "(zero_counting, [])"]
    unfolding w sum_list_indicator z by (simp add: Let_def never_failed_def)
qed

theorem breaker_client_counts_witness:
  "snd (fold client_event_step [Answered (GetStatus 503), Answered (GetStatus 200), ReportTick] (zero_counting, [])) =
     [\<lparr>ct_ok = 2, ct_fail = 0, ct_reject = 0, ct_errs = 0, ct_unknown = 0\<rparr>] \<and>
   client_booked (fold client_event_step [Answered (GetStatus 503), Answered (GetStatus 200), ReportTick] (zero_counting, [])) = 2"
  using breaker_client_counts [of "[Answered (GetStatus 503), Answered (GetStatus 200), ReportTick]"]
  by (simp add: metric_defs zero_counting_def Let_def)

text \<open>
  C30. In the load client every request is counted once as begun and once under its outcome, however
  the goroutines and the five separate reads of \<^verbatim>\<open>reset\<close> interleave: the counters, the row being
  collected and the rows written add up, column by column, to the events that happened.
\<close>

theorem load_client_conservation:
  "let s = fold load_step es load_start
   in ld_total s + col 1 s = of_nat (length (filter (\<lambda>e. e = Begin) es)) \<and>
      ld_pass s + col 2 s = of_nat (length (filter (\<lambda>e. e = End None) es)) \<and>
      ld_fail s + col 3 s = of_nat (length (filter (\<lambda>e. \<exists>x. e = End (Some x) \<and> x \<noteq> errServiceUnavailable) es)) \<and>
      ld_drop s + col 4 s = of_nat (length (filter (\<lambda>e. e = End (Some errServiceUnavailable)) es))"
proof -
  have w: "fst (load_worth e) = (if e = Begin then 1 else 0)"
    "fst (snd (load_worth e)) = (if e = End None then 1 else 0)"
    "fst (snd (snd (load_worth e))) = (if \<exists>x. e = End (Some x) \<and> x \<noteq> errServiceUnavailable then 1 else 0)"
    "snd (snd (snd (load_worth e))) = (if e = End (Some errServiceUnavailable) then 1 else 0)" for e
    by (cases e rule: load_worth.cases; simp)+
  show ?thesis
    using begun.booked_all [of es load_start] passed.booked_all [of es load_start]
      failed.booked_all [of es load_start] dropped.booked_all [of es load_start]
    unfolding w sum_list_indicator by (simp add: Let_def load_start_def col_def)
qed

text \<open>
  The breaker simulation: the server's state is always zero or one and is the parity of its
  flips, also in every row reported; the calls in the rows and the counter add up to the requests
  the breaker let through, and each of them failed exactly when the server was down.
\<close>

theorem breaker_simulation_counts:
  "let s = fold sim_step es sim_start
   in sim_booked s = of_nat (length (filter (\<lambda>e. e = Request True) es)) \<and>
      sv_state (si_server s) = (if even (length (filter (\<lambda>e. e = ServerFlips) es)) then 0 else 1) \<and>
      (\<forall>r \<in> set (si_rows s). fst r = 0 \<or> fst r = 1) \<and>
      si_results s = sim_expected False es"
proof -
  have w: "sim_worth = (\<lambda>e. if e = Request True then 1 else 0)"
  proof
    fix e show "sim_worth e = (if e = Request True then 1 else 0)" by (cases e rule: sim_worth.cases) auto
  qed
  have st: "sv_state (si_server sim_start) = 0" "si_results sim_start = []" "sim_booked sim_start = 0" "sim_inv sim_start"
    by (simp_all add: sim_start_def newServer_def sim_booked_def sim_inv_def)
  from sim_inv_all [OF st(4), of es] show ?thesis
    using simulation.booked_all [of es sim_start] sim_state_parity [of sim_start es] sim_results [of sim_start es]
    unfolding w sum_list_indicator by (simp add: Let_def st sim_inv_def sim_flip_def)
qed

theorem breaker_simulation_counts_witness:
  "let s = fold sim_step [Request True, ServerFlips, Request True, Request False, SimTick] sim_start
   in si_rows s = [(1, 2)] \<and> si_results s = [Some ErrServiceUnavailable, None]"
  using breaker_simulation_counts [of "[Request True, ServerFlips, Request True, Request False, SimTick]"]
  by (simp add: sim_defs sim_start_def newServer_def sim_flip_def Let_def)

text \<open>
  The limiter clients count every decision exactly once: when no take fails, \<^verbatim>\<open>allowed\<close> is the
  number of takes the period limiter answered with \<^verbatim>\<open>Allowed\<close> and \<^verbatim>\<open>denied\<close> that of all others (modulo
  \<open>2 ^ 32\<close>), whatever goroutine made them; when one fails, the process ends with a take's error and
  reports nothing. The token limiter's client counts the same way.
\<close>

theorem limiter_clients_count:
  "(case period_run rs limit_start of
      Inr c \<Rightarrow> (\<forall>r \<in> set rs. is_ok r) \<and>
        lc_allowed c = of_nat (length (filter (\<lambda>r. r = Inr Allowed) rs)) \<and>
        lc_allowed c + lc_denied c = of_nat (length rs)
    | Inl err \<Rightarrow> Inl err \<in> set rs) \<and>
   (let c = fold token_turn as limit_start
    in lc_allowed c = of_nat (length (filter (\<lambda>a. a) as)) \<and> lc_allowed c + lc_denied c = of_nat (length as))"
proof -
  have tok: "lc_allowed (fold token_turn as limit_start) = of_nat (length (filter (\<lambda>a. a) as)) \<and>
      lc_allowed (fold token_turn as limit_start) + lc_denied (fold token_turn as limit_start) = of_nat (length as)" for as
  proof -
    have "length (filter (\<lambda>a. a) as) + length (filter (\<lambda>a. \<not> a) as) = length as"
      by (rule sum_length_filter_compl)
    then have "(of_nat (length (filter (\<lambda>a. a) as)) + of_nat (length (filter (\<lambda>a. \<not> a) as)) :: 32 word) = of_nat (length as)"
      by (metis of_nat_add)
    then show ?thesis
      using tokens_allowed.booked_all [of as limit_start] tokens_denied.booked_all [of as limit_start]
      unfolding sum_list_indicator by (simp add: limit_start_def)
  qed
  have f: "length (filter (\<lambda>a. a) (map (\<lambda>r. r = Inr Allowed) rs)) = length (filter (\<lambda>r. r = Inr Allowed) rs)"
    by (simp add: filter_map comp_def)
  show ?thesis
  proof (cases "\<forall>r \<in> set rs. is_ok r")
    case True
    with period_run_ok [OF this, of limit_start] tok [of "map (\<lambda>r. r = Inr Allowed) rs"] tok [of as] f
    show ?thesis by (auto simp: Let_def)
  next
    case False
    with period_run_err [of rs limit_start] tok [of as] show ?thesis by (auto simp: Let_def)
  qed
qed

theorem limiter_clients_count_witness:
  "period_run [Inr Allowed, Inr HitQuota, Inr OverQuota] limit_start = Inr \<lparr>lc_allowed = 1, lc_denied = 2\<rparr> \<and>
   limit_summary \<lparr>lc_allowed = 1, lc_denied = 2\<rparr> = (1, 2, 0)"
  using limiter_clients_count [of "[Inr Allowed, Inr HitQuota, Inr OverQuota]" "[]"]
  by (auto simp: period_turn_def limit_start_def limit_summary_def signed_divide_int_def)

text \<open>
  The in-flight counter of the load test is exact and never wraps: when every request that ends
  has begun before and fewer than \<open>2 ^ 64\<close> are in flight, adding the complement of zero takes one away, and
  the counter is at every moment the number of requests in flight.
\<close>

theorem flying_exact:
  assumes "downs es \<le> ups es" "ups es - downs es < 2 ^ 64"
  shows "unat (fold fly_step es 0) = ups es - downs es"
proof -
  have "fold fly_step es 0 = (of_nat (ups es - downs es) :: 64 word)"
    using flight.booked_all [of es 0] assms(1) by (simp add: fly_sum of_nat_diff)
  then show ?thesis using assms(2) by (simp add: unat_of_nat take_bit_nat_eq_self)
qed

theorem flying_exact_witness: "unat (fold fly_step [Up, Up, Down] 0) = 1"
  using flying_exact [of "[Up, Up, Down]"] by (simp add: ups_def downs_def)

end
