(* ===== verification/Worker_Group.thy ===== *)
theory Worker_Group
  imports Traffic_Counters
begin

text \<open>
  The goroutines of the limiter clients (\<^verbatim>\<open>limit/period\<close>, \<^verbatim>\<open>limit/token\<close>). Both programs start a number of workers,
  count each with a wait group, let a timer close a channel after five seconds and print their counters once
  every worker has returned. The limiters and their store are parameters; what a worker's turn does is
  the code's.
\<close>

section \<open>The group\<close>

text \<open>
  A worker is at its \<^verbatim>\<open>select\<close>, in the default branch, or has returned. The main goroutine starts worker \<open>i\<close>, is in
  \<^verbatim>\<open>wait.Wait\<close>, has printed, or the process was ended by \<^verbatim>\<open>log.Fatal\<close>. \<open>gr_turns\<close> is the history of finished turns.
\<close>

datatype worker_pc = AtSelect | InTurn | Returned

datatype group_pc = Spawning nat | Waiting | Finished | Killed go_error

record 's worker_group =
  gr_main :: group_pc
  gr_workers :: "worker_pc list"
  gr_wait :: nat
  gr_quit :: bool
  gr_panicked :: bool
  gr_shared :: 's
  gr_turns :: "nat list"

definition group_start :: "'s \<Rightarrow> 's worker_group" where
  "group_start c = \<lparr>gr_main = Spawning 0, gr_workers = [], gr_wait = 0, gr_quit = False, gr_panicked = False,
     gr_shared = c, gr_turns = []\<rparr>"

fun ended :: "group_pc \<Rightarrow> bool" where
  "ended Finished = True"
| "ended (Killed _) = True"
| "ended _ = False"

definition group_alive :: "'s worker_group \<Rightarrow> bool" where
  "group_alive s \<longleftrightarrow> \<not> gr_panicked s \<and> \<not> ended (gr_main s)"

definition spawn_worker :: "nat \<Rightarrow> 's worker_group \<Rightarrow> 's worker_group" where
  "spawn_worker i s = s\<lparr>gr_main := Spawning (Suc i), gr_wait := gr_wait s + 1, gr_workers := gr_workers s @ [AtSelect]\<rparr>"

text \<open>\<^verbatim>\<open>wait.Done(); return\<close>: the counter of a wait group may not go below zero.\<close>

definition worker_leave :: "nat \<Rightarrow> 's worker_group \<Rightarrow> 's worker_group" where
  "worker_leave i s =
     (if gr_wait s = 0 then s\<lparr>gr_panicked := True\<rparr>
      else s\<lparr>gr_wait := gr_wait s - 1, gr_workers := (gr_workers s)[i := Returned]\<rparr>)"

definition worker_turn :: "(nat \<Rightarrow> 's \<Rightarrow> 's result) \<Rightarrow> nat \<Rightarrow> 's worker_group \<Rightarrow> 's worker_group" where
  "worker_turn work i s =
     (case work i (gr_shared s) of
        Inl err \<Rightarrow> s\<lparr>gr_main := Killed err\<rparr>
      | Inr c \<Rightarrow> s\<lparr>gr_shared := c, gr_workers := (gr_workers s)[i := AtSelect], gr_turns := gr_turns s @ [i]\<rparr>)"

text \<open>With the channel closed the \<^verbatim>\<open>select\<close> takes its case, otherwise the default branch.\<close>

inductive group_step :: "(nat \<Rightarrow> 's \<Rightarrow> 's result) \<Rightarrow> nat \<Rightarrow> 's worker_group \<Rightarrow> 's worker_group \<Rightarrow> bool"
  for work :: "nat \<Rightarrow> 's \<Rightarrow> 's result" and n :: nat where
  spawn: "group_alive s \<Longrightarrow> gr_main s = Spawning i \<Longrightarrow> i < n \<Longrightarrow> group_step work n s (spawn_worker i s)"
| spawned: "group_alive s \<Longrightarrow> gr_main s = Spawning i \<Longrightarrow> \<not> i < n \<Longrightarrow> group_step work n s (s\<lparr>gr_main := Waiting\<rparr>)"
| timer: "group_alive s \<Longrightarrow> \<not> gr_quit s \<Longrightarrow> group_step work n s (s\<lparr>gr_quit := True\<rparr>)"
| take_default: "group_alive s \<Longrightarrow> i < length (gr_workers s) \<Longrightarrow> gr_workers s ! i = AtSelect \<Longrightarrow> \<not> gr_quit s \<Longrightarrow>
    group_step work n s (s\<lparr>gr_workers := (gr_workers s)[i := InTurn]\<rparr>)"
| turn: "group_alive s \<Longrightarrow> i < length (gr_workers s) \<Longrightarrow> gr_workers s ! i = InTurn \<Longrightarrow> group_step work n s (worker_turn work i s)"
| leave: "group_alive s \<Longrightarrow> i < length (gr_workers s) \<Longrightarrow> gr_workers s ! i = AtSelect \<Longrightarrow> gr_quit s \<Longrightarrow>
    group_step work n s (worker_leave i s)"
| finish: "group_alive s \<Longrightarrow> gr_main s = Waiting \<Longrightarrow> gr_wait s = 0 \<Longrightarrow> group_step work n s (s\<lparr>gr_main := Finished\<rparr>)"

inductive_cases group_stepE: "group_step work n s t"

section \<open>The invariant\<close>

text \<open>
  The wait group counts the workers that have not returned; only as many workers exist as were started; they
  return only after the channel was closed; and the main goroutine ends after all of them.
\<close>

definition still_running :: "worker_pc list \<Rightarrow> nat" where
  "still_running ws = (\<Sum>w\<leftarrow>ws. if w = Returned then 0 else 1)"

fun spawn_count :: "nat \<Rightarrow> group_pc \<Rightarrow> nat \<Rightarrow> bool" where
  "spawn_count n (Spawning i) k \<longleftrightarrow> k = i \<and> i \<le> n"
| "spawn_count n (Killed _) k \<longleftrightarrow> k \<le> n"
| "spawn_count n _ k \<longleftrightarrow> k = n"

definition group_inv :: "nat \<Rightarrow> 's worker_group \<Rightarrow> bool" where
  "group_inv n s \<longleftrightarrow> \<not> gr_panicked s \<and> gr_wait s = still_running (gr_workers s) \<and>
     spawn_count n (gr_main s) (length (gr_workers s)) \<and> (gr_main s = Finished \<longrightarrow> gr_wait s = 0) \<and>
     (\<not> gr_quit s \<longrightarrow> Returned \<notin> set (gr_workers s)) \<and> (\<forall>i \<in> set (gr_turns s). i < length (gr_workers s))"

lemmas still_running_update = weight_update [where f = "\<lambda>w. if w = Returned then 0 else (1 :: nat)", folded still_running_def]

lemma still_running_append [simp]: "still_running (ws @ [AtSelect]) = still_running ws + 1"
  by (simp add: still_running_def)

lemma still_running_zero: "still_running ws = 0 \<longleftrightarrow> set ws \<subseteq> {Returned}"
  by (induction ws) (auto simp: still_running_def)

lemma set_update_keeps: "Returned \<notin> set ws \<Longrightarrow> w \<noteq> Returned \<Longrightarrow> Returned \<notin> set (ws[i := w])"
  using set_update_subset_insert [of ws i w] by auto

lemma spawn_count_le: "spawn_count n m k \<Longrightarrow> k \<le> n"
  by (cases m) auto

lemmas group_defs = group_alive_def spawn_worker_def worker_leave_def worker_turn_def

lemma group_inv_step: "group_inv n s \<Longrightarrow> group_step work n s t \<Longrightarrow> group_inv n t"
proof (erule group_stepE, goal_cases)
  case (4 i)
  then show ?case using still_running_update [of i "gr_workers s" InTurn] by (auto simp: group_inv_def set_update_keeps)
next
  case (5 i)
  then show ?case using still_running_update [of i "gr_workers s" AtSelect]
    by (auto simp: group_inv_def group_defs set_update_keeps spawn_count_le split: sum.splits)
next
  case (6 i)
  then show ?case using still_running_update [of i "gr_workers s" Returned]
    by (auto simp: group_inv_def group_defs)
qed (auto simp: group_inv_def group_defs less_Suc_eq intro: less_SucI)

lemma group_inv_start: "group_inv n (group_start c)"
  by (simp add: group_inv_def group_start_def still_running_def)

section \<open>Termination\<close>

text \<open>Once the channel is closed: two steps for a worker still to be started, and what is left of the others.\<close>

fun worker_work :: "worker_pc \<Rightarrow> nat" where
  "worker_work AtSelect = 1"
| "worker_work InTurn = 2"
| "worker_work Returned = 0"

fun main_left :: "nat \<Rightarrow> group_pc \<Rightarrow> nat" where
  "main_left n (Spawning i) = 2 * (n - i) + 2"
| "main_left n Waiting = 1"
| "main_left n _ = 0"

definition group_work :: "nat \<Rightarrow> 's worker_group \<Rightarrow> nat" where
  "group_work n s = (if group_alive s then main_left n (gr_main s) + (\<Sum>w\<leftarrow>gr_workers s. worker_work w) else 0)"

lemma alive_work: "group_alive s \<Longrightarrow> 0 < main_left n (gr_main s)"
  by (cases "gr_main s") (auto simp: group_alive_def)

lemma group_work_decreases:
  assumes "group_step work n s t" "gr_quit s"
  shows "group_work n t < group_work n s \<and> gr_quit t"
  using assms(1)
proof cases
  case (turn i)
  then show ?thesis
    using weight_update [of i "gr_workers s" worker_work AtSelect] assms(2) alive_work [OF turn(2), of n]
    by (auto simp: group_work_def group_defs split: sum.splits)
next
  case (leave i)
  then show ?thesis
    using weight_update [of i "gr_workers s" worker_work Returned] assms(2) alive_work [OF leave(2), of n]
    by (auto simp: group_work_def group_defs)
qed (use assms(2) in \<open>auto simp: group_work_def group_defs\<close>)

interpretation workers: bounded_machine "\<lambda>s. \<exists>c. s = group_start c" "group_step work n" "group_inv n" gr_quit "group_work n" for work n
  by unfold_locales (auto simp: group_inv_start intro: group_inv_step dest: group_work_decreases)

lemma workers_work_le: "(\<Sum>w\<leftarrow>ws. worker_work w) \<le> 2 * length ws"
proof (induction ws)
  case (Cons w ws)
  then show ?case by (cases w) auto
qed simp

lemma group_work_le: "group_inv n s \<Longrightarrow> group_work n s \<le> 2 * n + 2"
  using workers_work_le [of "gr_workers s"] by (cases "gr_main s") (auto simp: group_inv_def group_work_def)

text \<open>Progress: a group whose channel is closed and that cannot go on has ended.\<close>

lemma group_progress:
  assumes "group_inv n s" "group_alive s" "gr_quit s"
  shows "\<exists>t. group_step work n s t"
proof (cases "gr_wait s = 0 \<and> gr_main s = Waiting")
  case True
  then show ?thesis using group_step.finish [OF assms(2)] by blast
next
  case False
  show ?thesis
  proof (cases "gr_main s")
    case (Spawning i)
    then show ?thesis using group_step.spawn [OF assms(2) Spawning] group_step.spawned [OF assms(2) Spawning] by blast
  next
    case Waiting
    with False assms(1) have "still_running (gr_workers s) \<noteq> 0" by (simp add: group_inv_def)
    then obtain i where i: "i < length (gr_workers s)" "gr_workers s ! i \<noteq> Returned"
      unfolding still_running_zero by (metis insertI1 in_set_conv_nth subsetI)
    show ?thesis
    proof (cases "gr_workers s ! i")
      case AtSelect
      then show ?thesis using group_step.leave [OF assms(2) i(1) _ assms(3)] by blast
    next
      case InTurn
      then show ?thesis using group_step.turn [OF assms(2) i(1)] by blast
    qed (use i(2) in simp)
  qed (use assms(2) in \<open>simp_all add: group_alive_def\<close>)
qed

section \<open>The two clients\<close>

text \<open>
  The limiter \<open>'l\<close> with its store is a parameter: \<^verbatim>\<open>Take\<close> on the worker's number, \<^verbatim>\<open>Allow\<close>. \<open>threads\<close> workers run; the
  counters begin at zero.
\<close>

type_synonym 'l limiting = "'l \<times> limit_counts"

definition period_work :: "(string \<Rightarrow> 'l \<Rightarrow> 'l \<times> take_code result) \<Rightarrow> nat \<Rightarrow> 'l limiting \<Rightarrow> 'l limiting result" where
  "period_work Take i = (\<lambda>(l, c).
     case Take (nat_digits i) l of (l, r) \<Rightarrow>
       (case period_turn r c of Inl err \<Rightarrow> Inl err | Inr c \<Rightarrow> Inr (l, c)))"

definition token_work :: "('l \<Rightarrow> 'l \<times> bool) \<Rightarrow> nat \<Rightarrow> 'l limiting \<Rightarrow> 'l limiting result" where
  "token_work Allow i = (\<lambda>(l, c). case Allow l of (l, allow) \<Rightarrow> Inr (l, token_turn allow c))"

definition period_step :: "(string \<Rightarrow> 'l \<Rightarrow> 'l \<times> take_code result) \<Rightarrow> nat \<Rightarrow> 'l limiting worker_group \<Rightarrow> 'l limiting worker_group \<Rightarrow> bool" where
  "period_step Take threads = group_step (period_work Take) threads"

definition token_step :: "('l \<Rightarrow> 'l \<times> bool) \<Rightarrow> nat \<Rightarrow> 'l limiting worker_group \<Rightarrow> 'l limiting worker_group \<Rightarrow> bool" where
  "token_step Allow threads = group_step (token_work Allow) threads"

definition limiter_start :: "'l \<Rightarrow> 'l limiting worker_group" where
  "limiter_start l = group_start (l, limit_start)"

text \<open>Each finished turn of either client is counted once, so the counters add up to the history.\<close>

definition counts_turns :: "(nat \<Rightarrow> 'l limiting \<Rightarrow> 'l limiting result) \<Rightarrow> bool" where
  "counts_turns work \<longleftrightarrow> (\<forall>i l c l' c'. work i (l, c) = Inr (l', c') \<longrightarrow>
     lc_allowed c' + lc_denied c' = lc_allowed c + lc_denied c + 1)"

definition turns_counted :: "'l limiting worker_group \<Rightarrow> bool" where
  "turns_counted s \<longleftrightarrow> lc_allowed (snd (gr_shared s)) + lc_denied (snd (gr_shared s)) = of_nat (length (gr_turns s))"

lemma period_counts: "counts_turns (period_work Take)"
  by (auto simp: counts_turns_def period_work_def period_turn_def simp del: nat_digits.simps
      split: prod.splits sum.splits if_splits)

lemma token_counts: "counts_turns (token_work Allow)"
  by (auto simp: counts_turns_def token_work_def token_turn_def split: prod.splits)

lemma turns_counted_turn:
  assumes "counts_turns work" "turns_counted s"
  shows "turns_counted (worker_turn work i s)"
proof (cases "work i (gr_shared s)")
  case (Inl err)
  then show ?thesis using assms(2) by (simp add: worker_turn_def turns_counted_def)
next
  case (Inr c)
  then have "lc_allowed (snd c) + lc_denied (snd c) = lc_allowed (snd (gr_shared s)) + lc_denied (snd (gr_shared s)) + 1"
    using assms(1) unfolding counts_turns_def by (metis prod.collapse)
  then show ?thesis using assms(2) Inr by (simp add: worker_turn_def turns_counted_def)
qed

lemma turns_counted_step: "counts_turns work \<Longrightarrow> turns_counted s \<Longrightarrow> group_step work n s t \<Longrightarrow> turns_counted t"
proof (erule group_stepE, goal_cases)
  case (5 i)
  then show ?case by (simp add: turns_counted_turn)
qed (simp_all add: turns_counted_def spawn_worker_def worker_leave_def)

lemma turns_counted_all: "(group_step work n)\<^sup>*\<^sup>* (limiter_start l) s \<Longrightarrow> counts_turns work \<Longrightarrow> turns_counted s"
proof (induction rule: rtranclp_induct)
  case base
  then show ?case by (simp add: turns_counted_def limiter_start_def group_start_def limit_start_def)
qed (auto intro: turns_counted_step)

text \<open>The process is ended early only by a turn that fails, and the token client's turns do not.\<close>

lemma killed_by_work:
  "(group_step work n)\<^sup>*\<^sup>* (group_start c) s \<Longrightarrow> gr_main s = Killed err \<Longrightarrow> \<exists>i c. work i c = Inl err"
proof (induction arbitrary: err rule: rtranclp_induct)
  case base
  then show ?case by (simp add: group_start_def)
next
  case (step s t)
  then show ?case by (elim group_stepE) (auto simp: group_defs split: if_splits sum.splits)
qed

lemma token_never_fails: "token_work Allow i c \<noteq> Inl err"
  by (simp add: token_work_def split: prod.splits)

section \<open>Properties\<close>

text \<open>
  C18. The limiter clients count exactly and wait for everybody. In every reachable state of either client, whatever
  the interleaving of its workers, timer and main goroutine: the wait group never goes below zero and is the
  number of workers that have not returned; the two counters add up, modulo \<open>2 ^ 32\<close>, to the turns taken;
  and when the summary is printed the time is up, all workers have been started and have returned.
\<close>

theorem limiter_group_counts:
  assumes "(period_step Take threads)\<^sup>*\<^sup>* (limiter_start l) s \<or> (token_step Allow threads)\<^sup>*\<^sup>* (limiter_start l) s"
  shows "\<not> gr_panicked s \<and> gr_wait s = still_running (gr_workers s) \<and>
    lc_allowed (snd (gr_shared s)) + lc_denied (snd (gr_shared s)) = of_nat (length (gr_turns s)) \<and>
    (gr_main s = Finished \<longrightarrow> gr_workers s = replicate threads Returned \<and> (0 < threads \<longrightarrow> gr_quit s))"
proof -
  have i: "group_inv threads s" and c: "turns_counted s"
    using assms workers.inv_reachable [of "limiter_start l" _ threads s] turns_counted_all [of _ threads l s] period_counts token_counts
    unfolding period_step_def token_step_def limiter_start_def by blast+
  have "gr_workers s = replicate threads Returned" if "gr_main s = Finished"
  proof (rule replicate_eqI)
    show "length (gr_workers s) = threads" using i that by (simp add: group_inv_def)
    have "still_running (gr_workers s) = 0" using i that by (simp add: group_inv_def)
    then have "set (gr_workers s) \<subseteq> {Returned}" by (simp only: still_running_zero)
    then show "w = Returned" if "w \<in> set (gr_workers s)" for w using that by blast
  qed
  then show ?thesis using i c by (auto simp: group_inv_def turns_counted_def)
qed

text \<open>
  C21. The limiter clients end. Once the timer has closed the channel, no run of either client takes more than
  \<open>2 * threads + 2\<close> steps, and one that cannot go on has printed its summary or was ended by an error of the store, the
  token client always with its summary. Before that the timer can always fire.
\<close>

theorem limiter_group_ends:
  assumes "work \<in> {period_work Take, token_work Allow}" "(group_step work threads)\<^sup>*\<^sup>* (limiter_start l) s"
  shows "(gr_quit s \<and> (group_step work threads ^^ k) s t \<longrightarrow> k \<le> 2 * threads + 2 \<and>
      ((\<forall>u. \<not> group_step work threads t u) \<longrightarrow> gr_main t = Finished \<or> work = period_work Take \<and> (\<exists>err. gr_main t = Killed err))) \<and>
    (\<not> gr_quit s \<and> \<not> ended (gr_main s) \<longrightarrow> group_step work threads s (s\<lparr>gr_quit := True\<rparr>))"
proof -
  have i: "group_inv threads s" by (rule workers.inv_reachable [OF _ assms(2)]) (auto simp: limiter_start_def)
  have b: "k \<le> 2 * threads + 2 \<and> (gr_main t = Finished \<or> work = period_work Take \<and> (\<exists>err. gr_main t = Killed err) \<or> (\<exists>u. group_step work threads t u))"
    if q: "gr_quit s" and r: "(group_step work threads ^^ k) s t"
  proof -
    have st: "(group_step work threads)\<^sup>*\<^sup>* s t" using r by (rule relpowp_imp_rtranclp)
    have t: "group_inv threads t" using workers.inv_steps [OF st i] .
    have k: "k \<le> 2 * threads + 2" "gr_quit t" using workers.run_bounded [OF r i q] group_work_le [OF i] by simp_all
    have "(group_step work threads)\<^sup>*\<^sup>* (limiter_start l) t" using assms(2) st by (rule rtranclp_trans)
    then have "\<not> (\<exists>err. gr_main t = Killed err)" if "work = token_work Allow"
      using that killed_by_work [of work threads "(l, limit_start)" t] token_never_fails [of Allow]
      unfolding limiter_start_def by blast
    moreover have "\<exists>u. group_step work threads t u" if "\<not> ended (gr_main t)"
      using group_progress [OF t _ k(2)] that t by (auto simp: group_alive_def group_inv_def)
    ultimately show ?thesis using k(1) assms(1) by (cases "gr_main t") auto
  qed
  have "group_step work threads s (s\<lparr>gr_quit := True\<rparr>)" if "\<not> gr_quit s" "\<not> ended (gr_main s)"
    using i that by (intro group_step.timer) (auto simp: group_alive_def group_inv_def)
  with b show ?thesis by blast
qed

text \<open>One token worker that takes one turn and leaves.\<close>

definition always :: "unit \<Rightarrow> unit \<times> bool" where "always l = (l, True)"

definition demo_turned :: "unit limiting worker_group" where
  "demo_turned = \<lparr>gr_main = Waiting, gr_workers = [AtSelect], gr_wait = 1, gr_quit = True, gr_panicked = False,
     gr_shared = ((), \<lparr>lc_allowed = 1, lc_denied = 0\<rparr>), gr_turns = [0]\<rparr>"

definition demo_finished :: "unit limiting worker_group" where
  "demo_finished = demo_turned\<lparr>gr_main := Finished, gr_workers := [Returned], gr_wait := 0\<rparr>"

lemma demo_turned: "(group_step (token_work always) 1)\<^sup>*\<^sup>* (limiter_start ()) demo_turned"
proof -
  let ?R = "group_step (token_work always) 1" and ?s0 = "limiter_start ()"
  let ?s1 = "spawn_worker 0 ?s0"
  let ?s2 = "?s1\<lparr>gr_main := Waiting\<rparr>"
  let ?s3 = "?s2\<lparr>gr_workers := (gr_workers ?s2)[0 := InTurn]\<rparr>"
  let ?s4 = "worker_turn (token_work always) 0 ?s3"
  note d = limiter_start_def group_start_def group_defs
  have "?R ?s0 ?s1" by (rule group_step.spawn) (simp_all add: d)
  moreover have "?R ?s1 ?s2" by (rule group_step.spawned [of _ 1]) (simp_all add: d)
  moreover have "?R ?s2 ?s3" by (rule group_step.take_default) (simp_all add: d)
  moreover have "?R ?s3 ?s4" by (rule group_step.turn) (simp_all add: d)
  moreover have "?R ?s4 (?s4\<lparr>gr_quit := True\<rparr>)" by (rule group_step.timer) (simp_all add: d token_work_def always_def)
  moreover have "?s4\<lparr>gr_quit := True\<rparr> = demo_turned"
    by (simp add: d token_work_def always_def token_turn_def limit_start_def demo_turned_def)
  ultimately show ?thesis by (metis (no_types) converse_rtranclp_into_rtranclp rtranclp.rtrancl_refl)
qed

lemma demo_finishes: "(group_step (token_work always) 1 ^^ 2) demo_turned demo_finished"
proof -
  have "group_step (token_work always) 1 demo_turned (worker_leave 0 demo_turned)"
    by (rule group_step.leave) (simp_all add: demo_turned_def group_alive_def)
  moreover have "group_step (token_work always) 1 (worker_leave 0 demo_turned) demo_finished"
    using group_step.finish [of "worker_leave 0 demo_turned" "token_work always" 1]
    by (simp add: demo_turned_def demo_finished_def group_alive_def worker_leave_def)
  ultimately show ?thesis by (auto simp: numeral_2_eq_2)
qed

theorem limiter_group_counts_witness:
  "gr_wait demo_turned = still_running (gr_workers demo_turned) \<and> gr_turns demo_turned = [0] \<and> gr_wait demo_turned = 1"
  using limiter_group_counts [of undefined 1 "()" demo_turned always] demo_turned
  by (simp add: token_step_def demo_turned_def)

theorem limiter_group_ends_witness:
  "(group_step (token_work always) 1 ^^ 2) demo_turned demo_finished \<and> gr_main demo_finished = Finished"
proof -
  have "\<not> group_step (token_work always) 1 demo_finished u" for u
    by (auto elim!: group_stepE simp: group_alive_def demo_finished_def)
  moreover have "demo_finished \<noteq> s" if "gr_main s \<noteq> Finished" for s using that by (auto simp: demo_finished_def)
  moreover have "token_work always \<noteq> period_work undefined \<or> gr_main demo_finished \<noteq> Killed err" for err
    by (simp add: demo_finished_def)
  ultimately show ?thesis
    using limiter_group_ends [of "token_work always" undefined always 1 "()" demo_turned 2 demo_finished] demo_turned demo_finishes
    by (auto simp: demo_turned_def)
qed

end
