(* ===== verification/Load_Generator.thy ===== *)
theory Load_Generator
  imports Traffic_Counters
begin

text \<open>
  The load generator (\<^verbatim>\<open>load/main.go\<close>): batches of requests that grow for \<^verbatim>\<open>seconds\<close> ticks and shrink again, each request a
  goroutine that moves the counters of \<open>Traffic_Counters\<close>, three averages under spin locks and two rolling windows, and
  writes a row of the result file. The arithmetic of \<^verbatim>\<open>float64\<close>, the rolling windows and the executor that thins the rows
  out are parameters; comparisons of numbers are a linear order.
\<close>

section \<open>The estimate of the highest load\<close>

record 'f floats =
  fl_mul :: "'f \<Rightarrow> 'f \<Rightarrow> 'f"
  fl_add :: "'f \<Rightarrow> 'f \<Rightarrow> 'f"
  fl_div :: "'f \<Rightarrow> 'f \<Rightarrow> 'f"
  fl_round :: "'f \<Rightarrow> 'f"
  fl_of_int :: "int \<Rightarrow> 'f"
  fl_int64 :: "'f \<Rightarrow> 64 word"
  fl_beta :: 'f
  fl_rest :: 'f

record 'f Bucket =
  bk_Sum :: 'f
  bk_Count :: int

definition maxPass :: "'f floats \<Rightarrow> 'f :: linorder Bucket list \<Rightarrow> 64 word" where
  "maxPass F bs = fl_int64 F (fold (\<lambda>b result. if bk_Sum b > result then bk_Sum b else result) bs (fl_of_int F 1))"

definition bucket_avg :: "'f floats \<Rightarrow> 'f Bucket \<Rightarrow> 'f" where
  "bucket_avg F b = fl_round F (fl_div F (bk_Sum b) (fl_of_int F (bk_Count b)))"

definition minRt :: "'f floats \<Rightarrow> 'f :: linorder Bucket list \<Rightarrow> 'f" where
  "minRt F bs = fold (\<lambda>b result. if bk_Count b \<le> 0 then result
     else (let avg = bucket_avg F b in if avg < result then avg else result)) bs (fl_of_int F 1000)"

definition maxFlight :: "'f floats \<Rightarrow> 'f :: linorder Bucket list \<Rightarrow> 'f Bucket list \<Rightarrow> 64 word" where
  "maxFlight F passes rts = fl_int64 F (max (fl_of_int F 1)
     (fl_mul F (fl_of_int F (sint (maxPass F passes * 10))) (fl_div F (minRt F rts) (fl_of_int F 1000))))"

lemma fold_greatest: "fold (\<lambda>b r. if f b > r then f b else r) bs r = Max (insert r (f ` set bs))"
proof (induction bs arbitrary: r)
  case (Cons b bs)
  have "Max (insert r (insert (f b) (f ` set bs))) = Max (insert (max r (f b)) (f ` set bs))"
    by (cases "bs = []") (simp_all add: ac_simps)
  then show ?case unfolding fold_Cons comp_def Cons.IH by (simp add: max_def)
qed simp

lemma fold_least:
  "fold (\<lambda>b r. if \<not> P b then r else if f b < r then f b else r) bs r = Min (insert r (f ` {b \<in> set bs. P b}))"
proof (induction bs arbitrary: r)
  case (Cons b bs)
  have "finite A \<Longrightarrow> Min (insert r (insert (f b) A)) = Min (insert (min r (f b)) A)" for A
    by (cases "A = {}") (simp_all add: ac_simps)
  then have "Min (insert r (insert (f b) (f ` {b \<in> set bs. P b}))) = Min (insert (min r (f b)) (f ` {b \<in> set bs. P b}))"
    by simp
  moreover have "{c \<in> set (b # bs). P c} = (if P b then insert b {c \<in> set bs. P c} else {c \<in> set bs. P c})" by auto
  ultimately show ?case unfolding fold_Cons comp_def Cons.IH by (auto simp: min_def)
qed simp

text \<open>The two scans of the windows are the greatest sum and the least rounded average, in any order of the buckets.\<close>

lemma window_scans:
  "maxPass F bs = fl_int64 F (Max (insert (fl_of_int F 1) (bk_Sum ` set bs)))"
  "minRt F bs = Min (insert (fl_of_int F 1000) (bucket_avg F ` {b \<in> set bs. 0 < bk_Count b}))"
proof -
  show "maxPass F bs = fl_int64 F (Max (insert (fl_of_int F 1) (bk_Sum ` set bs)))"
    unfolding maxPass_def fold_greatest ..
  show "minRt F bs = Min (insert (fl_of_int F 1000) (bucket_avg F ` {b \<in> set bs. 0 < bk_Count b}))"
    unfolding minRt_def Let_def fold_least [of "\<lambda>b. 0 < bk_Count b" "bucket_avg F" bs "fl_of_int F 1000", symmetric]
    by (simp add: not_less)
qed

section \<open>One request\<close>

datatype req_at = Launched | Numbered | Flying | Aggressive | BothUp | Worked | Passed | Timed | Landed | Lazy | BothDown | Written | Left

record 'f request =
  rq_at :: req_at
  rq_idx :: "32 word"
  rq_v :: "64 word"
  rq_af :: 'f
  rq_bf :: 'f
  rq_ms :: int
  rq_v1 :: "64 word"
  rq_lf :: 'f

type_synonym 'f csv_row = "32 word \<times> 64 word \<times> 64 word \<times> 'f \<times> 'f \<times> 'f"

record ('f, 'w) load_shared =
  sh_index :: "32 word"
  sh_flying :: "64 word"
  avgFlyingAggressive :: 'f
  avgFlyingLazy :: 'f
  avgFlyingBoth :: 'f
  passCounter :: 'w
  rtCounter :: 'w
  sh_rows :: "'f csv_row list"

record ('f, 'w) windows =
  win_Add :: "'f \<Rightarrow> 'w \<Rightarrow> 'w"
  win_buckets :: "'w \<Rightarrow> 'f Bucket list"

definition smooth :: "'f floats \<Rightarrow> 'f \<Rightarrow> 64 word \<Rightarrow> 'f" where
  "smooth F avg v = fl_add F (fl_mul F avg (fl_beta F)) (fl_mul F (fl_of_int F (uint v)) (fl_rest F))"

text \<open>
  The next atomic step of \<^verbatim>\<open>issueRequest\<close> and of the closure around it: each locked region and each atomic addition is one
  step. \<open>ms\<close> is what \<^verbatim>\<open>rand.Int63n(10)+1\<close> gives and \<open>admitted\<close> what the thinning executor decides.
\<close>

definition request_turn ::
  "'f :: linorder floats \<Rightarrow> ('f, 'w) windows \<Rightarrow> int \<Rightarrow> bool \<Rightarrow> 'f request \<Rightarrow> ('f, 'w) load_shared \<Rightarrow> 'f request \<times> ('f, 'w) load_shared" where
  "request_turn F W ms admitted r sh = (case rq_at r of
     Launched \<Rightarrow> (r\<lparr>rq_at := Numbered, rq_idx := sh_index sh + 1\<rparr>, sh\<lparr>sh_index := sh_index sh + 1\<rparr>)
   | Numbered \<Rightarrow> (let v = flying_up (sh_flying sh) in (r\<lparr>rq_at := Flying, rq_v := v\<rparr>, sh\<lparr>sh_flying := v\<rparr>))
   | Flying \<Rightarrow> (let af = smooth F (avgFlyingAggressive sh) (rq_v r) in (r\<lparr>rq_at := Aggressive, rq_af := af\<rparr>, sh\<lparr>avgFlyingAggressive := af\<rparr>))
   | Aggressive \<Rightarrow> (let bf = smooth F (avgFlyingBoth sh) (rq_v r) in (r\<lparr>rq_at := BothUp, rq_bf := bf\<rparr>, sh\<lparr>avgFlyingBoth := bf\<rparr>))
   | BothUp \<Rightarrow> (r\<lparr>rq_at := Worked, rq_ms := ms\<rparr>, sh)
   | Worked \<Rightarrow> (r\<lparr>rq_at := Passed\<rparr>, sh\<lparr>passCounter := win_Add W (fl_of_int F 1) (passCounter sh)\<rparr>)
   | Passed \<Rightarrow> (r\<lparr>rq_at := Timed\<rparr>, sh\<lparr>rtCounter := win_Add W (fl_div F (fl_of_int F (rq_ms r * 1000000)) (fl_of_int F 1000000)) (rtCounter sh)\<rparr>)
   | Timed \<Rightarrow> (let v1 = flying_down (sh_flying sh) in (r\<lparr>rq_at := Landed, rq_v1 := v1\<rparr>, sh\<lparr>sh_flying := v1\<rparr>))
   | Landed \<Rightarrow> (let lf = smooth F (avgFlyingLazy sh) (rq_v1 r) in (r\<lparr>rq_at := Lazy, rq_lf := lf\<rparr>, sh\<lparr>avgFlyingLazy := lf\<rparr>))
   | Lazy \<Rightarrow> (let bf = smooth F (avgFlyingBoth sh) (rq_v1 r) in (r\<lparr>rq_at := BothDown, rq_bf := bf\<rparr>, sh\<lparr>avgFlyingBoth := bf\<rparr>))
   | BothDown \<Rightarrow> (r\<lparr>rq_at := Written\<rparr>, if admitted
        then sh\<lparr>sh_rows := sh_rows sh @ [(rq_idx r, maxFlight F (win_buckets W (passCounter sh)) (win_buckets W (rtCounter sh)),
               rq_v r, rq_af r, rq_lf r, rq_bf r)]\<rparr>
        else sh)
   | Written \<Rightarrow> (r\<lparr>rq_at := Left\<rparr>, sh)
   | Left \<Rightarrow> (r, sh))"

text \<open>Where a request is: steps left, whether it has its number, whether it is counted as flying.\<close>

fun req_left :: "req_at \<Rightarrow> nat" where
  "req_left Launched = 12" | "req_left Numbered = 11" | "req_left Flying = 10" | "req_left Aggressive = 9"
| "req_left BothUp = 8" | "req_left Worked = 7" | "req_left Passed = 6" | "req_left Timed = 5" | "req_left Landed = 4"
| "req_left Lazy = 3" | "req_left BothDown = 2" | "req_left Written = 1" | "req_left Left = 0"

definition numbered :: "'f request \<Rightarrow> bool" where "numbered r \<longleftrightarrow> rq_at r \<noteq> Launched"
definition in_flight :: "'f request \<Rightarrow> bool" where "in_flight r \<longleftrightarrow> req_left (rq_at r) \<in> {5..10}"
definition unfinished :: "'f request \<Rightarrow> bool" where "unfinished r \<longleftrightarrow> rq_at r \<noteq> Left"

lemma request_turn_effect:
  assumes "request_turn F W ms admitted r sh = (r', sh')" "rq_at r \<noteq> Left"
  shows "req_left (rq_at r') + 1 = req_left (rq_at r)"
    "sh_flying sh' + of_bool (in_flight r) = sh_flying sh + of_bool (in_flight r')"
    "sh_index sh' + of_bool (numbered r) = sh_index sh + of_bool (numbered r')"
    "numbered r'" "rq_idx r' = (if numbered r then rq_idx r else sh_index sh + 1)"
    "unfinished r' \<longleftrightarrow> rq_at r \<noteq> Written"
  using assms
  by (cases "rq_at r"; auto simp: request_turn_def Let_def in_flight_def numbered_def unfinished_def flying_up_def flying_down_def)+

section \<open>The generator\<close>

text \<open>
  The main goroutine is between batches of the rising or the falling loop with its loop variable, inside a batch after \<open>j\<close>
  requests, waiting for the group, or has ended; a ticker of no duration and a negative wait group panic.
\<close>

datatype gen_pc = AtLoop bool int | InBatch bool int nat | AwaitAll | GenDone | TickerPanic | WaitPanic

record ('f, 'w) generator =
  ge_main :: gen_pc
  ge_wait :: nat
  ge_bar :: nat
  ge_reqs :: "'f request list"
  ge_shared :: "('f, 'w) load_shared"

definition tick_interval :: int where "tick_interval = 1000000000"

definition requests_of :: "int \<Rightarrow> int" where "requests_of i = (i + 1) * 5"

definition begin_batch :: "bool \<Rightarrow> int \<Rightarrow> ('f, 'w) generator \<Rightarrow> ('f, 'w) generator" where
  "begin_batch up i s = s\<lparr>ge_main := if tick_interval div requests_of i \<le> 0 then TickerPanic else InBatch up i 0\<rparr>"

definition new_request :: "'f \<Rightarrow> 'f request" where
  "new_request z = \<lparr>rq_at = Launched, rq_idx = 0, rq_v = 0, rq_af = z, rq_bf = z, rq_ms = 0, rq_v1 = 0, rq_lf = z\<rparr>"

definition launch :: "'f floats \<Rightarrow> bool \<Rightarrow> int \<Rightarrow> nat \<Rightarrow> ('f, 'w) generator \<Rightarrow> ('f, 'w) generator" where
  "launch F up i j s = s\<lparr>ge_main := InBatch up i (Suc j), ge_wait := ge_wait s + 1, ge_reqs := ge_reqs s @ [new_request (fl_of_int F 0)]\<rparr>"

definition end_batch :: "bool \<Rightarrow> int \<Rightarrow> ('f, 'w) generator \<Rightarrow> ('f, 'w) generator" where
  "end_batch up i s = s\<lparr>ge_main := AtLoop up (if up then i + 1 else i - 1), ge_bar := ge_bar s + 1\<rparr>"

definition run_request :: "nat \<Rightarrow> 'f request \<times> ('f, 'w) load_shared \<Rightarrow> ('f, 'w) generator \<Rightarrow> ('f, 'w) generator" where
  "run_request k rs s = (let s' = s\<lparr>ge_reqs := (ge_reqs s)[k := fst rs], ge_shared := snd rs\<rparr> in
     if rq_at (ge_reqs s ! k) \<noteq> Written then s'
     else if ge_wait s = 0 then s\<lparr>ge_main := WaitPanic\<rparr>
     else s'\<lparr>ge_wait := ge_wait s - 1\<rparr>)"

fun gen_over :: "gen_pc \<Rightarrow> bool" where
  "gen_over GenDone = True"
| "gen_over TickerPanic = True"
| "gen_over WaitPanic = True"
| "gen_over _ = False"

definition gen_alive :: "('f, 'w) generator \<Rightarrow> bool" where "gen_alive s \<longleftrightarrow> \<not> gen_over (ge_main s)"

inductive gen_step :: "'f :: linorder floats \<Rightarrow> ('f, 'w) windows \<Rightarrow> int \<Rightarrow> ('f, 'w) generator \<Rightarrow> ('f, 'w) generator \<Rightarrow> bool"
  for F :: "'f :: linorder floats" and W :: "('f, 'w) windows" and seconds :: int where
  rising: "ge_main s = AtLoop True i \<Longrightarrow> i < seconds \<Longrightarrow> gen_step F W seconds s (begin_batch True i s)"
| risen: "ge_main s = AtLoop True i \<Longrightarrow> \<not> i < seconds \<Longrightarrow> gen_step F W seconds s (s\<lparr>ge_main := AtLoop False seconds\<rparr>)"
| falling: "ge_main s = AtLoop False i \<Longrightarrow> i > 0 \<Longrightarrow> gen_step F W seconds s (begin_batch False i s)"
| fallen: "ge_main s = AtLoop False i \<Longrightarrow> \<not> i > 0 \<Longrightarrow> gen_step F W seconds s (s\<lparr>ge_main := AwaitAll\<rparr>)"
| launching: "ge_main s = InBatch up i j \<Longrightarrow> int j < requests_of i \<Longrightarrow> gen_step F W seconds s (launch F up i j s)"
| batch_over: "ge_main s = InBatch up i j \<Longrightarrow> \<not> int j < requests_of i \<Longrightarrow> gen_step F W seconds s (end_batch up i s)"
| all_done: "ge_main s = AwaitAll \<Longrightarrow> ge_wait s = 0 \<Longrightarrow> gen_step F W seconds s (s\<lparr>ge_main := GenDone\<rparr>)"
| requesting: "gen_alive s \<Longrightarrow> k < length (ge_reqs s) \<Longrightarrow> rq_at (ge_reqs s ! k) \<noteq> Left \<Longrightarrow> ms \<in> {1..10} \<Longrightarrow>
    gen_step F W seconds s (run_request k (request_turn F W ms admitted (ge_reqs s ! k) (ge_shared s)) s)"

inductive_cases gen_stepE: "gen_step F W seconds s t"

definition gen_start :: "'f floats \<Rightarrow> 'w \<Rightarrow> 'w \<Rightarrow> ('f, 'w) generator" where
  "gen_start F pass rt = \<lparr>ge_main = AtLoop True 0, ge_wait = 0, ge_bar = 0, ge_reqs = [],
     ge_shared = \<lparr>sh_index = 0, sh_flying = 0, avgFlyingAggressive = fl_of_int F 0, avgFlyingLazy = fl_of_int F 0,
       avgFlyingBoth = fl_of_int F 0, passCounter = pass, rtCounter = rt, sh_rows = []\<rparr>\<rparr>"


section \<open>The invariant\<close>

definition how_many :: "('a \<Rightarrow> bool) \<Rightarrow> 'a list \<Rightarrow> nat" where "how_many P rs = (\<Sum>r\<leftarrow>rs. of_bool (P r))"

definition numbers :: "'f request list \<Rightarrow> 32 word multiset" where
  "numbers rs = (\<Sum>r\<leftarrow>rs. if numbered r then {#rq_idx r#} else {#})"

fun main_ok :: "int \<Rightarrow> gen_pc \<Rightarrow> int \<Rightarrow> int \<Rightarrow> bool" where
  "main_ok m (AtLoop True i) n b \<longleftrightarrow> 0 \<le> i \<and> i \<le> m \<and> 2 * n = 5 * (i * (i + 1)) \<and> b = i"
| "main_ok m (InBatch True i j) n b \<longleftrightarrow> 0 \<le> i \<and> i < m \<and> int j \<le> requests_of i \<and> 2 * n = 5 * (i * (i + 1)) + 2 * int j \<and> b = i"
| "main_ok m (AtLoop False i) n b \<longleftrightarrow> 0 \<le> i \<and> i \<le> m \<and>
     2 * n = 5 * (m * (m + 1)) + 5 * ((m + 1) * (m + 2) - (i + 1) * (i + 2)) \<and> b = 2 * m - i"
| "main_ok m (InBatch False i j) n b \<longleftrightarrow> 0 < i \<and> i \<le> m \<and> int j \<le> requests_of i \<and>
     2 * n = 5 * (m * (m + 1)) + 5 * ((m + 1) * (m + 2) - (i + 1) * (i + 2)) + 2 * int j \<and> b = 2 * m - i"
| "main_ok m TickerPanic n b \<longleftrightarrow> False"
| "main_ok m WaitPanic n b \<longleftrightarrow> False"
| "main_ok m _ n b \<longleftrightarrow> n = 5 * (m * (m + 2)) \<and> b = 2 * m"

definition gen_inv :: "int \<Rightarrow> ('f, 'w) generator \<Rightarrow> bool" where
  "gen_inv m s \<longleftrightarrow> main_ok m (ge_main s) (int (length (ge_reqs s))) (int (ge_bar s)) \<and>
     ge_wait s = how_many unfinished (ge_reqs s) \<and>
     sh_flying (ge_shared s) = of_nat (how_many in_flight (ge_reqs s)) \<and>
     sh_index (ge_shared s) = of_nat (how_many numbered (ge_reqs s)) \<and>
     numbers (ge_reqs s) = mset (map of_nat [1..<Suc (how_many numbered (ge_reqs s))]) \<and>
     (ge_main s = GenDone \<longrightarrow> ge_wait s = 0)"

definition paced :: "int \<Rightarrow> bool" where "paced m \<longleftrightarrow> 0 \<le> m \<and> requests_of m \<le> tick_interval"

lemmas how_many_update = weight_update [where f = "\<lambda>r. of_bool (P r) :: nat" for P, folded how_many_def]

lemma how_many_word:
  fixes P :: "'a \<Rightarrow> bool"
  assumes "k < length rs"
  shows "of_nat (how_many P (rs[k := r])) + of_bool (P (rs ! k)) = (of_nat (how_many P rs) + of_bool (P r) :: 'n :: semiring_1)"
  using arg_cong [OF how_many_update [OF assms, of P r], of "of_nat :: nat \<Rightarrow> 'n"] by simp

lemma how_many_snoc [simp]: "how_many P (rs @ [r]) = how_many P rs + of_bool (P r)"
  by (simp add: how_many_def)

lemma how_many_0: "how_many P rs = 0 \<longleftrightarrow> (\<forall>r \<in> set rs. \<not> P r)"
  by (induction rs) (auto simp: how_many_def)

lemma how_many_all: "(\<forall>r \<in> set rs. P r) \<Longrightarrow> how_many P rs = length rs"
  by (induction rs) (auto simp: how_many_def)

lemma numbers_all: "(\<forall>r \<in> set rs. numbered r) \<Longrightarrow> numbers rs = image_mset rq_idx (mset rs)"
  by (induction rs) (auto simp: numbers_def)

lemma fresh_request [simp]: "unfinished (new_request z)" "\<not> in_flight (new_request z)" "\<not> numbered (new_request z)"
  by (simp_all add: unfinished_def in_flight_def numbered_def new_request_def)

lemma paced_ticks: "paced m \<Longrightarrow> 0 \<le> i \<Longrightarrow> i \<le> m \<Longrightarrow> 0 < tick_interval div requests_of i"
  by (simp add: paced_def requests_of_def tick_interval_def pos_imp_zdiv_pos_iff)

lemma gen_inv_request:
  assumes "gen_inv m s" "k < length (ge_reqs s)" "rq_at (ge_reqs s ! k) \<noteq> Left"
  shows "gen_inv m (run_request k (request_turn F W ms admitted (ge_reqs s ! k) (ge_shared s)) s)"
proof -
  obtain r' sh' where t: "request_turn F W ms admitted (ge_reqs s ! k) (ge_shared s) = (r', sh')" by fastforce
  note e = request_turn_effect [OF t assms(3)] and i = assms(1) [unfolded gen_inv_def]
  let ?r = "ge_reqs s ! k" and ?rs = "(ge_reqs s)[k := r']"
  have u: "how_many P ?rs + of_bool (P ?r) = how_many P (ge_reqs s) + of_bool (P r')" for P
    using how_many_update [OF assms(2)] by simp
  have fly: "sh_flying sh' = of_nat (how_many in_flight ?rs)"
    using e(2) how_many_word [OF assms(2), of in_flight r'] i by (metis add_right_cancel)
  have idx: "sh_index sh' = of_nat (how_many numbered ?rs)"
    using e(3) how_many_word [OF assms(2), of numbered r'] i by (metis add_right_cancel)
  have "numbers ?rs + (if numbered ?r then {#rq_idx ?r#} else {#}) = numbers (ge_reqs s) + {#rq_idx r'#}"
    using weight_update [OF assms(2), of "\<lambda>r. if numbered r then {#rq_idx r#} else {#}" r'] e(4) by (simp add: numbers_def)
  then have num: "numbers ?rs = mset (map of_nat [1..<Suc (how_many numbered ?rs)])"
    using e(4,5) u [of numbered] i by (cases "numbered ?r") (simp_all add: ac_simps)
  have "0 < ge_wait s" using i assms(2,3) how_many_0 [of unfinished "ge_reqs s"]
    by (metis bot_nat_0.not_eq_extremum nth_mem unfinished_def)
  with fly idx num u [of unfinished] e(6) assms(3) i show ?thesis
    by (auto simp: gen_inv_def run_request_def t Let_def unfinished_def)
qed

lemma gen_inv_step: "paced m \<Longrightarrow> gen_inv m s \<Longrightarrow> gen_step F W m s t \<Longrightarrow> gen_inv m t"
proof (erule gen_stepE, goal_cases)
  case (8 k ms admitted)
  then show ?case by (simp add: gen_inv_request)
next
  case (5 up i j)
  then show ?case by (cases up) (auto simp: gen_inv_def launch_def numbers_def)
next
  case (6 up i j)
  then show ?case by (cases up) (auto simp: gen_inv_def end_batch_def requests_of_def algebra_simps)
next
  case (1 i)
  then show ?case using paced_ticks [of m i] by (auto simp: gen_inv_def begin_batch_def requests_of_def)
next
  case (3 i)
  then show ?case using paced_ticks [of m i] by (auto simp: gen_inv_def begin_batch_def requests_of_def)
next
  case (4 i)
  then have "i = 0" by (auto simp: gen_inv_def)
  with 4 show ?case by (auto simp: gen_inv_def algebra_simps)
qed (auto simp: gen_inv_def algebra_simps)


lemma gen_inv_start: "0 \<le> m \<Longrightarrow> gen_inv m (gen_start F pass rt)"
  by (simp add: gen_inv_def gen_start_def how_many_def numbers_def)

section \<open>Termination\<close>

text \<open>A request still to be launched costs its launch and twelve steps, a batch its begin and its end.\<close>

fun phase_left :: "int \<Rightarrow> gen_pc \<Rightarrow> nat \<Rightarrow> nat" where
  "phase_left m (AtLoop up _) b = 2 * (nat (2 * m) - b) + (if up then 3 else 2)"
| "phase_left m (InBatch up _ _) b = 2 * (nat (2 * m) - b) + (if up then 2 else 1)"
| "phase_left m AwaitAll b = 1"
| "phase_left m _ b = 0"

definition gen_work :: "int \<Rightarrow> ('f, 'w) generator \<Rightarrow> nat" where
  "gen_work m s = (if gen_alive s then 13 * (nat (5 * (m * (m + 2))) - length (ge_reqs s)) + phase_left m (ge_main s) (ge_bar s) +
     (\<Sum>r\<leftarrow>ge_reqs s. req_left (rq_at r)) else 0)"

lemma batch_not_full:
  assumes "main_ok m (InBatch up i j) n b" "int j < requests_of i"
  shows "n < 5 * (m * (m + 2))"
proof (cases up)
  case True
  with assms have i: "0 \<le> i" "i + 1 \<le> m" "2 * n < 5 * ((i + 1) * (i + 2))" by (auto simp: requests_of_def algebra_simps)
  then have "(i + 1) * (i + 2) \<le> m * (m + 2)" by (intro mult_mono) simp_all
  moreover have "0 < m * (m + 2)" using i by simp
  ultimately show ?thesis using i(3) by simp
next
  case False
  with assms have i: "0 < i" "2 * n < 5 * (m * (m + 1)) + 5 * ((m + 1) * (m + 2)) - 5 * (i * (i + 1))"
    by (auto simp: requests_of_def algebra_simps)
  have "1 * 2 \<le> i * (i + 1)" using i(1) by (intro mult_mono) simp_all
  with i(2) show ?thesis by (simp add: algebra_simps)
qed

lemma gen_work_step:
  assumes "paced m" "gen_inv m s" "gen_step F W m s t"
  shows "gen_work m t < gen_work m s"
  using assms(3)
proof cases
  case (requesting k ms admitted)
  obtain r' sh' where t: "request_turn F W ms admitted (ge_reqs s ! k) (ge_shared s) = (r', sh')" by fastforce
  have "(\<Sum>r\<leftarrow>(ge_reqs s)[k := r']. req_left (rq_at r)) < (\<Sum>r\<leftarrow>ge_reqs s. req_left (rq_at r))"
    using weight_update [OF requesting(3), of "\<lambda>r. req_left (rq_at r)" r'] request_turn_effect(1) [OF t requesting(4)] by simp
  then show ?thesis using requesting by (auto simp: gen_work_def gen_alive_def run_request_def t Let_def)
next
  case (launching up i j)
  have "int (length (ge_reqs s)) < 5 * (m * (m + 2))"
    by (rule batch_not_full [of m up i j _ "int (ge_bar s)"]) (use assms(2) launching in \<open>auto simp: gen_inv_def\<close>)
  then show ?thesis using launching by (simp add: gen_work_def gen_alive_def launch_def new_request_def)
next
  case (batch_over up i j)
  then show ?thesis using assms(2) by (cases up) (auto simp: gen_work_def gen_alive_def end_batch_def gen_inv_def)
next
  case (rising i)
  then show ?thesis using assms paced_ticks [of m i] by (auto simp: gen_work_def gen_alive_def begin_batch_def gen_inv_def)
next
  case (falling i)
  then show ?thesis using assms paced_ticks [of m i] by (auto simp: gen_work_def gen_alive_def begin_batch_def gen_inv_def)
next
  case (fallen i)
  then show ?thesis using assms(2) by (auto simp: gen_work_def gen_alive_def gen_inv_def)
qed (auto simp: gen_work_def gen_alive_def)

interpretation generators: bounded_machine "\<lambda>s. paced m \<and> (\<exists>pass rt. s = gen_start F pass rt)" "gen_step F W m" "\<lambda>s. paced m \<and> gen_inv m s"
    "\<lambda>_. True" "gen_work m" for F W m
proof (unfold_locales, goal_cases)
  case (1 s)
  then show ?case using gen_inv_start [of m F] by (auto simp: paced_def)
qed (blast intro: gen_inv_step gen_work_step)+

text \<open>Only a generator that has ended cannot go on.\<close>

lemma gen_progress:
  assumes "gen_inv m s" "gen_alive s"
  shows "\<exists>t. gen_step F W m s t"
proof (cases "ge_main s")
  case (AtLoop up i)
  then show ?thesis
    using gen_step.rising [of s i m F W] gen_step.risen [of s i m F W] gen_step.falling [of s i F W m] gen_step.fallen [of s i F W m]
    by (cases up; cases "i < m"; cases "0 < i") auto
next
  case (InBatch up i j)
  then show ?thesis using gen_step.launching [of s up i j F W m] gen_step.batch_over [of s up i j F W m] by blast
next
  case AwaitAll
  show ?thesis
  proof (cases "ge_wait s = 0")
    case True
    then show ?thesis using AwaitAll gen_step.all_done [of s F W m] by blast
  next
    case False
    then obtain k where "k < length (ge_reqs s)" "rq_at (ge_reqs s ! k) \<noteq> Left"
      using assms(1) how_many_0 [of unfinished "ge_reqs s"] unfolding gen_inv_def unfinished_def
      by (metis in_set_conv_nth)
    then show ?thesis using gen_step.requesting [OF assms(2), of k 1 F W m] by auto
  qed
qed (use assms in \<open>auto simp: gen_alive_def gen_inv_def\<close>)

section \<open>Properties\<close>

lemma gen_all_left:
  assumes "gen_inv m s" "ge_main s = GenDone"
  shows "\<forall>r \<in> set (ge_reqs s). rq_at r = Left"
  using assms how_many_0 [of unfinished "ge_reqs s"] by (auto simp: gen_inv_def unfinished_def)

text \<open>
  C33. The load generator, over any interleaving of its request goroutines: it never panics, the wait group is the number
  of requests that have not finished and the 64-bit in-flight counter, which is lowered by adding the complement of
  zero, is the number of those in flight. No run is longer than \<open>65 * seconds * (seconds + 2) + 4 * seconds + 3\<close> steps, one
  that cannot go on has ended, and when it has, exactly \<open>5 * seconds * (seconds + 2)\<close> requests were made and have finished,
  numbered from 1 on without gap or repetition, nothing is in flight and the bar stands at \<open>2 * seconds\<close>.
\<close>

theorem load_generator_exact:
  assumes "0 \<le> seconds" "requests_of seconds \<le> tick_interval" "(gen_step F W seconds ^^ k) (gen_start F pass rt) s"
  shows "ge_main s \<notin> {TickerPanic, WaitPanic} \<and>
    ge_wait s = how_many unfinished (ge_reqs s) \<and>
    sh_flying (ge_shared s) = of_nat (how_many in_flight (ge_reqs s)) \<and>
    int k \<le> 65 * seconds * (seconds + 2) + 4 * seconds + 3 \<and>
    ((\<forall>t. \<not> gen_step F W seconds s t) \<longrightarrow> ge_main s = GenDone) \<and>
    (ge_main s = GenDone \<longrightarrow> int (length (ge_reqs s)) = 5 * seconds * (seconds + 2) \<and>
      mset (map rq_idx (ge_reqs s)) = mset (map of_nat [1..<Suc (length (ge_reqs s))]) \<and>
      (\<forall>r \<in> set (ge_reqs s). rq_at r = Left) \<and> sh_flying (ge_shared s) = 0 \<and> int (ge_bar s) = 2 * seconds)"
proof -
  have p: "paced seconds" using assms by (simp add: paced_def)
  have r: "k + gen_work seconds s \<le> gen_work seconds (gen_start F pass rt)" and i: "gen_inv seconds s"
    using generators.run_bounded [OF assms(3)] gen_inv_start [OF assms(1), of F pass rt] p by blast+
  have "int k \<le> 65 * seconds * (seconds + 2) + 4 * seconds + 3"
  proof -
    have "k \<le> 13 * nat (5 * (seconds * (seconds + 2))) + (2 * nat (2 * seconds) + 3)"
      using r by (simp add: gen_work_def gen_start_def gen_alive_def split: if_splits)
    moreover obtain q where q: "q = seconds * (seconds + 2)" "0 \<le> q" using assms(1) by simp
    ultimately show ?thesis using assms(1) unfolding q(1) [symmetric] mult.assoc by linarith
  qed
  moreover have "ge_main s = GenDone" if "\<forall>t. \<not> gen_step F W seconds s t"
    using gen_progress [OF i] that i by (cases "ge_main s") (auto simp: gen_alive_def gen_inv_def)
  moreover have "numbers (ge_reqs s) = image_mset rq_idx (mset (ge_reqs s)) \<and> how_many numbered (ge_reqs s) = length (ge_reqs s) \<and>
      how_many in_flight (ge_reqs s) = 0" if "ge_main s = GenDone"
    using gen_all_left [OF i that] by (auto simp: numbered_def in_flight_def how_many_0 intro: numbers_all how_many_all)
  ultimately show ?thesis using i gen_all_left [OF i] by (auto simp: gen_inv_def)
qed


text \<open>The default run of 400 seconds after its first request has taken off, over integers in place of floating-point numbers.\<close>

definition int_floats :: "int floats" where
  "int_floats = \<lparr>fl_mul = (*), fl_add = (+), fl_div = (div), fl_round = (\<lambda>x. x), fl_of_int = (\<lambda>x. x), fl_int64 = word_of_int, fl_beta = 9, fl_rest = 1\<rparr>"

definition no_windows :: "(int, unit) windows" where
  "no_windows = \<lparr>win_Add = (\<lambda>_ w. w), win_buckets = (\<lambda>_. [])\<rparr>"

definition one_flying :: "(int, unit) generator" where
  "one_flying = (let s = launch int_floats True 0 0 (begin_batch True 0 (gen_start int_floats () ()));
     s = run_request 0 (request_turn int_floats no_windows 1 True (ge_reqs s ! 0) (ge_shared s)) s
   in run_request 0 (request_turn int_floats no_windows 1 True (ge_reqs s ! 0) (ge_shared s)) s)"

lemmas gen_eval = gen_start_def begin_batch_def launch_def run_request_def request_turn_def new_request_def
  requests_of_def tick_interval_def int_floats_def gen_alive_def flying_up_def

lemma one_flying_run: "(gen_step int_floats no_windows 400 ^^ 4) (gen_start int_floats () ()) one_flying"
proof -
  let ?R = "gen_step int_floats no_windows 400" and ?s0 = "gen_start int_floats () ()"
  let ?s1 = "begin_batch True 0 ?s0"
  let ?s2 = "launch int_floats True 0 0 ?s1"
  let ?s3 = "run_request 0 (request_turn int_floats no_windows 1 True (ge_reqs ?s2 ! 0) (ge_shared ?s2)) ?s2"
  have "?R ?s0 ?s1" by (rule gen_step.rising) (simp_all add: gen_eval)
  moreover have "?R ?s1 ?s2" by (rule gen_step.launching) (simp_all add: gen_eval)
  moreover have "?R ?s2 ?s3" by (rule gen_step.requesting) (simp_all add: gen_eval)
  moreover have "?R ?s3 one_flying" unfolding one_flying_def Let_def by (rule gen_step.requesting) (simp_all add: gen_eval)
  ultimately show ?thesis by (auto simp: numeral_eq_Suc)
qed

theorem load_generator_exact_witness:
  "ge_wait one_flying = 1 \<and> sh_flying (ge_shared one_flying) = 1 \<and> how_many in_flight (ge_reqs one_flying) = 1"
proof -
  have "ge_wait one_flying = how_many unfinished (ge_reqs one_flying) \<and>
      sh_flying (ge_shared one_flying) = of_nat (how_many in_flight (ge_reqs one_flying))"
    using load_generator_exact [OF _ _ one_flying_run] by (simp add: requests_of_def tick_interval_def)
  moreover have "how_many unfinished (ge_reqs one_flying) = 1 \<and> how_many in_flight (ge_reqs one_flying) = 1"
    by (simp add: one_flying_def gen_eval how_many_def unfinished_def in_flight_def Let_def)
  ultimately show ?thesis by simp
qed

end
