(* ===== verification/Breaker_Client.thy ===== *)
theory Breaker_Client
  imports Traffic_Counters
begin

text \<open>
  The whole process of the breaker demo's client (\<^verbatim>\<open>http/breaker/client\<close>): two request loops over one channel that ends them, a
  goroutine per request, the reporter that resets both metrics each second and writes a row, and the main goroutine
  that closes the channel after the duration, waits for the loops, sleeps and exits.
\<close>

section \<open>The process\<close>

datatype endpoint = Heavy | Good

datatype client_pc = AwaitDuration | AwaitGroup | LastSleep | Exited

text \<open>The reporter is at its ticker, has counted the second, holds the good row, or holds both.\<close>

datatype report_at = AtTicker | HasSecond | HasGood counting | HasBoth counting counting

record client_proc =
  cp_main :: client_pc
  cp_done :: bool
  cp_looping :: "endpoint \<Rightarrow> bool"
  cp_flight :: "endpoint \<Rightarrow> nat"
  cp_metric :: "endpoint \<Rightarrow> counting"
  cp_report :: report_at
  cp_seconds :: nat
  cp_rows :: "(nat \<times> counting \<times> counting) list"
  cp_issued :: "endpoint \<Rightarrow> nat"

definition client_start :: client_proc where
  "client_start = \<lparr>cp_main = AwaitDuration, cp_done = False, cp_looping = (\<lambda>_. True), cp_flight = (\<lambda>_. 0),
     cp_metric = (\<lambda>_. zero_counting), cp_report = AtTicker, cp_seconds = 0, cp_rows = [], cp_issued = (\<lambda>_. 0)\<rparr>"

definition issue :: "endpoint \<Rightarrow> client_proc \<Rightarrow> client_proc" where
  "issue e s = s\<lparr>cp_flight := (cp_flight s)(e := cp_flight s e + 1), cp_issued := (cp_issued s)(e := cp_issued s e + 1)\<rparr>"

definition answer :: "endpoint \<Rightarrow> get_outcome \<Rightarrow> client_proc \<Rightarrow> client_proc" where
  "answer e out s = s\<lparr>cp_flight := (cp_flight s)(e := cp_flight s e - 1),
     cp_metric := (cp_metric s)(e := runRequests_count out (cp_metric s e))\<rparr>"

definition report_turn :: "client_proc \<Rightarrow> client_proc" where
  "report_turn s = (case cp_report s of
     AtTicker \<Rightarrow> s\<lparr>cp_report := HasSecond, cp_seconds := cp_seconds s + 1\<rparr>
   | HasSecond \<Rightarrow> (case metric_reset (cp_metric s Good) of (m, g) \<Rightarrow> s\<lparr>cp_report := HasGood g, cp_metric := (cp_metric s)(Good := m)\<rparr>)
   | HasGood g \<Rightarrow> (case metric_reset (cp_metric s Heavy) of (m, h) \<Rightarrow> s\<lparr>cp_report := HasBoth g h, cp_metric := (cp_metric s)(Heavy := m)\<rparr>)
   | HasBoth g h \<Rightarrow> s\<lparr>cp_report := AtTicker, cp_rows := cp_rows s @ [(cp_seconds s, g, h)]\<rparr>)"

inductive client_step :: "client_proc \<Rightarrow> client_proc \<Rightarrow> bool" where
  tick: "cp_main s \<noteq> Exited \<Longrightarrow> cp_looping s e \<Longrightarrow> client_step s (issue e s)"
| loop_ends: "cp_main s \<noteq> Exited \<Longrightarrow> cp_looping s e \<Longrightarrow> cp_done s \<Longrightarrow> client_step s (s\<lparr>cp_looping := (cp_looping s)(e := False)\<rparr>)"
| answered: "cp_main s \<noteq> Exited \<Longrightarrow> 0 < cp_flight s e \<Longrightarrow> client_step s (answer e out s)"
| report: "cp_main s \<noteq> Exited \<Longrightarrow> client_step s (report_turn s)"
| time_up: "cp_main s = AwaitDuration \<Longrightarrow> client_step s (s\<lparr>cp_main := AwaitGroup, cp_done := True\<rparr>)"
| group_done: "cp_main s = AwaitGroup \<Longrightarrow> \<forall>e. \<not> cp_looping s e \<Longrightarrow> client_step s (s\<lparr>cp_main := LastSleep\<rparr>)"
| exits: "cp_main s = LastSleep \<Longrightarrow> client_step s (s\<lparr>cp_main := Exited\<rparr>)"

inductive_cases client_stepE: "client_step s t"

section \<open>The invariant\<close>

text \<open>What the reporter holds and what it has written, for one endpoint.\<close>

fun held :: "report_at \<Rightarrow> endpoint \<Rightarrow> counting list" where
  "held AtTicker e = []"
| "held HasSecond e = []"
| "held (HasGood g) e = (if e = Good then [g] else [])"
| "held (HasBoth g h) e = [if e = Good then g else h]"

definition written :: "(nat \<times> counting \<times> counting) list \<Rightarrow> endpoint \<Rightarrow> counting list" where
  "written rows e = map (\<lambda>(_, g, h). if e = Good then g else h) rows"

definition totals :: "counting list \<Rightarrow> 64 word" where "totals cs = (\<Sum>c\<leftarrow>cs. counting_total c)"

definition columns :: "client_proc \<Rightarrow> endpoint \<Rightarrow> counting list" where
  "columns s e = cp_metric s e # held (cp_report s) e @ written (cp_rows s) e"

definition rows_numbered :: "report_at \<Rightarrow> nat \<Rightarrow> (nat \<times> counting \<times> counting) list \<Rightarrow> bool" where
  "rows_numbered r n rows \<longleftrightarrow> map fst rows @ (if r = AtTicker then [] else [n]) = [1..<Suc n]"

definition client_inv :: "client_proc \<Rightarrow> bool" where
  "client_inv s \<longleftrightarrow> (\<forall>e. of_nat (cp_issued s e) = of_nat (cp_flight s e) + totals (columns s e)) \<and>
     (\<forall>e. \<forall>c \<in> set (columns s e). ct_fail c = 0 \<and> ct_reject c = 0) \<and>
     rows_numbered (cp_report s) (cp_seconds s) (cp_rows s) \<and>
     (cp_main s = AwaitDuration \<longleftrightarrow> \<not> cp_done s) \<and> (cp_main s \<in> {LastSleep, Exited} \<longrightarrow> (\<forall>e. \<not> cp_looping s e))"

lemma written_simps [simp]: "written [] e = []" "written (rows @ [(n, g, h)]) e = written rows e @ [if e = Good then g else h]"
  by (simp_all add: written_def)

lemma totals_simps [simp]: "totals [] = 0" "totals (c # cs) = counting_total c + totals cs" "totals (cs @ ds) = totals cs + totals ds"
  by (simp_all add: totals_def)

lemma count_one: "counting_total (runRequests_count out m) = counting_total m + 1"
  by (auto simp: counting_total_def metric_defs split: get_outcome.splits)

lemma count_columns: "ct_fail (runRequests_count out m) = ct_fail m" "ct_reject (runRequests_count out m) = ct_reject m"
  by (auto simp: metric_defs split: get_outcome.splits)

lemma reset_moves: "metric_reset m = (zero_counting, m)"
  by (simp add: metric_reset_def zero_counting_def)

lemma zero_columns [simp]: "counting_total zero_counting = 0" "ct_fail zero_counting = 0" "ct_reject zero_counting = 0"
  by (simp_all add: zero_counting_def counting_total_def)

text \<open>The reporter only moves counts.\<close>

lemma report_columns:
  "totals (columns (report_turn s) e) = totals (columns s e)"
  "set (columns (report_turn s) e) \<subseteq> insert zero_counting (set (columns s e))"
  by (cases "cp_report s"; cases e; auto simp: columns_def report_turn_def reset_moves)+

lemma report_frame [simp]:
  "cp_issued (report_turn s) = cp_issued s" "cp_flight (report_turn s) = cp_flight s" "cp_main (report_turn s) = cp_main s"
  "cp_done (report_turn s) = cp_done s" "cp_looping (report_turn s) = cp_looping s"
  by (cases "cp_report s"; simp add: report_turn_def reset_moves)+

lemma report_numbers:
  "rows_numbered (cp_report s) (cp_seconds s) (cp_rows s) \<Longrightarrow>
   rows_numbered (cp_report (report_turn s)) (cp_seconds (report_turn s)) (cp_rows (report_turn s))"
  by (cases "cp_report s") (auto simp: rows_numbered_def report_turn_def reset_moves)

lemma client_inv_answer: "client_inv s \<Longrightarrow> 0 < cp_flight s e \<Longrightarrow> client_inv (answer e out s)"
  by (auto simp: client_inv_def answer_def columns_def count_one count_columns of_nat_diff)

lemma client_inv_report:
  assumes "client_inv s"
  shows "client_inv (report_turn s)"
proof -
  have "ct_fail c = 0 \<and> ct_reject c = 0" if "c \<in> set (columns (report_turn s) e)" for c e
    using that report_columns(2) [of s e] assms by (auto simp: client_inv_def)
  then show ?thesis using assms report_numbers [of s] by (simp add: client_inv_def report_columns(1))
qed

lemma client_inv_step: "client_inv s \<Longrightarrow> client_step s t \<Longrightarrow> client_inv t"
proof (erule client_stepE, goal_cases)
  case (3 e out)
  then show ?case by (simp add: client_inv_answer)
next
  case 4
  then show ?case by (simp add: client_inv_report)
qed (auto simp: client_inv_def issue_def columns_def)

lemma client_inv_start: "client_inv client_start"
  by (simp add: client_inv_def client_start_def columns_def rows_numbered_def)

interpretation breaker_clients: machine "\<lambda>s. s = client_start" client_step client_inv
  by unfold_locales (auto simp: client_inv_start intro: client_inv_step)

section \<open>Properties\<close>

text \<open>
  C29. In the breaker demo's client, in every state of the process and however its goroutines interleave: for
  each endpoint the requests issued are those in flight, those in the current counters, those the reporter holds and
  those in the rows written; the rows are numbered from 1 on; the \<^verbatim>\<open>fail\<close> and \<^verbatim>\<open>reject\<close> columns are zero everywhere, since
  \<^verbatim>\<open>addFail\<close> and \<^verbatim>\<open>addReject\<close> count the request as \<^verbatim>\<open>ok\<close>; and the process exits only after both loops have ended.
\<close>

theorem breaker_client_process:
  assumes "client_step\<^sup>*\<^sup>* client_start s"
  shows "of_nat (cp_issued s e) = of_nat (cp_flight s e) + counting_total (cp_metric s e) +
      totals (held (cp_report s) e) + totals (written (cp_rows s) e) \<and>
    (\<forall>(_, g, h) \<in> set (cp_rows s). ct_fail g = 0 \<and> ct_reject g = 0 \<and> ct_fail h = 0 \<and> ct_reject h = 0) \<and>
    map fst (cp_rows s) = [1..<Suc (length (cp_rows s))] \<and>
    (cp_main s = Exited \<longrightarrow> cp_done s \<and> \<not> cp_looping s e)"
proof -
  have i: "client_inv s" by (rule breaker_clients.inv_reachable [OF refl assms])
  have "map fst (cp_rows s) = [1..<Suc (length (cp_rows s))]"
  proof -
    have r: "map fst (cp_rows s) @ (if cp_report s = AtTicker then [] else [cp_seconds s]) = [1..<Suc (cp_seconds s)]"
      using i by (simp add: client_inv_def rows_numbered_def)
    have "map fst (cp_rows s) = take (length (cp_rows s)) [1..<Suc (cp_seconds s)]"
      unfolding r [symmetric] by simp
    moreover have "length (cp_rows s) \<le> cp_seconds s"
      using arg_cong [OF r, of length] by (simp split: if_splits)
    ultimately show ?thesis by (simp del: upt_Suc add: take_upt)
  qed
  moreover have "\<forall>(n, g, h) \<in> set (cp_rows s). ct_fail g = 0 \<and> ct_reject g = 0 \<and> ct_fail h = 0 \<and> ct_reject h = 0"
  proof clarify
    fix n g h
    assume "(n, g, h) \<in> set (cp_rows s)"
    then have "g \<in> set (columns s Good)" "h \<in> set (columns s Heavy)"
      using image_eqI [of _ "\<lambda>(_, g, h). if Good = Good then g else h" "(n, g, h)"]
        image_eqI [of _ "\<lambda>(_, g, h). if Heavy = Good then g else h" "(n, g, h)"] by (simp_all add: columns_def written_def)
    then show "ct_fail g = 0 \<and> ct_reject g = 0 \<and> ct_fail h = 0 \<and> ct_reject h = 0" using i unfolding client_inv_def by blast
  qed
  moreover have "of_nat (cp_issued s e) = of_nat (cp_flight s e) + counting_total (cp_metric s e) +
      totals (held (cp_report s) e) + totals (written (cp_rows s) e)"
    using i by (simp add: client_inv_def columns_def add.assoc)
  moreover have "cp_main s = Exited \<longrightarrow> cp_done s \<and> \<not> cp_looping s e" using i by (auto simp: client_inv_def)
  ultimately show ?thesis by blast
qed


text \<open>
  A run of one request to the good endpoint whose rejection is counted as \<^verbatim>\<open>ok\<close> and never reported: the process exits before the
  reporter's next tick. Nothing waits for requests under way either, only for the two loops.
\<close>

definition lost_answer :: client_proc where
  "lost_answer = client_start\<lparr>cp_main := Exited, cp_done := True, cp_looping := (\<lambda>_. False),
     cp_metric := (\<lambda>_. zero_counting)(Good := zero_counting\<lparr>ct_ok := 1\<rparr>), cp_issued := (\<lambda>_. 0)(Good := 1)\<rparr>"

lemma lost_answer_reached: "client_step\<^sup>*\<^sup>* client_start lost_answer"
proof -
  let ?s1 = "issue Good client_start"
  let ?s2 = "answer Good (GetStatus 503) ?s1"
  let ?s3 = "?s2\<lparr>cp_main := AwaitGroup, cp_done := True\<rparr>"
  let ?s4 = "?s3\<lparr>cp_looping := (cp_looping ?s3)(Good := False)\<rparr>"
  let ?s5 = "?s4\<lparr>cp_looping := (cp_looping ?s4)(Heavy := False)\<rparr>"
  let ?s6 = "?s5\<lparr>cp_main := LastSleep\<rparr>"
  note d = client_start_def issue_def answer_def
  have off: "cp_looping ?s5 = (\<lambda>_. False)"
  proof
    fix e show "cp_looping ?s5 e = False" by (cases e) simp_all
  qed
  have a1: "client_step client_start ?s1" by (rule client_step.tick) (simp_all add: d)
  have a2: "client_step ?s1 ?s2" by (rule client_step.answered) (simp_all add: d)
  have a3: "client_step ?s2 ?s3" by (rule client_step.time_up) (simp add: d)
  have a4: "client_step ?s3 ?s4" by (rule client_step.loop_ends) (simp_all add: d)
  have a5: "client_step ?s4 ?s5" by (rule client_step.loop_ends) (simp_all add: d)
  have a6: "client_step ?s5 ?s6" by (rule client_step.group_done) (use off in simp_all)
  have a7: "client_step ?s6 (?s6\<lparr>cp_main := Exited\<rparr>)" by (rule client_step.exits) simp
  have e: "?s6\<lparr>cp_main := Exited\<rparr> = lost_answer"
    using off by (simp add: d lost_answer_def metric_defs zero_counting_def fun_eq_iff)
  note r = converse_rtranclp_into_rtranclp [where r = client_step]
  show ?thesis unfolding e [symmetric]
    by (rule r [OF a1 r [OF a2 r [OF a3 r [OF a4 r [OF a5 r [OF a6 r [OF a7 rtranclp.rtrancl_refl]]]]]]])
qed

theorem breaker_client_process_witness:
  "of_nat (cp_issued lost_answer Good) = counting_total (cp_metric lost_answer Good) \<and> cp_rows lost_answer = [] \<and> cp_done lost_answer"
  using breaker_client_process [OF lost_answer_reached, of Good] by (simp add: lost_answer_def client_start_def)

end
