(* ===== verification/Breaker_Simulation.thy ===== *)
theory Breaker_Simulation
  imports Traffic_Counters
begin

text \<open>
  The whole process of the breaker simulation (\<^verbatim>\<open>breaker/main.go\<close>): the goroutine that breaks and mends the server, the request
  loop through the breaker until its time is up, the reporter and the main goroutine that waits for the loop. Which
  requests the breaker lets through is the library's choice; the progress bar is left out.
\<close>

section \<open>The process\<close>

text \<open>The server's goroutine sleeps with its own copy of the state, or has flipped the copy and not stored it yet.\<close>

datatype flipper_at = Asleep | HasFlipped

datatype sim_report = AtSecond | Counted | GotGoogle "64 word" | GotBoth "64 word" "64 word"

type_synonym sim_row = "nat \<times> 32 word \<times> 64 word \<times> 64 word"

record sim_proc =
  sp_server :: sim_server
  sp_local :: "32 word"
  sp_flipper :: flipper_at
  sp_gm :: sim_metric
  sp_nm :: sim_metric
  sp_done :: bool
  sp_looping :: bool
  sp_ended :: bool
  sp_report :: sim_report
  sp_seconds :: nat
  sp_rows :: "sim_row list"
  sp_calls :: "go_error option list"
  sp_flips :: nat

definition breaker_start :: sim_proc where
  "breaker_start = \<lparr>sp_server = newServer, sp_local = 0, sp_flipper = Asleep, sp_gm = \<lparr>sm_calls = 0\<rparr>, sp_nm = \<lparr>sm_calls = 0\<rparr>,
     sp_done = False, sp_looping = True, sp_ended = False, sp_report = AtSecond, sp_seconds = 0, sp_rows = [], sp_calls = [], sp_flips = 0\<rparr>"

definition server_turn :: "sim_proc \<Rightarrow> sim_proc" where
  "server_turn s = (case sp_flipper s of
     Asleep \<Rightarrow> s\<lparr>sp_local := sim_flip (sp_local s), sp_flipper := HasFlipped\<rparr>
   | HasFlipped \<Rightarrow> s\<lparr>sp_server := \<lparr>sv_state = sp_local s\<rparr>, sp_flipper := Asleep, sp_flips := sp_flips s + 1\<rparr>)"

text \<open>\<open>sp_flips\<close> counts the stores, as a history.\<close>

text \<open>The function given to \<^verbatim>\<open>br.Do\<close>; its results are kept as a history.\<close>

definition breaker_call :: "sim_proc \<Rightarrow> sim_proc" where
  "breaker_call s = (case sim_serve (sp_server s) (sp_gm s) of
     (m, up) \<Rightarrow> s\<lparr>sp_gm := m, sp_calls := sp_calls s @ [if up then None else Some ErrServiceUnavailable]\<rparr>)"

definition sim_report_turn :: "sim_proc \<Rightarrow> sim_proc" where
  "sim_report_turn s = (case sp_report s of
     AtSecond \<Rightarrow> s\<lparr>sp_report := Counted, sp_seconds := sp_seconds s + 1\<rparr>
   | Counted \<Rightarrow> (case sim_reset (sp_gm s) of (m, g) \<Rightarrow> s\<lparr>sp_gm := m, sp_report := GotGoogle g\<rparr>)
   | GotGoogle g \<Rightarrow> (case sim_reset (sp_nm s) of (m, n) \<Rightarrow> s\<lparr>sp_nm := m, sp_report := GotBoth g n\<rparr>)
   | GotBoth g n \<Rightarrow> s\<lparr>sp_report := AtSecond, sp_rows := sp_rows s @ [(sp_seconds s, sv_state (sp_server s), g, n)]\<rparr>)"

inductive breaker_step :: "sim_proc \<Rightarrow> sim_proc \<Rightarrow> bool" where
  server: "\<not> sp_ended s \<Longrightarrow> breaker_step s (server_turn s)"
| admitted: "\<not> sp_ended s \<Longrightarrow> sp_looping s \<Longrightarrow> breaker_step s (breaker_call s)"
| rejected: "\<not> sp_ended s \<Longrightarrow> sp_looping s \<Longrightarrow> breaker_step s s"
| duration_over: "\<not> sp_ended s \<Longrightarrow> \<not> sp_done s \<Longrightarrow> breaker_step s (s\<lparr>sp_done := True\<rparr>)"
| loop_returns: "\<not> sp_ended s \<Longrightarrow> sp_looping s \<Longrightarrow> sp_done s \<Longrightarrow> breaker_step s (s\<lparr>sp_looping := False\<rparr>)"
| reports: "\<not> sp_ended s \<Longrightarrow> breaker_step s (sim_report_turn s)"
| waited: "\<not> sp_ended s \<Longrightarrow> \<not> sp_looping s \<Longrightarrow> breaker_step s (s\<lparr>sp_ended := True\<rparr>)"

inductive_cases breaker_stepE: "breaker_step s t"

section \<open>The invariant\<close>

fun google_held :: "sim_report \<Rightarrow> 64 word" where
  "google_held (GotGoogle g) = g"
| "google_held (GotBoth g _) = g"
| "google_held _ = 0"

fun netflix_held :: "sim_report \<Rightarrow> 64 word" where
  "netflix_held (GotBoth _ n) = n"
| "netflix_held _ = 0"

definition google_rows :: "sim_row list \<Rightarrow> 64 word" where "google_rows rows = (\<Sum>(_, _, g, _)\<leftarrow>rows. g)"

definition row_ok :: "sim_row \<Rightarrow> bool" where "row_ok = (\<lambda>(_, st, _, n). st \<in> {0, 1} \<and> n = 0)"

definition calls_inv :: "sim_proc \<Rightarrow> bool" where
  "calls_inv s \<longleftrightarrow> of_nat (length (sp_calls s)) = sm_calls (sp_gm s) + google_held (sp_report s) + google_rows (sp_rows s)"

definition columns_inv :: "sim_proc \<Rightarrow> bool" where
  "columns_inv s \<longleftrightarrow> sm_calls (sp_nm s) = 0 \<and> netflix_held (sp_report s) = 0 \<and> list_all row_ok (sp_rows s) \<and>
     sv_state (sp_server s) = of_bool (odd (sp_flips s)) \<and>
     sp_local s = (if sp_flipper s = Asleep then sv_state (sp_server s) else sim_flip (sv_state (sp_server s)))"

definition ending_inv :: "sim_proc \<Rightarrow> bool" where
  "ending_inv s \<longleftrightarrow> (sp_ended s \<longrightarrow> \<not> sp_looping s) \<and> (\<not> sp_looping s \<longrightarrow> sp_done s)"

lemma google_rows_simps [simp]: "google_rows [] = 0" "google_rows (rows @ [(k, st, g, n)]) = google_rows rows + g"
  by (simp_all add: google_rows_def)

lemmas breaker_defs = server_turn_def breaker_call_def sim_report_turn_def sim_serve_def sim_addCall_def sim_reset_def

lemma calls_inv_step: "calls_inv s \<Longrightarrow> breaker_step s t \<Longrightarrow> calls_inv t"
  by (erule breaker_stepE; cases "sp_report s"; cases "sp_flipper s"; simp add: calls_inv_def breaker_defs)

lemma columns_inv_step: "columns_inv s \<Longrightarrow> breaker_step s t \<Longrightarrow> columns_inv t"
  by (erule breaker_stepE; cases "sp_report s"; cases "sp_flipper s";
      simp add: columns_inv_def breaker_defs row_ok_def sim_flip_def)

lemma ending_inv_step: "ending_inv s \<Longrightarrow> breaker_step s t \<Longrightarrow> ending_inv t"
  by (erule breaker_stepE; cases "sp_report s"; cases "sp_flipper s"; simp add: ending_inv_def breaker_defs)

interpretation breakers: machine "\<lambda>s. s = breaker_start" breaker_step "\<lambda>s. calls_inv s \<and> columns_inv s \<and> ending_inv s"
proof (unfold_locales, goal_cases)
  case (1 s)
  then show ?case by (simp add: breaker_start_def newServer_def calls_inv_def columns_inv_def ending_inv_def)
qed (blast intro: calls_inv_step columns_inv_step ending_inv_step)

section \<open>Properties\<close>

text \<open>
  C31. The breaker simulation, in every state of the process and however its goroutines interleave: the server's state
  is the parity of the changes stored; the calls that the breaker let through are those in the counter, those the
  reporter holds and those in the rows; every row shows state 0 or 1 and no call in its last column, whose metric is
  given to no breaker; and the process ends only after its time was up and the request loop returned.
\<close>

theorem breaker_simulation_process:
  assumes "breaker_step\<^sup>*\<^sup>* breaker_start s"
  shows "sv_state (sp_server s) = of_bool (odd (sp_flips s)) \<and>
    of_nat (length (sp_calls s)) = sm_calls (sp_gm s) + google_held (sp_report s) + (\<Sum>(_, _, g, _)\<leftarrow>sp_rows s. g) \<and>
    (\<forall>(_, st, _, n) \<in> set (sp_rows s). st \<in> {0, 1} \<and> n = 0) \<and>
    (sp_ended s \<longrightarrow> sp_done s \<and> \<not> sp_looping s)"
proof -
  have "calls_inv s" "columns_inv s" "ending_inv s" using breakers.inv_reachable [OF refl assms] by simp_all
  then show ?thesis
    by (auto simp: calls_inv_def columns_inv_def ending_inv_def google_rows_def row_ok_def list_all_iff)
qed

text \<open>A broken server fails one call, is mended, and the first row is written.\<close>

definition first_row :: sim_proc where
  "first_row = breaker_start\<lparr>sp_calls := [Some ErrServiceUnavailable], sp_server := \<lparr>sv_state = 1\<rparr>, sp_local := 1, sp_flips := 1,
     sp_seconds := 1, sp_rows := [(1, 1, 1, 0)]\<rparr>"

lemma first_row_reached: "breaker_step\<^sup>*\<^sup>* breaker_start first_row"
proof -
  let ?s1 = "breaker_call breaker_start"
  let ?s3 = "server_turn (server_turn ?s1)"
  let ?R = "\<lambda>n. (sim_report_turn ^^ n) ?s3"
  note d = breaker_defs breaker_start_def newServer_def sim_flip_def
  have on: "\<not> sp_ended ?s1" "\<not> sp_ended (server_turn ?s1)" "\<not> sp_ended ?s3" by (simp_all add: d)
  have r: "\<not> sp_ended s \<Longrightarrow> breaker_step\<^sup>*\<^sup>* s (sim_report_turn s) \<and> \<not> sp_ended (sim_report_turn s)" for s
    using breaker_step.reports [of s] by (cases "sp_report s") (auto simp: breaker_defs)
  have "breaker_step\<^sup>*\<^sup>* ?s3 (?R n) \<and> \<not> sp_ended (?R n)" for n
  proof (induction n)
    case (Suc n)
    then show ?case using r [of "?R n"] by (auto intro: rtranclp_trans)
  qed (use on(3) in simp)
  then have "breaker_step\<^sup>*\<^sup>* ?s3 (?R 4)" by blast
  moreover have "?R 4 = first_row" by (simp add: d first_row_def numeral_eq_Suc)
  moreover have "breaker_step breaker_start ?s1" by (rule breaker_step.admitted) (simp_all add: breaker_start_def)
  moreover have "breaker_step ?s1 (server_turn ?s1)" "breaker_step (server_turn ?s1) ?s3"
    using on(1,2) by (blast intro: breaker_step.server)+
  ultimately show ?thesis by (metis (no_types) converse_rtranclp_into_rtranclp)
qed

theorem breaker_simulation_process_witness:
  "sv_state (sp_server first_row) = 1 \<and> sp_rows first_row = [(1, 1, 1, 0)] \<and> of_nat (length (sp_calls first_row)) = (1 :: 64 word)"
  using breaker_simulation_process [OF first_row_reached] by (simp add: first_row_def breaker_start_def)

end
