(* ===== verification/Http_Examples.thy ===== *)
theory Http_Examples
  imports Service_Lib
begin

text \<open>
  The small HTTP servers: middlewares and greeting handlers (\<^verbatim>\<open>http/cors\<close>, \<^verbatim>\<open>http/demo\<close>, \<^verbatim>\<open>http/group\<close>,
  \<^verbatim>\<open>http/withtimeout\<close>, \<^verbatim>\<open>http/middleware\<close>), body echo (\<^verbatim>\<open>http/post\<close>), the wildcard fallback
  (\<^verbatim>\<open>http/wildcard\<close>), parameter echo (\<^verbatim>\<open>http/httpc\<close>), per-route timeouts (\<^verbatim>\<open>http/timeout\<close>), and token issue
  and verification (\<^verbatim>\<open>http/jwt\<close>). The handlers have no state. What the server library does with them is a parameter, the record
  \<open>rest_lib\<close>: \<^verbatim>\<open>Server.Use\<close>, \<^verbatim>\<open>rest.WithTimeout\<close>, \<^verbatim>\<open>rest.WithCors\<close> and the answer to a method without a route; its documented behaviour is \<open>rest_ok\<close>. So are the JWT
  library and \<^verbatim>\<open>rest.WithJwt\<close>, with \<open>jwt_ok\<close>.

  The locale \<open>stamping\<close> is the interface of a middleware that adds one header and passes on.
\<close>

text \<open>
  A handler gets a request; what it does is how long it sleeps, in milliseconds, and what it writes.
\<close>

type_synonym handled = "nat \<times> http_write list"
type_synonym 'q handler_func = "'q \<Rightarrow> handled"
type_synonym 'q middleware = "'q handler_func \<Rightarrow> 'q handler_func"

definition at_once :: "http_write list \<Rightarrow> handled" where
  "at_once ws = (0, ws)"

text \<open>\<^verbatim>\<open>w.Header().Add(k, v); next(w, r)\<close>.\<close>

definition add_header :: "string \<Rightarrow> string \<Rightarrow> handled \<Rightarrow> handled" where
  "add_header k v = (\<lambda>(d, ws). (d, HttpHeader k v # ws))"

section \<open>The server library\<close>

text \<open>
  \<open>UseChain\<close> is the chain that the calls of \<^verbatim>\<open>Server.Use\<close> make of the middlewares, in the order of the calls: the first one used is the outermost.
  The timeout handler stands in front of the middlewares; it passes on what
  is written in time and answers 503 instead of what comes late; with 0 it does nothing. \<open>CorsRouter\<close> is the router of \<^verbatim>\<open>rest.WithCors\<close>: in front of what
  the server answers to the method it writes headers of its own, and it answers the method \<^verbatim>\<open>OPTIONS\<close> itself. \<open>NotAllowed\<close> answers a known path with
  a method without a route, with and without that router.
\<close>

type_synonym 'q timeout_handler = "nat \<Rightarrow> 'q handler_func \<Rightarrow> 'q \<Rightarrow> http_write list"

record 'q rest_lib =
  UseChain :: "'q middleware list \<Rightarrow> 'q middleware"
  TimeoutHandler :: "'q timeout_handler"
  CorsRouter :: "string \<Rightarrow> ('q \<Rightarrow> http_write list) \<Rightarrow> 'q \<Rightarrow> http_write list"
  NotAllowed :: "bool \<Rightarrow> 'q \<Rightarrow> http_write list"

definition timeout_ok :: "'q timeout_handler \<Rightarrow> bool" where
  "timeout_ok timed \<longleftrightarrow> (\<forall>t h q.
     (t = 0 \<or> fst (h q) < t \<longrightarrow> timed t h q = snd (h q)) \<and>
     (0 < t \<and> t < fst (h q) \<longrightarrow> (\<exists>body. timed t h q = [HttpErrorText 503 body])))"

fun cors_header :: "http_write \<Rightarrow> bool" where
  "cors_header (HttpHeader k v) = (prefix ''Access-Control-'' k \<or> k = ''Vary'')"
| "cors_header _ = False"

definition rest_ok :: "'q rest_lib \<Rightarrow> bool" where
  "rest_ok R \<longleftrightarrow> (\<forall>h. UseChain R [] h = h) \<and> (\<forall>m ms h. UseChain R (m # ms) h = m (UseChain R ms h)) \<and>
     timeout_ok (TimeoutHandler R) \<and>
     (\<forall>m next q. m \<noteq> ''OPTIONS'' \<longrightarrow> (\<exists>hs. list_all cors_header hs \<and> CorsRouter R m next q = hs @ next q))"

lemma rest_okD:
  assumes "rest_ok R"
  shows "UseChain R [] h = h" "UseChain R (m # ms) h = m (UseChain R ms h)" "timeout_ok (TimeoutHandler R)"
    "m' \<noteq> ''OPTIONS'' \<Longrightarrow> \<exists>hs. list_all cors_header hs \<and> CorsRouter R m' next q = hs @ next q"
  using assms by (simp_all add: rest_ok_def)

section \<open>Middlewares\<close>

definition cors_first :: "'q middleware" where
  "cors_first next r = add_header ''X-Middleware'' ''first'' (next r)"

definition cors_second :: "'q middleware" where
  "cors_second next r = add_header ''X-Middleware'' ''second'' (next r)"

definition demo_first :: "'q middleware" where
  "demo_first next r = add_header ''X-Middleware'' ''first'' (next r)"

definition demo_second :: "'q middleware" where
  "demo_second next r = add_header ''X-Middleware'' ''second'' (next r)"

definition group_first :: "'q middleware" where
  "group_first next r = add_header ''X-Middleware'' ''first'' (next r)"

definition group_second :: "'q middleware" where
  "group_second next r = add_header ''X-Middleware'' ''second'' (next r)"

definition wt_first :: "'q middleware" where
  "wt_first next r = add_header ''X-Middleware'' ''first'' (next r)"

definition wt_second :: "'q middleware" where
  "wt_second next r = add_header ''X-Middleware'' ''second'' (next r)"

definition mw_static :: "'q middleware" where
  "mw_static next r = add_header ''X-Middleware'' ''static-middleware'' (next r)"

text \<open>\<^verbatim>\<open>AnotherService.GetToken\<close> returns a random string; \<open>token r\<close> is the one drawn for a request.\<close>

definition mw_another :: "('q \<Rightarrow> string) \<Rightarrow> 'q middleware" where
  "mw_another token next r = add_header ''X-Middleware'' (token r) (next r)"

text \<open>The interface: a middleware that adds its header and passes on, and two of them in sequence.\<close>

locale stamping =
  fixes stamp :: "'q \<Rightarrow> string"
    and mw :: "'q middleware"
  assumes mw_law: "mw next r = add_header ''X-Middleware'' (stamp r) (next r)"
begin

lemma keeps_delay: "fst (mw next r) = fst (next r)"
  by (simp add: mw_law add_header_def split: prod.splits)

lemma stamps_first: "snd (mw next r) = HttpHeader ''X-Middleware'' (stamp r) # snd (next r)"
  by (simp add: mw_law add_header_def split: prod.splits)

end

locale two_stamps = outer: stamping stamp1 mw1 + inner: stamping stamp2 mw2
  for stamp1 :: "'q \<Rightarrow> string" and mw1 and stamp2 :: "'q \<Rightarrow> string" and mw2
begin

lemma use_both:
  assumes "rest_ok R"
  shows "UseChain R [mw1, mw2] h r =
     (fst (h r), HttpHeader ''X-Middleware'' (stamp1 r) # HttpHeader ''X-Middleware'' (stamp2 r) # snd (h r))"
  by (rule prod_eqI)
    (simp_all add: rest_okD [OF assms] outer.keeps_delay inner.keeps_delay outer.stamps_first inner.stamps_first)

end

interpretation cors_mw: two_stamps "\<lambda>_. ''first''" cors_first "\<lambda>_. ''second''" cors_second
  by unfold_locales (simp_all add: cors_first_def cors_second_def)

interpretation demo_mw: two_stamps "\<lambda>_. ''first''" demo_first "\<lambda>_. ''second''" demo_second
  by unfold_locales (simp_all add: demo_first_def demo_second_def)

interpretation group_mw: two_stamps "\<lambda>_. ''first''" group_first "\<lambda>_. ''second''" group_second
  by unfold_locales (simp_all add: group_first_def group_second_def)

interpretation wt_mw: two_stamps "\<lambda>_. ''first''" wt_first "\<lambda>_. ''second''" wt_second
  by unfold_locales (simp_all add: wt_first_def wt_second_def)

interpretation greet_mw: two_stamps "\<lambda>_. ''static-middleware''" mw_static token "mw_another token" for token
  by unfold_locales (simp_all add: mw_static_def mw_another_def)

section \<open>Handlers\<close>

text \<open>The common shape: parse the form, answer 400 with the error's text or greet as JSON.\<close>

definition user_of :: "string \<Rightarrow> ('q, 'c) http_lib \<Rightarrow> 'q \<Rightarrow> string result" where
  "user_of tag H r = map_sum id (field_str 0) (Parse H r [(FormField, tag, JStr [])])"

definition cors_handleHello :: "('q, 'c) http_lib \<Rightarrow> 'q handler_func" where
  "cors_handleHello H r =
     (case user_of ''user'' H r of
        Inl err \<Rightarrow> at_once [HttpErrorText 400 (err_text err)]
      | Inr user \<Rightarrow> at_once [HttpJsonStr (''welcome, '' @ user)])"

definition demo_handle :: "('q, 'c) http_lib \<Rightarrow> 'q handler_func" where
  "demo_handle H r =
     (case user_of ''user,options=a|b'' H r of
        Inl err \<Rightarrow> at_once [HttpErrorText 400 (err_text err)]
      | Inr user \<Rightarrow> at_once [HttpJsonStr (''hello, '' @ user)])"

definition group_handleHomeHello :: "('q, 'c) http_lib \<Rightarrow> 'q handler_func" where
  "group_handleHomeHello H r =
     (case user_of ''user'' H r of
        Inl err \<Rightarrow> at_once [HttpErrorText 400 (err_text err)]
      | Inr user \<Rightarrow> at_once [HttpJsonStr (''welcome home, '' @ user)])"

definition group_handleApiHello :: "('q, 'c) http_lib \<Rightarrow> 'q handler_func" where
  "group_handleApiHello H r =
     (case user_of ''user'' H r of
        Inl err \<Rightarrow> at_once [HttpErrorText 400 (err_text err)]
      | Inr user \<Rightarrow> at_once [HttpJsonStr (''hello, '' @ user)])"

definition group_handleApiHi :: "('q, 'c) http_lib \<Rightarrow> 'q handler_func" where
  "group_handleApiHi H r =
     (case user_of ''user'' H r of
        Inl err \<Rightarrow> at_once [HttpErrorText 400 (err_text err)]
      | Inr user \<Rightarrow> at_once [HttpJsonStr (''hi, '' @ user)])"

definition mw_handle :: "('q, 'c) http_lib \<Rightarrow> 'q handler_func" where
  "mw_handle H r =
     (case user_of ''user'' H r of
        Inl err \<Rightarrow> at_once [HttpErrorText 400 (err_text err)]
      | Inr user \<Rightarrow> at_once [HttpJsonStr (''hello, '' @ user)])"

definition post_handleGet :: "'q handler_func" where
  "post_handleGet r = at_once []"

text \<open>\<open>decimal\<close> is the \<^verbatim>\<open>%d\<close> of \<^verbatim>\<open>fmt\<close>; the request has a content length of its own.\<close>

definition post_handlePost :: "(int \<Rightarrow> string) \<Rightarrow> ('q \<Rightarrow> int) \<Rightarrow> ('q, 'c) http_lib \<Rightarrow> 'q handler_func" where
  "post_handlePost decimal contentLength H r =
     (case Parse H r [(JsonField, ''user'', JStr [])] of
        Inl err \<Rightarrow> at_once [HttpErrorText 400 (err_text err)]
      | Inr vs \<Rightarrow> at_once [HttpJsonStr (''Content-Length: '' @ decimal (contentLength r) @ '', UserLen: '' @
          decimal (int (length (field_str 0 vs))))])"

definition wildcard_handle :: "('q, 'c) http_lib \<Rightarrow> 'q handler_func" where
  "wildcard_handle H r =
     (case user_of ''user,options=a|b'' H r of
        Inl err \<Rightarrow> at_once [HttpErrorText 400 (err_text err)]
      | Inr user \<Rightarrow> at_once [HttpJsonStr (''hello, '' @ user)])"

definition not_found :: "'q handler_func" where
  "not_found r = at_once [HttpErrorText 404 ''404 page not found'']"

definition wildcard_notFound :: "('q \<Rightarrow> string) \<Rightarrow> 'q handler_func" where
  "wildcard_notFound urlPath r =
     (if has_prefix (urlPath r) ''/api/any/'' then at_once [HttpText (''wildcard: '' @ urlPath r)]
      else not_found r)"

text \<open>The echo server's request struct and its answer, whose untagged fields keep their Go names.\<close>

record httpc_Request =
  hr_Node :: string
  hr_ID :: "64 word"
  hr_Header :: string
  hr_Body :: string

definition httpc_tags :: "(form_kind \<times> string \<times> json_val) list" where
  "httpc_tags = [(PathField, ''node'', JStr []), (FormField, ''id'', JInt 0), (HeaderField, ''X-Header'', JStr []),
     (JsonField, ''body'', JStr [])]"

definition httpc_json :: "httpc_Request \<Rightarrow> json_fields" where
  "httpc_json req = [(''Node'', False, JStr (hr_Node req)), (''ID'', False, JInt (hr_ID req)),
     (''Header'', False, JStr (hr_Header req)), (''body'', False, JStr (hr_Body req))]"

definition httpc_handle :: "('q, 'c) http_lib \<Rightarrow> 'q handler_func" where
  "httpc_handle H r =
     (case Parse H r httpc_tags of
        Inl err \<Rightarrow> at_once [HttpErrorText 400 (err_text err)]
      | Inr vs \<Rightarrow>
          let req = \<lparr>hr_Node = field_str 0 vs, hr_ID = field_int 1 vs, hr_Header = field_str 2 vs, hr_Body = field_str 3 vs\<rparr>
          in at_once [HttpJson 200 (httpc_json req)])"

text \<open>
  The client sends its request with \<^verbatim>\<open>httpc.Do\<close>, which places the fields by the same tags; \<open>build\<close> is
  that call's request for method, URL and tagged values.
\<close>

definition httpc_client_request :: httpc_Request where
  "httpc_client_request = \<lparr>hr_Node = ''foo'', hr_ID = 1024, hr_Header = ''foo-header'', hr_Body = ''hello, world''\<rparr>"

definition httpc_client_main ::
  "(string \<Rightarrow> string \<Rightarrow> (form_kind \<times> string \<times> json_val) list \<Rightarrow> 'q) \<Rightarrow> string \<Rightarrow> 'q" where
  "httpc_client_main build domain =
     (let req = httpc_client_request
      in build ''POST'' (domain @ ''/nodes/:node'')
           [(PathField, ''node'', JStr (hr_Node req)), (FormField, ''id'', JInt (hr_ID req)),
            (HeaderField, ''X-Header'', JStr (hr_Header req)), (JsonField, ''body'', JStr (hr_Body req))])"

section \<open>Handlers that sleep\<close>

text \<open>The first one also prints the request's deadline, on standard output.\<close>

definition wt_handleHomeHello :: "('q, 'c) http_lib \<Rightarrow> 'q handler_func" where
  "wt_handleHomeHello H r =
     (case user_of ''user'' H r of
        Inl err \<Rightarrow> at_once [HttpErrorText 400 (err_text err)]
      | Inr user \<Rightarrow> (1500, [HttpJsonStr (''welcome home, '' @ user)]))"

definition wt_handleApiHello :: "('q, 'c) http_lib \<Rightarrow> 'q handler_func" where
  "wt_handleApiHello H r =
     (case user_of ''user'' H r of
        Inl err \<Rightarrow> at_once [HttpErrorText 400 (err_text err)]
      | Inr user \<Rightarrow> (1500, [HttpJsonStr (''hello, '' @ user)]))"

definition wt_handleApiHi :: "('q, 'c) http_lib \<Rightarrow> 'q handler_func" where
  "wt_handleApiHi H r =
     (case user_of ''user'' H r of
        Inl err \<Rightarrow> at_once [HttpErrorText 400 (err_text err)]
      | Inr user \<Rightarrow> at_once [HttpJsonStr (''hi, '' @ user)])"

definition Fast :: "string \<Rightarrow> nat \<times> go_error option" where
  "Fast name = (4000, None)"

definition Slow :: "string \<Rightarrow> nat \<times> go_error option" where
  "Slow name = (4000, None)"

definition FastHandler :: "('q, 'c) http_lib \<Rightarrow> 'q handler_func" where
  "FastHandler H r =
     (case Parse H r [(PathField, ''name'', JStr [])] of
        Inl err \<Rightarrow> at_once [HttpError err]
      | Inr vs \<Rightarrow>
          (case Fast (field_str 0 vs) of (d, Some err) \<Rightarrow> (d, [HttpError err]) | (d, None) \<Rightarrow> (d, [HttpStatus 200])))"

definition SlowHandler :: "('q, 'c) http_lib \<Rightarrow> 'q handler_func" where
  "SlowHandler H r =
     (case Parse H r [(PathField, ''name'', JStr [])] of
        Inl err \<Rightarrow> at_once [HttpError err]
      | Inr vs \<Rightarrow>
          (case Slow (field_str 0 vs) of (d, Some err) \<Rightarrow> (d, [HttpError err]) | (d, None) \<Rightarrow> (d, [HttpStatus 200])))"

section \<open>Servers\<close>

text \<open>
  A route with its timeout (0 when the route sets none), and a server: its middlewares, routes, what
  answers when no route matches, the configuration's timeout (0 for none), and whether it was made with \<^verbatim>\<open>rest.WithCors\<close>.
\<close>

record 'q http_route =
  rt_method :: string
  rt_path :: string
  rt_timeout :: nat
  rt_handler :: "'q handler_func"

record 'q http_server =
  hs_use :: "'q middleware list"
  hs_routes :: "'q http_route list"
  hs_notFound :: "'q handler_func"
  hs_timeout :: nat
  hs_cors :: bool

definition get :: "string \<Rightarrow> 'q handler_func \<Rightarrow> 'q http_route" where
  "get p h = \<lparr>rt_method = ''GET'', rt_path = p, rt_timeout = 0, rt_handler = h\<rparr>"

definition post :: "string \<Rightarrow> 'q handler_func \<Rightarrow> 'q http_route" where
  "post p h = \<lparr>rt_method = ''POST'', rt_path = p, rt_timeout = 0, rt_handler = h\<rparr>"

definition with_prefix :: "string \<Rightarrow> 'q http_route list \<Rightarrow> 'q http_route list" where
  "with_prefix p = map (\<lambda>rt. rt\<lparr>rt_path := p @ rt_path rt\<rparr>)"

definition with_timeout :: "nat \<Rightarrow> 'q http_route list \<Rightarrow> 'q http_route list" where
  "with_timeout t = map (\<lambda>rt. rt\<lparr>rt_timeout := t\<rparr>)"

definition route_timeout :: "'q http_server \<Rightarrow> 'q http_route \<Rightarrow> nat" where
  "route_timeout S rt = (if 0 < rt_timeout rt then rt_timeout rt else hs_timeout S)"

text \<open>What the server answers when its router matched method \<open>m\<close> and the path pattern \<open>p\<close>.\<close>

definition answer :: "'q rest_lib \<Rightarrow> 'q http_server \<Rightarrow> string \<Rightarrow> string \<Rightarrow> 'q \<Rightarrow> http_write list" where
  "answer R S m p r =
     (let routed = (\<lambda>r. case find (\<lambda>rt. rt_method rt = m \<and> rt_path rt = p) (hs_routes S) of
            Some rt \<Rightarrow> TimeoutHandler R (route_timeout S rt) (UseChain R (hs_use S) (rt_handler rt)) r
          | None \<Rightarrow> if \<exists>rt \<in> set (hs_routes S). rt_path rt = p then NotAllowed R (hs_cors S) r else snd (hs_notFound S r))
      in if hs_cors S then CorsRouter R m routed r else routed r)"

definition cors_server :: "nat \<Rightarrow> ('q, 'c) http_lib \<Rightarrow> 'q http_server" where
  "cors_server confTimeout H = \<lparr>hs_use = [cors_first, cors_second], hs_routes = [get ''/hello'' (cors_handleHello H)],
     hs_notFound = not_found, hs_timeout = confTimeout, hs_cors = True\<rparr>"

definition demo_server :: "nat \<Rightarrow> ('q, 'c) http_lib \<Rightarrow> 'q http_server" where
  "demo_server timeout H = \<lparr>hs_use = [demo_first, demo_second], hs_routes = [get ''/demo'' (demo_handle H)],
     hs_notFound = not_found, hs_timeout = timeout, hs_cors = False\<rparr>"

definition group_server :: "('q, 'c) http_lib \<Rightarrow> 'q http_server" where
  "group_server H = \<lparr>hs_use = [group_first, group_second],
     hs_routes = [get ''/hello'' (group_handleHomeHello H)] @ with_prefix ''/api'' [get ''/hello'' (group_handleApiHello H)],
     hs_notFound = not_found, hs_timeout = 0, hs_cors = False\<rparr>"

definition middleware_server :: "('q \<Rightarrow> string) \<Rightarrow> ('q, 'c) http_lib \<Rightarrow> 'q http_server" where
  "middleware_server token H = \<lparr>hs_use = [mw_static, mw_another token], hs_routes = [get ''/greet'' (mw_handle H)],
     hs_notFound = not_found, hs_timeout = 0, hs_cors = False\<rparr>"

definition post_server :: "nat \<Rightarrow> (int \<Rightarrow> string) \<Rightarrow> ('q \<Rightarrow> int) \<Rightarrow> ('q, 'c) http_lib \<Rightarrow> 'q http_server" where
  "post_server timeout decimal contentLength H = \<lparr>hs_use = [],
     hs_routes = [get ''/'' post_handleGet, post ''/'' (post_handlePost decimal contentLength H)],
     hs_notFound = not_found, hs_timeout = timeout, hs_cors = False\<rparr>"

definition wildcard_server :: "('q \<Rightarrow> string) \<Rightarrow> ('q, 'c) http_lib \<Rightarrow> 'q http_server" where
  "wildcard_server urlPath H = \<lparr>hs_use = [], hs_routes = [get ''/api/users'' (wildcard_handle H)],
     hs_notFound = wildcard_notFound urlPath, hs_timeout = 0, hs_cors = False\<rparr>"

definition httpc_server :: "('q, 'c) http_lib \<Rightarrow> 'q http_server" where
  "httpc_server H = \<lparr>hs_use = [], hs_routes = [post ''/nodes/:node'' (httpc_handle H)],
     hs_notFound = not_found, hs_timeout = 0, hs_cors = False\<rparr>"

definition wt_server :: "nat \<Rightarrow> ('q, 'c) http_lib \<Rightarrow> 'q http_server" where
  "wt_server confTimeout H = \<lparr>hs_use = [wt_first, wt_second],
     hs_routes = with_timeout 1000 [get ''/hello'' (wt_handleHomeHello H)] @
       with_timeout (1000 * 5) (with_prefix ''/api''
         [get ''/hello'' (wt_handleApiHello H), get ''/hi'' (wt_handleApiHi H)]),
     hs_notFound = not_found, hs_timeout = confTimeout, hs_cors = False\<rparr>"

definition timeout_routes :: "('q, 'c) http_lib \<Rightarrow> 'q http_route list" where
  "timeout_routes H = with_timeout 5000 [get ''/slow/:name'' (SlowHandler H)] @ [get ''/fast/:name'' (FastHandler H)]"

definition timeout_server :: "nat \<Rightarrow> ('q, 'c) http_lib \<Rightarrow> 'q http_server" where
  "timeout_server confTimeout H = \<lparr>hs_use = [], hs_routes = timeout_routes H,
     hs_notFound = not_found, hs_timeout = confTimeout, hs_cors = False\<rparr>"

section \<open>Tokens\<close>

record jwt_config =
  AccessSecret :: string
  AccessExpire :: "64 word"

type_synonym claims = "string \<rightharpoonup> json_val"

text \<open>The JWT library: signing claims with HS256, whether the authorization handler accepts a token at
  a time, for a secret, and \<^verbatim>\<open>rest.WithJwt\<close>, which puts that handler in front of a route, or panics.\<close>

record 'q jwt_lib =
  SignedString :: "claims \<Rightarrow> string \<Rightarrow> string result"
  Accepts :: "string \<Rightarrow> string \<Rightarrow> int \<Rightarrow> bool"
  WithJwt :: "string \<Rightarrow> (64 word \<Rightarrow> 'q handler_func \<Rightarrow> 'q handler_func) result"

definition GenToken :: "'q jwt_lib \<Rightarrow> 64 word \<Rightarrow> string \<Rightarrow> claims \<Rightarrow> 64 word \<Rightarrow> string result" where
  "GenToken X iat secretKey payloads seconds =
     (let claims = Map.empty; claims = claims(''exp'' \<mapsto> JInt (iat + seconds)); claims = claims(''iat'' \<mapsto> JInt iat);
          claims = claims ++ payloads
      in SignedString X claims secretKey)"

record JwtTokenResponse =
  jr_AccessToken :: string
  jr_AccessExpire :: "64 word"
  jr_RefreshAfter :: "64 word"

text \<open>\<open>div2\<close> is \<^verbatim>\<open>accessExpire/2\<close> on a signed integer.\<close>

definition div2 :: "64 word \<Rightarrow> 64 word" where
  "div2 x = word_of_int (if sint x < 0 then - ((- sint x) div 2) else sint x div 2)"

definition Jwt :: "'q jwt_lib \<Rightarrow> jwt_config \<Rightarrow> 64 word \<Rightarrow> JwtTokenResponse result" where
  "Jwt X c now =
     (let accessExpire = AccessExpire c
      in case GenToken X now (AccessSecret c) Map.empty accessExpire of
           Inl err \<Rightarrow> Inl err
         | Inr accessToken \<Rightarrow> Inr \<lparr>jr_AccessToken = accessToken, jr_AccessExpire = now + accessExpire,
             jr_RefreshAfter = now + div2 accessExpire\<rparr>)"

definition GetUser :: "string \<Rightarrow> string result" where
  "GetUser userId = Inr ''frank_test''"

definition JwtHandler :: "'q jwt_lib \<Rightarrow> jwt_config \<Rightarrow> ('q, 'c) http_lib \<Rightarrow> 64 word \<Rightarrow> 'q handler_func" where
  "JwtHandler X c H now r =
     (case Parse H r [] of
        Inl err \<Rightarrow> at_once [HttpError err]
      | Inr vs \<Rightarrow>
          (case Jwt X c now of
             Inl err \<Rightarrow> at_once [HttpError err]
           | Inr resp \<Rightarrow> at_once [HttpJson 200 [(''access_token'', False, JStr (jr_AccessToken resp)),
               (''access_expire'', False, JInt (jr_AccessExpire resp)), (''refresh_after'', False, JInt (jr_RefreshAfter resp))]]))"

definition GetUserHandler :: "('q, 'c) http_lib \<Rightarrow> 'q handler_func" where
  "GetUserHandler H r =
     (case Parse H r [(JsonField, ''userId'', JStr [])] of
        Inl err \<Rightarrow> at_once [HttpError err]
      | Inr vs \<Rightarrow>
          (case GetUser (field_str 0 vs) of
             Inl err \<Rightarrow> at_once [HttpError err]
           | Inr name \<Rightarrow> at_once [HttpJson 200 [(''name'', False, JStr name)]]))"

text \<open>The routes at a time, unless registering them panics.\<close>

definition jwt_routes ::
  "'q jwt_lib \<Rightarrow> jwt_config \<Rightarrow> ('q, 'c) http_lib \<Rightarrow> (64 word \<Rightarrow> 'q http_route list) result" where
  "jwt_routes X c H =
     (case WithJwt X (AccessSecret c) of
        Inl err \<Rightarrow> Inl err
      | Inr authorized \<Rightarrow> Inr (\<lambda>now.
          [post ''/user/token'' (JwtHandler X c H now)] @
          [post ''/user/info'' (authorized now (GetUserHandler H))]))"

text \<open>The server as a function of the time.\<close>

definition jwt_server ::
  "nat \<Rightarrow> 'q jwt_lib \<Rightarrow> jwt_config \<Rightarrow> ('q, 'c) http_lib \<Rightarrow> (64 word \<Rightarrow> 'q http_server) result" where
  "jwt_server confTimeout X c H =
     (case jwt_routes X c H of
        Inl err \<Rightarrow> Inl err
      | Inr routes \<Rightarrow> Inr (\<lambda>now. \<lparr>hs_use = [], hs_routes = routes now, hs_notFound = not_found, hs_timeout = confTimeout, hs_cors = False\<rparr>))"

text \<open>
  What the token library promises: claims with integer times are signed, and the token is accepted
  under its own secret from its \<^verbatim>\<open>iat\<close> until before its \<^verbatim>\<open>exp\<close>, and no more after that. Times are JSON
  numbers, exact below \<^verbatim>\<open>2^53\<close>. \<^verbatim>\<open>rest.WithJwt\<close> panics for a secret of fewer than 8 bytes; with a longer one the route answers
  401 unless the request's token is accepted. \<open>bearer r\<close> is that token.
\<close>

definition jwt_ok :: "'q jwt_lib \<Rightarrow> ('q \<Rightarrow> string) \<Rightarrow> bool" where
  "jwt_ok X bearer \<longleftrightarrow> (\<forall>cl k e i. dom cl = {''exp'', ''iat''} \<and> cl ''exp'' = Some (JInt e) \<and> cl ''iat'' = Some (JInt i) \<and>
     0 < sint i \<and> sint i < 2 ^ 53 \<and> 0 < sint e \<and> sint e < 2 ^ 53 \<longrightarrow>
     (\<exists>t. SignedString X cl k = Inr t \<and>
        (\<forall>now. sint i \<le> now \<and> now < sint e \<longrightarrow> Accepts X k t now) \<and>
        (\<forall>now. sint e < now \<longrightarrow> \<not> Accepts X k t now))) \<and>
     (\<forall>k. length k < 8 \<longrightarrow> (\<exists>v. WithJwt X k = Inl (Panicked v))) \<and>
     (\<forall>k. 8 \<le> length k \<longrightarrow> (\<exists>f. WithJwt X k = Inr f \<and>
        (\<forall>now h q. f now h q = (if Accepts X k (bearer q) (sint now) then h q else at_once [HttpStatus 401]))))"

lemma jwt_okD:
  assumes "jwt_ok X bearer"
  shows "dom cl = {''exp'', ''iat''} \<and> cl ''exp'' = Some (JInt e) \<and> cl ''iat'' = Some (JInt i) \<and>
     0 < sint i \<and> sint i < 2 ^ 53 \<and> 0 < sint e \<and> sint e < 2 ^ 53 \<Longrightarrow>
     \<exists>t. SignedString X cl k = Inr t \<and> (\<forall>now. sint i \<le> now \<and> now < sint e \<longrightarrow> Accepts X k t now) \<and>
        (\<forall>now. sint e < now \<longrightarrow> \<not> Accepts X k t now)"
    "length k < 8 \<Longrightarrow> \<exists>v. WithJwt X k = Inl (Panicked v)"
    "8 \<le> length k \<Longrightarrow> \<exists>f. WithJwt X k = Inr f \<and>
        (\<forall>now h q. f now h q = (if Accepts X k (bearer q) (sint now) then h q else at_once [HttpStatus 401]))"
  using assms unfolding jwt_ok_def by blast+

section \<open>Lemmas\<close>

lemma at_once_simps [simp]: "fst (at_once ws) = 0" "snd (at_once ws) = ws"
  by (simp_all add: at_once_def)

lemma timed_in_time: "rest_ok R \<Longrightarrow> fst (h q) = 0 \<or> fst (h q) < t \<Longrightarrow> TimeoutHandler R t h q = snd (h q)"
  using rest_okD(3) unfolding timeout_ok_def by (metis not_gr_zero)

lemma timed_out: "rest_ok R \<Longrightarrow> 0 < t \<Longrightarrow> t < fst (h q) \<Longrightarrow> \<exists>body. TimeoutHandler R t h q = [HttpErrorText 503 body]"
  using rest_okD(3) unfolding timeout_ok_def by blast

lemmas route_simps = answer_def Let_def route_timeout_def get_def post_def with_prefix_def with_timeout_def

text \<open>The timeout handler of the contract, as a function.\<close>

definition ref_timeout :: "'q timeout_handler" where
  "ref_timeout t h q = (if 0 < t \<and> t < fst (h q) then [HttpErrorText 503 []] else snd (h q))"

definition ref_rest :: "'q rest_lib" where
  "ref_rest = \<lparr>UseChain = foldr (\<lambda>m h. m h), TimeoutHandler = ref_timeout,
     CorsRouter = (\<lambda>m next q. if m = ''OPTIONS'' then [HttpStatus 204] else HttpHeader ''Access-Control-Allow-Origin'' ''*'' # next q),
     NotAllowed = (\<lambda>cors q. [HttpStatus (if cors then 404 else 405)])\<rparr>"

lemma ref_rest_ok: "rest_ok ref_rest"
  by (auto simp: rest_ok_def ref_rest_def timeout_ok_def ref_timeout_def intro!: exI [of _ "[HttpHeader ''Access-Control-Allow-Origin'' ''*'']"])


section \<open>Properties\<close>

lemma timed_at_once: "rest_ok R \<Longrightarrow> fst (h q) = 0 \<Longrightarrow> TimeoutHandler R t h q = snd (h q)"
  by (simp add: timed_in_time)

text \<open>The answer to a greeting request: 400 with the parse error's text, or the greeting.\<close>

definition greeting :: "string \<Rightarrow> ('q, 'c) http_lib \<Rightarrow> 'q \<Rightarrow> string \<Rightarrow> http_write" where
  "greeting tag H r s =
     (case user_of tag H r of Inl err \<Rightarrow> HttpErrorText 400 (err_text err) | Inr user \<Rightarrow> HttpJsonStr (s @ user))"

abbreviation stamp_header :: "string \<Rightarrow> http_write" where
  "stamp_header v \<equiv> HttpHeader ''X-Middleware'' v"

lemma greet_handlers:
  "cors_handleHello H r = at_once [greeting ''user'' H r ''welcome, '']"
  "demo_handle H r = at_once [greeting ''user,options=a|b'' H r ''hello, '']"
  "group_handleHomeHello H r = at_once [greeting ''user'' H r ''welcome home, '']"
  "group_handleApiHello H r = at_once [greeting ''user'' H r ''hello, '']"
  "mw_handle H r = at_once [greeting ''user'' H r ''hello, '']"
  "wildcard_handle H r = at_once [greeting ''user,options=a|b'' H r ''hello, '']"
  "wt_handleApiHi H r = at_once [greeting ''user'' H r ''hi, '']"
  by (simp_all add: cors_handleHello_def demo_handle_def group_handleHomeHello_def group_handleApiHello_def
      mw_handle_def wildcard_handle_def wt_handleApiHi_def greeting_def split: sum.splits)

lemmas use_two = cors_mw.use_both demo_mw.use_both group_mw.use_both greet_mw.use_both wt_mw.use_both

lemmas greet_simps = route_simps greet_handlers cors_server_def demo_server_def group_server_def middleware_server_def
  wildcard_server_def wt_server_def

text \<open>
  Middlewares run in the order of their \<^verbatim>\<open>Use\<close> calls: on each route of the servers of http/cors,
  http/demo, http/group and http/middleware the answer carries the first middleware's header, then the
  second's, then the handler's own answer, 400 with the parse error's text or the greeting, in http/cors behind the headers of \<^verbatim>\<open>rest.WithCors\<close>; with the
  prefix option the two \<^verbatim>\<open>/hello\<close> routes of http/group stay distinct; a path without a route gets 404
  and no header, or, in http/wildcard and under \<^verbatim>\<open>/api/any/\<close>, the fallback's text.
\<close>

lemma middleware_order:
  assumes "rest_ok R"
  shows "\<exists>hs. list_all cors_header hs \<and> answer R (cors_server T H) ''GET'' ''/hello'' r =
      hs @ [stamp_header ''first'', stamp_header ''second'', greeting ''user'' H r ''welcome, '']"
    "answer R (demo_server T H) ''GET'' ''/demo'' r =
      [stamp_header ''first'', stamp_header ''second'', greeting ''user,options=a|b'' H r ''hello, '']"
    "answer R (group_server H) ''GET'' ''/hello'' r =
      [stamp_header ''first'', stamp_header ''second'', greeting ''user'' H r ''welcome home, '']"
    "answer R (group_server H) ''GET'' ''/api/hello'' r =
      [stamp_header ''first'', stamp_header ''second'', greeting ''user'' H r ''hello, '']"
    "answer R (middleware_server token H) ''GET'' ''/greet'' r =
      [stamp_header ''static-middleware'', stamp_header (token r), greeting ''user'' H r ''hello, '']"
    "answer R (group_server H) ''GET'' ''/api/hi'' r = [HttpErrorText 404 ''404 page not found'']"
    "p \<noteq> ''/api/users'' \<Longrightarrow> answer R (wildcard_server urlPath H) m p r =
      (if prefix ''/api/any/'' (urlPath r) then [HttpText (''wildcard: '' @ urlPath r)]
       else [HttpErrorText 404 ''404 page not found''])"
proof -
  let ?next = "\<lambda>r. TimeoutHandler R T (UseChain R [cors_first, cors_second] (cors_handleHello H)) r"
  obtain hs where "list_all cors_header hs" "CorsRouter R ''GET'' ?next r = hs @ ?next r"
    using rest_okD(4) [OF assms, of "''GET''" ?next r] by auto
  then show "\<exists>hs. list_all cors_header hs \<and> answer R (cors_server T H) ''GET'' ''/hello'' r =
      hs @ [stamp_header ''first'', stamp_header ''second'', greeting ''user'' H r ''welcome, '']"
    by (auto simp: greet_simps timed_at_once [OF assms] use_two [OF assms])
qed (simp_all add: greet_simps timed_at_once [OF assms] use_two [OF assms] not_found_def wildcard_notFound_def has_prefix_def)

text \<open>The request in the witnesses: its user and token, or a parse error.\<close>

definition ref_http :: "((string + string), unit) http_lib" where
  "ref_http = \<lparr>Context = (\<lambda>_. ()), RemoteAddr = (\<lambda>_. []),
     Parse = (\<lambda>r ts. case r of Inl e \<Rightarrow> Inl (Errorf e) | Inr u \<Rightarrow> Inr (map (\<lambda>_. JStr u) ts))\<rparr>"

text \<open>
  Timeouts of routes: in http/withtimeout \<^verbatim>\<open>/hello\<close>, whose handler sleeps 1.5 s under a timeout of
  1 s, answers 503 and loses the middlewares' headers, while the same sleep under \<^verbatim>\<open>/api\<close> and its 5 s
  answers in full; a request that does not parse gets its 400 on both. In http/timeout the slow route
  has 5 s for its 4 s and answers 200, while the fast route, under the configuration's default of 3 s,
  answers 503.
\<close>

theorem route_timeouts:
  assumes "rest_ok R"
  shows "(\<exists>body. answer R (wt_server T H) ''GET'' ''/hello'' r =
      (case user_of ''user'' H r of
         Inl err \<Rightarrow> [stamp_header ''first'', stamp_header ''second'', HttpErrorText 400 (err_text err)]
       | Inr user \<Rightarrow> [HttpErrorText 503 body])) \<and>
    answer R (wt_server T H) ''GET'' ''/api/hello'' r =
      [stamp_header ''first'', stamp_header ''second'', greeting ''user'' H r ''hello, ''] \<and>
    answer R (wt_server T H) ''GET'' ''/api/hi'' r =
      [stamp_header ''first'', stamp_header ''second'', greeting ''user'' H r ''hi, ''] \<and>
    answer R (timeout_server 3000 H) ''GET'' ''/slow/:name'' q =
      (case Parse H q [(PathField, ''name'', JStr [])] of Inl err \<Rightarrow> [HttpError err] | Inr _ \<Rightarrow> [HttpStatus 200]) \<and>
    (\<exists>body. answer R (timeout_server 3000 H) ''GET'' ''/fast/:name'' q =
      (case Parse H q [(PathField, ''name'', JStr [])] of Inl err \<Rightarrow> [HttpError err] | Inr _ \<Rightarrow> [HttpErrorText 503 body]))"
  apply (intro conjI)
      subgoal
        using timed_out [OF assms, of 1000 "UseChain R [wt_first, wt_second] (wt_handleHomeHello H)" r]
        by (cases "user_of ''user'' H r")
          (simp_all add: use_two [OF assms] greet_simps timed_at_once [OF assms] wt_handleHomeHello_def)
     subgoal
       by (cases "user_of ''user'' H r")
         (simp_all add: use_two [OF assms] greet_simps timed_in_time [OF assms] wt_handleApiHello_def greeting_def)
    subgoal
      by (simp add: use_two [OF assms] greet_simps timed_at_once [OF assms])
   subgoal
     by (cases "Parse H q [(PathField, ''name'', JStr [])]")
       (simp_all add: rest_okD(1) [OF assms] route_simps timeout_server_def timeout_routes_def timed_in_time [OF assms] SlowHandler_def Slow_def)
  subgoal
    using timed_out [OF assms, of 3000 "FastHandler H" q]
    by (cases "Parse H q [(PathField, ''name'', JStr [])]")
      (simp_all add: rest_okD(1) [OF assms] route_simps timeout_server_def timeout_routes_def timed_at_once [OF assms] FastHandler_def Fast_def)
  done

theorem route_timeouts_witness:
  "(\<exists>body. answer ref_rest (wt_server 3000 ref_http) ''GET'' ''/hello'' (Inr ''ann'') = [HttpErrorText 503 body]) \<and>
   answer ref_rest (wt_server 3000 ref_http) ''GET'' ''/api/hello'' (Inr ''ann'') =
     [stamp_header ''first'', stamp_header ''second'', HttpJsonStr ''hello, ann''] \<and>
   answer ref_rest (timeout_server 3000 ref_http) ''GET'' ''/slow/:name'' (Inr ''ann'') = [HttpStatus 200]"
  using route_timeouts [OF ref_rest_ok, of 3000 ref_http "Inr ''ann''" "Inr ''ann''"]
  by (simp add: greeting_def user_of_def ref_http_def)

text \<open>Words as signed integers, away from the bounds.\<close>

lemma sint_of_small:
  assumes "0 \<le> x" "x < 2 ^ 63"
  shows "sint (word_of_int x :: 64 word) = x"
proof -
  have "signed_take_bit 63 x = x"
    using assms by (intro signed_take_bit_int_eq_self) auto
  then show ?thesis by (simp add: sint_sbintrunc')
qed

lemma sint_add_small:
  fixes x y :: "64 word"
  assumes "0 \<le> sint x" "0 \<le> sint y" "sint x + sint y < 2 ^ 63"
  shows "sint (x + y) = sint x + sint y"
proof -
  have "x + y = word_of_int (sint x + sint y)" by (simp only: of_int_add of_int_sint scast_id)
  also have "sint \<dots> = sint x + sint y" by (rule sint_of_small) (use assms in auto)
  finally show ?thesis .
qed

lemma sint_div2:
  fixes x :: "64 word"
  assumes "0 \<le> sint x"
  shows "sint (div2 x) = sint x div 2"
proof -
  have "sint x div 2 \<le> sint x" "sint x < 2 ^ 63"
    using assms sint_lt [of x] by auto
  then have "sint x div 2 < 2 ^ 63" by linarith
  with assms sint_of_small [of "sint x div 2"] show ?thesis by (simp add: div2_def)
qed

text \<open>Signing and checking by comparing the claims themselves; it meets the contract.\<close>

definition ref_accepts :: "string \<Rightarrow> string \<Rightarrow> int \<Rightarrow> bool" where
  "ref_accepts k t now = (case from_nat (length t) of (e, i, k') \<Rightarrow> k = k' \<and> i \<le> now \<and> now < (e :: int))"

definition ref_bearer :: "string + string \<Rightarrow> string" where
  "ref_bearer q = (case q of Inr u \<Rightarrow> u | Inl e \<Rightarrow> [])"

definition ref_jwt :: "(string + string) jwt_lib" where
  "ref_jwt = \<lparr>SignedString = (\<lambda>cl k. Inr (case (cl ''exp'', cl ''iat'') of
       (Some (JInt e), Some (JInt i)) \<Rightarrow> replicate (to_nat (sint e, sint i, k)) (CHR ''1'') | _ \<Rightarrow> [])),
     Accepts = ref_accepts,
     WithJwt = (\<lambda>k. if length k < 8 then Inl (Panicked (PanicValue ''secret's length can't be less than 8''))
       else Inr (\<lambda>now h q. if ref_accepts k (ref_bearer q) (sint now) then h q else at_once [HttpStatus 401]))\<rparr>"

lemma ref_jwt_ok: "jwt_ok ref_jwt ref_bearer"
  by (simp add: jwt_ok_def ref_jwt_def ref_accepts_def)

lemma GenToken_ok:
  assumes "jwt_ok X bearer" "0 < sint now" "0 \<le> sint e" "sint now + sint e < 2 ^ 53"
  obtains t where "GenToken X now k Map.empty e = Inr t"
    and "\<And>n. sint now \<le> n \<Longrightarrow> n < sint now + sint e \<Longrightarrow> Accepts X k t n"
    and "\<And>n. sint now + sint e < n \<Longrightarrow> \<not> Accepts X k t n"
proof -
  let ?cl = "[''exp'' \<mapsto> JInt (now + e), ''iat'' \<mapsto> JInt now]"
  have s: "sint (now + e) = sint now + sint e"
    using assms(2-4) by (intro sint_add_small) auto
  have d: "dom ?cl = {''exp'', ''iat''} \<and> ?cl ''exp'' = Some (JInt (now + e)) \<and> ?cl ''iat'' = Some (JInt now)"
    by auto
  have b: "sint now < 2 ^ 53 \<and> 0 < sint (now + e) \<and> sint (now + e) < 2 ^ 53"
    using assms(2-4) s by auto
  obtain t where "SignedString X ?cl k = Inr t"
    "\<forall>n. sint now \<le> n \<and> n < sint (now + e) \<longrightarrow> Accepts X k t n" "\<forall>n. sint (now + e) < n \<longrightarrow> \<not> Accepts X k t n"
    using jwt_okD(1) [OF assms(1), of ?cl "now + e" now k] d b assms(2) by auto
  with s that show thesis by (auto simp: GenToken_def)
qed

text \<open>
  C36. A token from \<^verbatim>\<open>/user/token\<close> opens \<^verbatim>\<open>/user/info\<close> for exactly the configured time. With a secret of fewer than eight bytes the server
  does not start; with any other, the one that the repository's configuration has included, the answer
  gives the token's expiry as the time of issue plus \<^verbatim>\<open>AccessExpire\<close> with a refresh time between the two; a
  request with it that parses gets the user's name from the moment of issue until before that expiry, and
  401, whatever it asks, after it.
\<close>

theorem jwt_session:
  assumes "rest_ok R" "jwt_ok X bearer" "Parse H q [] = Inr vs"
    and "0 < sint now" "0 \<le> sint (AccessExpire c)" "sint now + sint (AccessExpire c) < 2 ^ 53"
  shows "(length (AccessSecret c) < 8 \<longrightarrow> (\<exists>v. jwt_server T X c H = Inl (Panicked v))) \<and>
    (8 \<le> length (AccessSecret c) \<longrightarrow> (\<exists>S tok expire refresh. jwt_server T X c H = Inr S \<and>
      answer R (S now) ''POST'' ''/user/token'' q =
        [HttpJson 200 [(''access_token'', False, JStr tok), (''access_expire'', False, JInt expire),
           (''refresh_after'', False, JInt refresh)]] \<and>
      sint expire = sint now + sint (AccessExpire c) \<and>
      sint refresh = sint now + sint (AccessExpire c) div 2 \<and>
      (\<forall>later q'. bearer q' = tok \<longrightarrow>
         (sint now \<le> sint later \<and> sint later < sint expire \<and> is_ok (Parse H q' [(JsonField, ''userId'', JStr [])]) \<longrightarrow>
            answer R (S later) ''POST'' ''/user/info'' q' = [HttpJson 200 [(''name'', False, JStr ''frank_test'')]]) \<and>
         (sint expire < sint later \<longrightarrow> answer R (S later) ''POST'' ''/user/info'' q' = [HttpStatus 401]))))"
proof (intro conjI impI)
  assume "length (AccessSecret c) < 8"
  then show "\<exists>v. jwt_server T X c H = Inl (Panicked v)"
    using jwt_okD(2) [OF assms(2), of "AccessSecret c"] by (auto simp: jwt_server_def jwt_routes_def)
next
  assume "8 \<le> length (AccessSecret c)"
  from jwt_okD(3) [OF assms(2) this] obtain au where au: "WithJwt X (AccessSecret c) = Inr au"
    "\<And>now h q. au now h q = (if Accepts X (AccessSecret c) (bearer q) (sint now) then h q else at_once [HttpStatus 401])" by blast
  define S where "S = (\<lambda>now. \<lparr>hs_use = [], hs_routes = [post ''/user/token'' (JwtHandler X c H now)] @ [post ''/user/info'' (au now (GetUserHandler H))],
    hs_notFound = not_found, hs_timeout = T, hs_cors = False\<rparr>)"
  have S: "jwt_server T X c H = Inr S" by (simp add: jwt_server_def jwt_routes_def au(1) S_def)
  obtain t where t: "GenToken X now (AccessSecret c) Map.empty (AccessExpire c) = Inr t"
    and acc: "\<And>n. sint now \<le> n \<Longrightarrow> n < sint now + sint (AccessExpire c) \<Longrightarrow> Accepts X (AccessSecret c) t n"
    and rej: "\<And>n. sint now + sint (AccessExpire c) < n \<Longrightarrow> \<not> Accepts X (AccessSecret c) t n"
    using GenToken_ok [OF assms(2,4-6)] by blast
  have e: "sint (now + AccessExpire c) = sint now + sint (AccessExpire c)"
    using assms(4-6) by (intro sint_add_small) auto
  have f: "sint (now + div2 (AccessExpire c)) = sint now + sint (AccessExpire c) div 2"
    using assms(4-6) sint_div2 [of "AccessExpire c"] by (subst sint_add_small) auto
  have issue: "Jwt X c now = Inr \<lparr>jr_AccessToken = t, jr_AccessExpire = now + AccessExpire c,
      jr_RefreshAfter = now + div2 (AccessExpire c)\<rparr>"
    using t by (simp add: Jwt_def Let_def)
  have info: "answer R (S later) ''POST'' ''/user/info'' q' =
      (if Accepts X (AccessSecret c) (bearer q') (sint later)
       then (case Parse H q' [(JsonField, ''userId'', JStr [])] of
          Inl err \<Rightarrow> [HttpError err] | Inr _ \<Rightarrow> [HttpJson 200 [(''name'', False, JStr ''frank_test'')]])
       else [HttpStatus 401])" for later q'
    by (cases "Parse H q' [(JsonField, ''userId'', JStr [])]")
      (simp_all add: route_simps S_def rest_okD(1) [OF assms(1)] timed_at_once [OF assms(1)] au(2) GetUserHandler_def GetUser_def)
  have tokens: "answer R (S now) ''POST'' ''/user/token'' q =
      [HttpJson 200 [(''access_token'', False, JStr t), (''access_expire'', False, JInt (now + AccessExpire c)),
         (''refresh_after'', False, JInt (now + div2 (AccessExpire c)))]]"
    using issue assms(3)
    by (simp add: route_simps S_def rest_okD(1) [OF assms(1)] timed_at_once [OF assms(1)] JwtHandler_def)
  show "\<exists>S tok expire refresh. jwt_server T X c H = Inr S \<and>
      answer R (S now) ''POST'' ''/user/token'' q =
        [HttpJson 200 [(''access_token'', False, JStr tok), (''access_expire'', False, JInt expire),
           (''refresh_after'', False, JInt refresh)]] \<and>
      sint expire = sint now + sint (AccessExpire c) \<and>
      sint refresh = sint now + sint (AccessExpire c) div 2 \<and>
      (\<forall>later q'. bearer q' = tok \<longrightarrow>
         (sint now \<le> sint later \<and> sint later < sint expire \<and> is_ok (Parse H q' [(JsonField, ''userId'', JStr [])]) \<longrightarrow>
            answer R (S later) ''POST'' ''/user/info'' q' = [HttpJson 200 [(''name'', False, JStr ''frank_test'')]]) \<and>
         (sint expire < sint later \<longrightarrow> answer R (S later) ''POST'' ''/user/info'' q' = [HttpStatus 401]))"
    by (rule exI [of _ S], rule exI [of _ t], rule exI [of _ "now + AccessExpire c"], rule exI [of _ "now + div2 (AccessExpire c)"],
        intro conjI S tokens e f) (use e acc rej in \<open>auto simp: info\<close>)
qed

text \<open>The configuration of the repository.\<close>

definition jwt_api_yaml :: jwt_config where
  "jwt_api_yaml = \<lparr>AccessSecret = ''xxxxxxxxxxxxxxxxxxxxxxxxxxxxx'', AccessExpire = 604800\<rparr>"

theorem jwt_session_witness:
  "\<exists>S tok expire refresh. jwt_server 0 ref_jwt jwt_api_yaml ref_http = Inr S \<and>
    answer ref_rest (S 1000) ''POST'' ''/user/token'' (Inr []) =
      [HttpJson 200 [(''access_token'', False, JStr tok), (''access_expire'', False, JInt expire),
         (''refresh_after'', False, JInt refresh)]] \<and>
    sint expire = 605800 \<and> sint refresh = 303400 \<and>
    answer ref_rest (S 2000) ''POST'' ''/user/info'' (Inr tok) = [HttpJson 200 [(''name'', False, JStr ''frank_test'')]] \<and>
    answer ref_rest (S 700000) ''POST'' ''/user/info'' (Inr tok) = [HttpStatus 401]"
proof -
  have p: "Parse ref_http (Inr u) ts = Inr (map (\<lambda>_. JStr u) ts)" for u ts
    by (simp add: ref_http_def)
  have c: "AccessExpire jwt_api_yaml = 604800" "8 \<le> length (AccessSecret jwt_api_yaml)" by (simp_all add: jwt_api_yaml_def)
  obtain S tok expire refresh where s: "jwt_server 0 ref_jwt jwt_api_yaml ref_http = Inr S"
    and i: "answer ref_rest (S 1000) ''POST'' ''/user/token'' (Inr []) =
      [HttpJson 200 [(''access_token'', False, JStr tok), (''access_expire'', False, JInt expire),
         (''refresh_after'', False, JInt refresh)]]"
    and x: "sint expire = 605800" "sint refresh = 303400"
    and u: "\<And>later q'. ref_bearer q' = tok \<Longrightarrow> sint (1000 :: 64 word) \<le> sint later \<and> sint later < sint expire \<and>
        is_ok (Parse ref_http q' [(JsonField, ''userId'', JStr [])]) \<Longrightarrow>
      answer ref_rest (S later) ''POST'' ''/user/info'' q' = [HttpJson 200 [(''name'', False, JStr ''frank_test'')]]"
    and v: "\<And>later q'. ref_bearer q' = tok \<Longrightarrow> sint expire < sint later \<Longrightarrow>
      answer ref_rest (S later) ''POST'' ''/user/info'' q' = [HttpStatus 401]"
    using jwt_session [OF ref_rest_ok ref_jwt_ok p [of "[]" "[]"], of 1000 jwt_api_yaml 0] c by auto
  show ?thesis
    by (intro exI conjI, rule s, rule i, rule x, rule x, rule u, simp add: ref_bearer_def, use x in \<open>simp add: p\<close>,
        rule v, simp add: ref_bearer_def, use x in simp)
qed

end
