(* ===== verification/Word_Vectors.thy ===== *)
theory Word_Vectors
  imports Go_Prelude "HOL-Library.Multiset"
begin

text \<open>
  The parallel loader of word vectors (\<^verbatim>\<open>filex/pread.go\<close>): the header's two numbers, the rows of each
  chunk of the file, and the dictionary collected from all chunks. Floating-point numbers are a type
  parameter \<open>'v\<close> with \<^verbatim>\<open>strconv.ParseFloat\<close> as a function argument; \<^verbatim>\<open>filex\<close> and the stream library \<^verbatim>\<open>fx\<close>
  are parameters with contracts; the progress bar is left out.

  The locale \<open>chunked\<close> is the interface of a function on texts that may be computed chunk by chunk.
\<close>

section \<open>Integers\<close>

text \<open>\<^verbatim>\<open>strconv.ParseUint(s, 10, 64)\<close> and \<^verbatim>\<open>strconv.ParseInt(s, 10, 64)\<close>: value and error.\<close>

definition ErrSyntax :: go_error where "ErrSyntax = Sentinel ''strconv.ErrSyntax''"
definition ErrRange :: go_error where "ErrRange = Sentinel ''strconv.ErrRange''"

definition digit_val :: "char \<Rightarrow> nat option" where
  "digit_val c = (if 48 \<le> (of_char c :: nat) \<and> (of_char c :: nat) \<le> 57 then Some (of_char c - 48) else None)"

fun parse_uint :: "nat \<Rightarrow> string \<Rightarrow> nat \<times> go_error option" where
  "parse_uint n [] = (n, None)"
| "parse_uint n (c # cs) =
     (case digit_val c of
        None \<Rightarrow> (0, Some ErrSyntax)
      | Some d \<Rightarrow>
          if 2 ^ 64 div 10 + 1 \<le> n then (2 ^ 64 - 1, Some ErrRange)
          else let n = n * 10 + d in if 2 ^ 64 - 1 < n then (2 ^ 64 - 1, Some ErrRange) else parse_uint n cs)"

definition ParseInt :: "string \<Rightarrow> 64 word \<times> go_error option" where
  "ParseInt s =
     (if s = [] then (0, Some ErrSyntax)
      else let neg = (hd s = CHR ''-''); t = (if hd s = CHR ''+'' \<or> hd s = CHR ''-'' then tl s else s)
        in if t = [] then (0, Some ErrSyntax)
           else case parse_uint 0 t of
             (un, err) \<Rightarrow>
               if err \<noteq> None \<and> err \<noteq> Some ErrRange then (0, err)
               else if \<not> neg \<and> 2 ^ 63 \<le> un then (2 ^ 63 - 1, Some ErrRange)
               else if neg \<and> 2 ^ 63 < un then (word_of_int (- (2 ^ 63)), Some ErrRange)
               else (if neg then - of_nat un else of_nat un, None))"

section \<open>Lines\<close>

text \<open>\<^verbatim>\<open>bufio.ScanLines\<close> with the buffer limit of the program; a longer line ends the scan.\<close>

definition raw_lines :: "string \<Rightarrow> string list" where
  "raw_lines s = (let ls = split_on newline_char s in if last ls = [] then butlast ls else ls)"

definition drop_cr :: "string \<Rightarrow> string" where
  "drop_cr l = (if l \<noteq> [] \<and> last l = CHR 0x0D then butlast l else l)"

definition maxTokenSize :: nat where
  "maxTokenSize = 2 ^ 20"

definition scan_lines :: "string \<Rightarrow> string list" where
  "scan_lines s = map drop_cr (takeWhile (\<lambda>l. length l < maxTokenSize) (raw_lines s))"

section \<open>The loader\<close>

record 'v TXDictionary =
  EmbeddingCount :: "64 word"
  Dim :: "64 word"
  Dict :: "string \<rightharpoonup> 'v list"

datatype 'v row = Filled "'v list" | FloatError | RowPanic go_panic

text \<open>The loop over a row's elements after the first, writing into the vector.\<close>

fun fill_vec :: "(string \<Rightarrow> 'v result) \<Rightarrow> nat \<Rightarrow> string list \<Rightarrow> 'v list \<Rightarrow> 'v row" where
  "fill_vec ParseFloat i [] vec = Filled vec"
| "fill_vec ParseFloat i (ele # es) vec =
     (case ParseFloat ele of
        Inl err \<Rightarrow> FloatError
      | Inr v \<Rightarrow> if i < length vec then fill_vec ParseFloat (Suc i) es (vec[i := v]) else RowPanic IndexOutOfRange)"

text \<open>\<^verbatim>\<open>make\<close> panics for a negative length and for more numbers of eight bytes than an address space of 48 bits has room for.\<close>

definition vec_len :: "64 word \<Rightarrow> bool" where
  "vec_len dim \<longleftrightarrow> 0 \<le> sint dim \<and> sint dim \<le> 2 ^ 45"

definition read_row :: "(string \<Rightarrow> 'v result) \<Rightarrow> 'v \<Rightarrow> 64 word \<Rightarrow> string \<Rightarrow> string \<times> 'v row" where
  "read_row ParseFloat zero dim line =
     (let elements = split_on space_char line
      in (hd elements,
          if \<not> vec_len dim then RowPanic (PanicValue ''makeslice: len out of range'')
          else fill_vec ParseFloat 0 (tl elements) (replicate (nat (sint dim)) zero)))"

text \<open>The function given to \<^verbatim>\<open>Walk\<close>: what it sends to the pipe before it returns or panics.\<close>

fun walk_rows :: "(string \<Rightarrow> 'v result) \<Rightarrow> 'v \<Rightarrow> 64 word \<Rightarrow> string list \<Rightarrow> (string \<times> 'v list) list" where
  "walk_rows ParseFloat zero dim [] = []"
| "walk_rows ParseFloat zero dim (text # rest) =
     (case read_row ParseFloat zero dim text of
        (key, Filled vec) \<Rightarrow> (key, vec) # walk_rows ParseFloat zero dim rest
      | _ \<Rightarrow> [])"

definition walk_chunk ::
  "(string \<Rightarrow> 'v result) \<Rightarrow> 'v \<Rightarrow> 64 word \<Rightarrow> string \<Rightarrow> nat \<times> nat \<Rightarrow> (string \<times> 'v list) list" where
  "walk_chunk ParseFloat zero dim data = (\<lambda>(start, stop).
     let ls = scan_lines (take (stop - start) (drop start data))
     in walk_rows ParseFloat zero dim (if start = 0 then tl ls else ls))"

text \<open>
  The libraries: the file's content or the error opening it, its first line, its split into ranges, its
  size, and the order in which the stream hands the chunks' items to the collecting function.
\<close>

record 'v filex_lib =
  os_Open :: "string \<Rightarrow> string result"
  FirstLine :: "string \<Rightarrow> string result"
  SplitLineChunks :: "string \<Rightarrow> (nat \<times> nat) list result"
  os_Stat :: "string \<Rightarrow> nat result"
  fx_deliver :: "(string \<times> 'v list) list list \<Rightarrow> (string \<times> 'v list) list"

definition collect :: "(string \<times> 'v list) list \<Rightarrow> (string \<rightharpoonup> 'v list) \<Rightarrow> (string \<rightharpoonup> 'v list)" where
  "collect = fold (\<lambda>(key, vec) d. d(key \<mapsto> vec))"

definition FastLoad ::
  "'v filex_lib \<Rightarrow> (string \<Rightarrow> 'v result) \<Rightarrow> 'v \<Rightarrow> string \<Rightarrow> 'v TXDictionary \<Rightarrow> 'v TXDictionary \<times> unit result" where
  "FastLoad L ParseFloat zero filename dic =
     (if filename = [] then (dic, Inl (Errorf ''no available dictionary''))
      else case os_Open L filename of
        Inl err \<Rightarrow> (dic, Inl err)
      | Inr data \<Rightarrow>
          case FirstLine L filename of
            Inl err \<Rightarrow> (dic, Inl err)
          | Inr header \<Rightarrow>
              let total = split_on space_char header;
                  (n, err) = ParseInt (total ! 0); dic = dic\<lparr>EmbeddingCount := n\<rparr>
              in case err of
                Some e \<Rightarrow> (dic, Inl e)
              | None \<Rightarrow>
                  if length total < 2 then (dic, Inl (Panicked IndexOutOfRange))
                  else
                    let (n, err) = ParseInt (total ! 1); dic = dic\<lparr>Dim := n\<rparr>
                    in case err of
                      Some e \<Rightarrow> (dic, Inl e)
                    | None \<Rightarrow>
                        let dic = dic\<lparr>Dict := Map.empty\<rparr>
                        in case SplitLineChunks L filename of
                          Inl err \<Rightarrow> (dic, Inl err)
                        | Inr ranges \<Rightarrow>
                            case os_Stat L filename of
                              Inl err \<Rightarrow> (dic, Inl err)
                            | Inr info \<Rightarrow>
                                let items = fx_deliver L (map (walk_chunk ParseFloat zero (Dim dic) data) ranges)
                                in (dic\<lparr>Dict := collect items (Dict dic)\<rparr>, Inr ()))"

text \<open>
  The main function: \<^verbatim>\<open>log.Fatal\<close> on an error, otherwise the number of words and the time it took. A panic of
  \<^verbatim>\<open>FastLoad\<close> is the process's.
\<close>

datatype load_end = LoadPrints "string list" | LoadFatal string | LoadCrash go_panic

definition pread_main ::
  "'v filex_lib \<Rightarrow> (string \<Rightarrow> 'v result) \<Rightarrow> 'v \<Rightarrow> string \<Rightarrow> string \<Rightarrow> load_end" where
  "pread_main L ParseFloat zero file elapsed =
     (case FastLoad L ParseFloat zero file \<lparr>EmbeddingCount = 0, Dim = 0, Dict = Map.empty\<rparr> of
        (dic, Inl (Panicked p)) \<Rightarrow> LoadCrash p
      | (dic, Inl err) \<Rightarrow> LoadFatal (err_text err)
      | (dic, Inr _) \<Rightarrow> LoadPrints [nat_digits (card (dom (Dict dic))), elapsed])"

text \<open>
  What the libraries promise for a readable file: the first line, ranges that cover the file one after
  the other and end with a newline except for the last, and a stream that delivers every item once.
\<close>

fun ranges_ok :: "string \<Rightarrow> nat \<Rightarrow> (nat \<times> nat) list \<Rightarrow> bool" where
  "ranges_ok data at [] \<longleftrightarrow> at = length data"
| "ranges_ok data at ((start, stop) # rs) \<longleftrightarrow> start = at \<and> start < stop \<and> stop \<le> length data \<and>
     (rs \<noteq> [] \<longrightarrow> data ! (stop - 1) = newline_char) \<and> ranges_ok data stop rs"

definition filex_ok :: "'v filex_lib \<Rightarrow> string \<Rightarrow> string \<Rightarrow> bool" where
  "filex_ok L filename data \<longleftrightarrow> os_Open L filename = Inr data \<and>
     FirstLine L filename = Inr (takeWhile (\<lambda>c. c \<noteq> newline_char) data) \<and>
     (\<exists>rs. SplitLineChunks L filename = Inr rs \<and> ranges_ok data 0 rs) \<and>
     os_Stat L filename = Inr (length data) \<and> (\<forall>xss. mset (fx_deliver L xss) = mset (concat xss))"

section \<open>Computing by chunks\<close>

locale chunked =
  fixes f :: "string \<Rightarrow> 'b list"
  assumes chunk_law: "f (a @ newline_char # b) = f (a @ [newline_char]) @ f b"
    and empty_law: "f [] = []"
begin

text \<open>The pieces between valid ranges give the whole.\<close>

lemma chunks_concat:
  "ranges_ok data at rs \<Longrightarrow>
     concat (map (\<lambda>(start, stop). f (take (stop - start) (drop start data))) rs) = f (drop at data)"
proof (induction data at rs rule: ranges_ok.induct)
  case (1 data at)
  then show ?case by (simp add: empty_law)
next
  case (2 data at start stop rs)
  let ?c = "take (stop - start) (drop start data)"
  have "drop start data = ?c @ drop (stop - start) (drop start data)" by (simp only: append_take_drop_id)
  then have d: "drop at data = ?c @ drop stop data" using 2(2) by simp
  show ?case
  proof (cases rs)
    case Nil
    with 2(2) d show ?thesis by simp
  next
    case (Cons r rs')
    have "?c \<noteq> []" "last ?c = newline_char"
      using 2(2) Cons by (auto simp: last_conv_nth)
    then obtain a where a: "?c = a @ [newline_char]" by (metis append_butlast_last_id)
    have "f (drop at data) = f ?c @ f (drop stop data)"
      using chunk_law [of a "drop stop data"] by (simp add: d a)
    with 2 show ?thesis by simp
  qed
qed

end

lemma split_on_append: "split_on c (s @ c # t) = split_on c s @ split_on c t"
  by (induction s) (auto split: list.splits)

interpretation lines: chunked raw_lines
  by unfold_locales (simp_all add: raw_lines_def split_on_append Let_def butlast_append)

section \<open>Well-formed files\<close>

text \<open>A row: its key and its numbers, at most \<open>dim\<close> of them; the vector is filled up with zeros.\<close>

definition row_ok :: "(string \<Rightarrow> 'v result) \<Rightarrow> nat \<Rightarrow> string \<Rightarrow> bool" where
  "row_ok ParseFloat dim line \<longleftrightarrow>
     (let es = tl (split_on space_char (drop_cr line))
      in length es \<le> dim \<and> list_all (\<lambda>e. is_ok (ParseFloat e)) es)"

definition row_pair :: "(string \<Rightarrow> 'v result) \<Rightarrow> 'v \<Rightarrow> nat \<Rightarrow> string \<Rightarrow> string \<times> 'v list" where
  "row_pair ParseFloat zero dim line =
     (let es = split_on space_char (drop_cr line); vs = map (\<lambda>e. projr (ParseFloat e)) (tl es)
      in (hd es, vs @ replicate (dim - length vs) zero))"

lemma fill_vec_ok:
  assumes "list_all (\<lambda>e. is_ok (ParseFloat e)) es" "i + length es \<le> length vec"
  shows "fill_vec ParseFloat i es vec =
    Filled (take i vec @ map (\<lambda>e. projr (ParseFloat e)) es @ drop (i + length es) vec)"
  using assms
proof (induction es arbitrary: i vec)
  case (Cons e es)
  then obtain v where "ParseFloat e = Inr v" by auto
  with Cons show ?case by (simp add: take_Suc_conv_app_nth)
qed simp

lemma read_row_ok:
  assumes "row_ok ParseFloat (nat (sint dim)) line" "vec_len dim"
  shows "read_row ParseFloat zero dim (drop_cr line) =
    (fst (row_pair ParseFloat zero (nat (sint dim)) line), Filled (snd (row_pair ParseFloat zero (nat (sint dim)) line)))"
  using assms by (simp add: read_row_def row_ok_def row_pair_def Let_def fill_vec_ok)

lemma walk_rows_ok:
  assumes "vec_len dim"
  shows "list_all (row_ok ParseFloat (nat (sint dim))) ls \<Longrightarrow>
    walk_rows ParseFloat zero dim (map drop_cr ls) = map (row_pair ParseFloat zero (nat (sint dim))) ls"
  by (induction ls) (simp_all add: read_row_ok [OF _ assms])

text \<open>With distinct keys the order of the items does not matter.\<close>

lemma collect_map_of: "collect xs m = m ++ map_of (rev xs)"
  by (induction xs arbitrary: m) (auto simp: collect_def map_add_def fun_eq_iff split: option.splits)

lemma collect_perm:
  assumes "mset xs = mset ys" "distinct (map fst ys)"
  shows "collect xs Map.empty = map_of ys"
proof -
  have "mset (map fst (rev xs)) = mset (map fst ys)" using assms(1) by (metis mset_map mset_rev)
  then have "distinct (map fst (rev xs))" using assms(2) mset_eq_imp_distinct_iff by blast
  moreover have "set (rev xs) = set ys" using assms(1) by (metis mset_eq_setD set_rev)
  ultimately show ?thesis using assms(2) by (simp add: collect_map_of map_of_inject_set)
qed

lemma raw_lines_header: "data \<noteq> [] \<Longrightarrow> raw_lines data \<noteq> [] \<and> hd (raw_lines data) = takeWhile (\<lambda>c. c \<noteq> newline_char) data"
proof -
  assume d: "data \<noteq> []"
  have h: "hd (split_on newline_char data) = takeWhile (\<lambda>c. c \<noteq> newline_char) data"
    by (induction data) (auto split: list.splits)
  have "split_on newline_char data = [[]] \<Longrightarrow> data = []" by (cases data) (auto split: if_splits list.splits)
  with d have n: "raw_lines data \<noteq> []"
    by (cases "split_on newline_char data") (auto simp: raw_lines_def Let_def butlast_conv_take split: if_splits)
  with h show ?thesis
    by (cases "split_on newline_char data") (auto simp: raw_lines_def Let_def split: if_splits)
qed

text \<open>The chunks together give every line after the header once.\<close>

lemma ranges_ok_bounds: "ranges_ok data at rs \<Longrightarrow> (a, b) \<in> set rs \<Longrightarrow> at \<le> a \<and> a < b \<and> b \<le> length data"
  by (induction data at rs rule: ranges_ok.induct) auto

lemma walk_chunk_ok:
  assumes "vec_len dim" "L = raw_lines (take (stop - start) (drop start data))"
    and "list_all (\<lambda>l. length l < maxTokenSize) L"
    and "list_all (row_ok ParseFloat (nat (sint dim))) (if start = 0 then tl L else L)"
  shows "walk_chunk ParseFloat zero dim data (start, stop) =
    map (row_pair ParseFloat zero (nat (sint dim))) (if start = 0 then tl L else L)"
proof -
  have "takeWhile (\<lambda>l. length l < maxTokenSize) L = L" using assms(3) by (simp add: list_all_iff)
  then have "scan_lines (take (stop - start) (drop start data)) = map drop_cr L"
    by (simp only: scan_lines_def assms(2) [symmetric])
  then show ?thesis
    using walk_rows_ok [OF assms(1,4), of zero] by (simp add: walk_chunk_def map_tl split: if_splits)
qed

lemma walk_chunks_ok:
  assumes "ranges_ok data 0 rs" "data \<noteq> []" "vec_len dim"
    and "list_all (\<lambda>l. length l < maxTokenSize) (raw_lines data)"
    and "list_all (row_ok ParseFloat (nat (sint dim))) (tl (raw_lines data))"
  shows "concat (map (walk_chunk ParseFloat zero dim data) rs) =
    map (row_pair ParseFloat zero (nat (sint dim))) (tl (raw_lines data))"
proof -
  define R where "R = (\<lambda>(start, stop). raw_lines (take (stop - start) (drop start data)))"
  obtain stop rs' where rs: "rs = (0, stop) # rs'" "0 < stop"
    using assms(1,2) by (cases rs) auto
  have raw: "raw_lines data = R (0, stop) @ concat (map R rs')"
    using lines.chunks_concat [OF assms(1)] rs by (simp add: R_def)
  have "R (0, stop) \<noteq> []"
    using raw_lines_header [of "take stop data"] assms(2) rs(2) by (simp add: R_def)
  then have tl: "tl (raw_lines data) = tl (R (0, stop)) @ concat (map R rs')" by (simp add: raw)
  have h: "walk_chunk ParseFloat zero dim data (0, stop) = map (row_pair ParseFloat zero (nat (sint dim))) (tl (R (0, stop)))"
    using walk_chunk_ok [OF assms(3) refl, of stop 0 data ParseFloat zero] assms(4,5) tl
    by (simp add: R_def raw)
  have "walk_chunk ParseFloat zero dim data r = map (row_pair ParseFloat zero (nat (sint dim))) (R r)" if r: "r \<in> set rs'" for r
  proof -
    obtain a b where ab: "r = (a, b)" by (cases r) auto
    have "stop \<le> a" using ranges_ok_bounds [of data stop rs' a b] assms(1) rs r ab by simp
    moreover have "list_all (\<lambda>l. length l < maxTokenSize) (R r)" "list_all (row_ok ParseFloat (nat (sint dim))) (R r)"
      using assms(4) assms(5) [unfolded tl] r by (auto simp: list_all_iff raw)
    ultimately show ?thesis
      using walk_chunk_ok [OF assms(3) refl, of b a data ParseFloat zero] rs(2) by (simp add: ab R_def)
  qed
  then have "map (walk_chunk ParseFloat zero dim data) rs' = map (\<lambda>r. map (row_pair ParseFloat zero (nat (sint dim))) (R r)) rs'"
    by (intro map_cong refl)
  then have "concat (map (walk_chunk ParseFloat zero dim data) rs') = map (row_pair ParseFloat zero (nat (sint dim))) (concat (map R rs'))"
    by (simp only: map_concat map_map comp_def)
  then show ?thesis by (simp add: rs(1) h tl)
qed

text \<open>
  C39. The parallel load is the sequential one: for a file whose header gives two numbers, the second a length that \<^verbatim>\<open>make\<close> takes, and whose
  rows are well formed (shorter than the scanner's limit, at most \<^verbatim>\<open>Dim\<close> readable numbers each, distinct
  keys), \<^verbatim>\<open>FastLoad\<close> succeeds and its dictionary maps each row's key to the row's numbers, filled up with
  zeros, however the file is split into chunks and in whatever order the goroutines deliver; the program
  prints the number of rows.
\<close>

theorem fastload_sequential:
  fixes zero :: 'v
  assumes "filex_ok L filename data" "filename \<noteq> []" "data \<noteq> []"
    and "split_on space_char (hd (raw_lines data)) = c # d # extra" "ParseInt c = (n, None)" "ParseInt d = (dim, None)"
    and "vec_len dim" "list_all (\<lambda>l. length l < maxTokenSize) (raw_lines data)"
    and "list_all (row_ok ParseFloat (nat (sint dim))) (tl (raw_lines data))"
    and "distinct (map (fst \<circ> row_pair ParseFloat zero (nat (sint dim))) (tl (raw_lines data)))"
  shows "FastLoad L ParseFloat zero filename dic =
    (dic\<lparr>EmbeddingCount := n, Dim := dim,
       Dict := map_of (map (row_pair ParseFloat zero (nat (sint dim))) (tl (raw_lines data)))\<rparr>, Inr ()) \<and>
    pread_main L ParseFloat zero filename elapsed = LoadPrints [nat_digits (length (tl (raw_lines data))), elapsed]"
proof -
  obtain rs where rs: "SplitLineChunks L filename = Inr rs" "ranges_ok data 0 rs"
    using assms(1) by (auto simp: filex_ok_def)
  let ?items = "fx_deliver L (map (walk_chunk ParseFloat zero dim data) rs)"
  have "mset ?items = mset (map (row_pair ParseFloat zero (nat (sint dim))) (tl (raw_lines data)))"
    using assms(1) walk_chunks_ok [OF rs(2) assms(3,7,8,9), of zero] by (simp add: filex_ok_def)
  then have "collect ?items Map.empty = map_of (map (row_pair ParseFloat zero (nat (sint dim))) (tl (raw_lines data)))"
    using assms(10) by (intro collect_perm) simp_all
  moreover have "hd (raw_lines data) = takeWhile (\<lambda>c. c \<noteq> newline_char) data"
    using raw_lines_header [OF assms(3)] by simp
  ultimately have "FastLoad L ParseFloat zero filename dic = (dic\<lparr>EmbeddingCount := n, Dim := dim,
      Dict := map_of (map (row_pair ParseFloat zero (nat (sint dim))) (tl (raw_lines data)))\<rparr>, Inr ())" for dic
    using assms(1,2,4,5,6) rs(1) by (simp add: FastLoad_def filex_ok_def Let_def)
  moreover have "card (dom (map_of xs)) = length xs" if "distinct (map fst xs)" for xs :: "(string \<times> 'v list) list"
    unfolding dom_map_of_conv_image_fst using distinct_card [OF that] by simp
  from this [of "map (row_pair ParseFloat zero (nat (sint dim))) (tl (raw_lines data))"]
  have "card (dom (map_of (map (row_pair ParseFloat zero (nat (sint dim))) (tl (raw_lines data))))) = length (tl (raw_lines data))"
    using assms(10) by simp
  ultimately show ?thesis by (simp add: pread_main_def del: nat_digits.simps)
qed

text \<open>What happens to malformed input: a row with an unreadable number or with too many numbers loses itself
  and every row behind it in its chunk, and the load still succeeds; a header of one word panics.\<close>

lemma walk_rows_stop:
  assumes "list_all (row_ok ParseFloat (nat (sint dim))) ls" "vec_len dim"
    and "snd (read_row ParseFloat zero dim bad) = FloatError \<or> snd (read_row ParseFloat zero dim bad) = RowPanic e"
  shows "walk_rows ParseFloat zero dim (map drop_cr ls @ bad # rest) = map (row_pair ParseFloat zero (nat (sint dim))) ls"
  using assms(1)
proof (induction ls)
  case Nil
  then show ?case using assms(3) by (cases "read_row ParseFloat zero dim bad") auto
qed (simp add: read_row_ok [OF _ assms(2)])

lemma fastload_short_header:
  assumes "filex_ok L filename data" "filename \<noteq> []" "data \<noteq> []"
    and "split_on space_char (hd (raw_lines data)) = [c]" "ParseInt c = (n, None)"
  shows "FastLoad L ParseFloat zero filename dic = (dic\<lparr>EmbeddingCount := n\<rparr>, Inl (Panicked IndexOutOfRange))"
  using assms raw_lines_header [OF assms(3)] by (simp add: FastLoad_def filex_ok_def Let_def)

text \<open>A file with two rows in two chunks; the numbers are read as digits.\<close>

definition demo_float :: "string \<Rightarrow> nat result" where
  "demo_float s = (case parse_uint 0 s of (n, None) \<Rightarrow> Inr n | (_, Some e) \<Rightarrow> Inl e)"

definition demo_file :: string where
  "demo_file = ''2 2'' @ [newline_char] @ ''a 1 2'' @ [newline_char] @ ''b 3'' @ [newline_char]"

definition demo_filex :: "nat filex_lib" where
  "demo_filex = \<lparr>os_Open = (\<lambda>_. Inr demo_file), FirstLine = (\<lambda>_. Inr (takeWhile (\<lambda>c. c \<noteq> newline_char) demo_file)),
     SplitLineChunks = (\<lambda>_. Inr [(0, 10), (10, 14)]), os_Stat = (\<lambda>_. Inr (length demo_file)),
     fx_deliver = (\<lambda>xss. rev (concat xss))\<rparr>"

lemma demo_filex_ok: "filex_ok demo_filex ''v.txt'' demo_file"
  by (simp add: filex_ok_def demo_filex_def demo_file_def)

lemma demo_lines: "raw_lines demo_file = [''2 2'', ''a 1 2'', ''b 3'']"
  by code_simp

theorem fastload_sequential_witness:
  "Dict (fst (FastLoad demo_filex demo_float 0 ''v.txt'' \<lparr>EmbeddingCount = 0, Dim = 0, Dict = Map.empty\<rparr>)) ''b'' = Some [3, 0] \<and>
   pread_main demo_filex demo_float 0 ''v.txt'' ''1ms'' = LoadPrints [''2'', ''1ms'']"
proof -
  have p: "ParseInt ''2'' = (2, None)" by (simp add: ParseInt_def digit_val_def)
  have f: "demo_float ''1'' = Inr 1" "demo_float ''2'' = Inr 2" "demo_float ''3'' = Inr 3"
    by (simp_all add: demo_float_def digit_val_def)
  have r: "row_pair demo_float 0 2 ''a 1 2'' = (''a'', [1, 2])" "row_pair demo_float 0 2 ''b 3'' = (''b'', [3, 0])"
    by (simp_all add: row_pair_def drop_cr_def f)
  have "FastLoad demo_filex demo_float 0 ''v.txt'' dic = (dic\<lparr>EmbeddingCount := 2, Dim := 2,
      Dict := map_of (map (row_pair demo_float 0 (nat (sint (2 :: 64 word)))) (tl (raw_lines demo_file)))\<rparr>, Inr ()) \<and>
      pread_main demo_filex demo_float 0 ''v.txt'' ''1ms'' = LoadPrints [nat_digits (length (tl (raw_lines demo_file))), ''1ms'']" for dic
    by (rule fastload_sequential [OF demo_filex_ok, of "''2''" "''2''" "[]"])
      (simp_all add: demo_lines p r f row_ok_def drop_cr_def maxTokenSize_def vec_len_def, simp add: demo_file_def)
  moreover have "nat_digits (length (tl (raw_lines demo_file))) = ''2''" by code_simp
  ultimately show ?thesis by (simp add: demo_lines r)
qed

end
