(* ===== verification/Log_Writers.thy ===== *)
theory Log_Writers
  imports Go_Prelude
begin

text \<open>
  Custom log writers: the writer that mirrors to the console (\<^verbatim>\<open>logx/fileconsole\<close>), the one that hides
  passwords (\<^verbatim>\<open>logx/filterfields\<close>) and the one that pushes to a message queue (\<^verbatim>\<open>logx/tokafka\<close>). A
  \<^verbatim>\<open>logx.Writer\<close> is a record of its methods over the state they change.

  The locale \<open>recording\<close> is the interface of a writer that keeps what it is given; mirroring one
  such writer to another gives one again, on both sides.
\<close>

section \<open>Writers\<close>

text \<open>What is logged, \<^verbatim>\<open>interface{}\<close>: a \<^verbatim>\<open>Message\<close> or a value of another type.\<close>

record Message =
  Message_Name :: string
  Message_Password :: string
  Message_Message :: string

datatype 'a any_val = MessageVal Message | OtherVal 'a

type_synonym 'f fields = "(string \<times> 'f) list"

record ('a, 'f, 's) Writer =
  Alert :: "'a any_val \<Rightarrow> 's \<Rightarrow> 's"
  Close :: "'s \<Rightarrow> 's \<times> go_error option"
  Error :: "'a any_val \<Rightarrow> 'f fields \<Rightarrow> 's \<Rightarrow> 's"
  Info :: "'a any_val \<Rightarrow> 'f fields \<Rightarrow> 's \<Rightarrow> 's"
  Severe :: "'a any_val \<Rightarrow> 's \<Rightarrow> 's"
  Slow :: "'a any_val \<Rightarrow> 'f fields \<Rightarrow> 's \<Rightarrow> 's"
  Stack :: "'a any_val \<Rightarrow> 's \<Rightarrow> 's"
  Stat :: "'a any_val \<Rightarrow> 'f fields \<Rightarrow> 's \<Rightarrow> 's"

section \<open>logx/fileconsole\<close>

text \<open>The state is the console writer's and the file writer's.\<close>

definition MultiWriter_Alert ::
  "('a, 'f, 'c) Writer \<Rightarrow> ('a, 'f, 's) Writer \<Rightarrow> 'a any_val \<Rightarrow> 'c \<times> 's \<Rightarrow> 'c \<times> 's" where
  "MultiWriter_Alert consoleWriter writer v = (\<lambda>(c, f). (Alert consoleWriter v c, Alert writer v f))"

definition MultiWriter_Close ::
  "('a, 'f, 'c) Writer \<Rightarrow> ('a, 'f, 's) Writer \<Rightarrow> 'c \<times> 's \<Rightarrow> ('c \<times> 's) \<times> go_error option" where
  "MultiWriter_Close consoleWriter writer = (\<lambda>(c, f).
     let c = fst (Close consoleWriter c); (f, err) = Close writer f in ((c, f), err))"

definition MultiWriter_Error ::
  "('a, 'f, 'c) Writer \<Rightarrow> ('a, 'f, 's) Writer \<Rightarrow> 'a any_val \<Rightarrow> 'f fields \<Rightarrow> 'c \<times> 's \<Rightarrow> 'c \<times> 's" where
  "MultiWriter_Error consoleWriter writer v fds = (\<lambda>(c, f). (Error consoleWriter v fds c, Error writer v fds f))"

definition MultiWriter_Info ::
  "('a, 'f, 'c) Writer \<Rightarrow> ('a, 'f, 's) Writer \<Rightarrow> 'a any_val \<Rightarrow> 'f fields \<Rightarrow> 'c \<times> 's \<Rightarrow> 'c \<times> 's" where
  "MultiWriter_Info consoleWriter writer v fds = (\<lambda>(c, f). (Info consoleWriter v fds c, Info writer v fds f))"

definition MultiWriter_Severe ::
  "('a, 'f, 'c) Writer \<Rightarrow> ('a, 'f, 's) Writer \<Rightarrow> 'a any_val \<Rightarrow> 'c \<times> 's \<Rightarrow> 'c \<times> 's" where
  "MultiWriter_Severe consoleWriter writer v = (\<lambda>(c, f). (Severe consoleWriter v c, Severe writer v f))"

definition MultiWriter_Slow ::
  "('a, 'f, 'c) Writer \<Rightarrow> ('a, 'f, 's) Writer \<Rightarrow> 'a any_val \<Rightarrow> 'f fields \<Rightarrow> 'c \<times> 's \<Rightarrow> 'c \<times> 's" where
  "MultiWriter_Slow consoleWriter writer v fds = (\<lambda>(c, f). (Slow consoleWriter v fds c, Slow writer v fds f))"

definition MultiWriter_Stack ::
  "('a, 'f, 'c) Writer \<Rightarrow> ('a, 'f, 's) Writer \<Rightarrow> 'a any_val \<Rightarrow> 'c \<times> 's \<Rightarrow> 'c \<times> 's" where
  "MultiWriter_Stack consoleWriter writer v = (\<lambda>(c, f). (Stack consoleWriter v c, Stack writer v f))"

definition MultiWriter_Stat ::
  "('a, 'f, 'c) Writer \<Rightarrow> ('a, 'f, 's) Writer \<Rightarrow> 'a any_val \<Rightarrow> 'f fields \<Rightarrow> 'c \<times> 's \<Rightarrow> 'c \<times> 's" where
  "MultiWriter_Stat consoleWriter writer v fds = (\<lambda>(c, f). (Stat consoleWriter v fds c, Stat writer v fds f))"

text \<open>
  The console writer is the library's \<^verbatim>\<open>logx.NewWriter\<close> on a buffered standard output, an argument here. Nothing flushes that buffer: a line is on the
  terminal once 4096 bytes have come together.
\<close>

definition NewMultiWriter :: "('a, 'f, 'c) Writer \<Rightarrow> ('a, 'f, 's) Writer \<Rightarrow> ('a, 'f, 'c \<times> 's) Writer" where
  "NewMultiWriter consoleWriter writer = \<lparr>Alert = MultiWriter_Alert consoleWriter writer,
     Close = MultiWriter_Close consoleWriter writer, Error = MultiWriter_Error consoleWriter writer,
     Info = MultiWriter_Info consoleWriter writer, Severe = MultiWriter_Severe consoleWriter writer,
     Slow = MultiWriter_Slow consoleWriter writer, Stack = MultiWriter_Stack consoleWriter writer,
     Stat = MultiWriter_Stat consoleWriter writer\<rparr>"

section \<open>logx/filterfields\<close>

definition SensitiveLogger_Info :: "('a, 'f, 's) Writer \<Rightarrow> 'a any_val \<Rightarrow> 'f fields \<Rightarrow> 's \<Rightarrow> 's" where
  "SensitiveLogger_Info writer msg fds =
     (case msg of
        MessageVal m \<Rightarrow> Info writer (MessageVal \<lparr>Message_Name = Message_Name m, Message_Password = ''******'',
          Message_Message = Message_Message m\<rparr>) fds
      | _ \<Rightarrow> Info writer msg fds)"

text \<open>The other methods are those of the embedded writer.\<close>

definition NewSensitiveLogger :: "('a, 'f, 's) Writer \<Rightarrow> ('a, 'f, 's) Writer" where
  "NewSensitiveLogger writer = writer\<lparr>Info := SensitiveLogger_Info writer\<rparr>"

section \<open>logx/tokafka\<close>

text \<open>\<open>Push\<close> is the queue's; the result is the number of bytes and the error.\<close>

definition KafkaWriter_Write :: "(string \<Rightarrow> 's \<Rightarrow> 's \<times> go_error option) \<Rightarrow> string \<Rightarrow> 's \<Rightarrow> 's \<times> nat \<times> go_error option" where
  "KafkaWriter_Write Push p s =
     (case Push (trim_space p) s of
        (s, Some err) \<Rightarrow> (s, 0, Some err)
      | (s, None) \<Rightarrow> (s, length p, None))"

section \<open>Calls and recordings\<close>

datatype ('a, 'f) log_call =
    CAlert "'a any_val" | CSevere "'a any_val" | CStack "'a any_val"
  | CError "'a any_val" "'f fields" | CInfo "'a any_val" "'f fields"
  | CSlow "'a any_val" "'f fields" | CStat "'a any_val" "'f fields"

fun call :: "('a, 'f, 's) Writer \<Rightarrow> ('a, 'f) log_call \<Rightarrow> 's \<Rightarrow> 's" where
  "call W (CAlert v) = Alert W v"
| "call W (CSevere v) = Severe W v"
| "call W (CStack v) = Stack W v"
| "call W (CError v fs) = Error W v fs"
| "call W (CInfo v fs) = Info W v fs"
| "call W (CSlow v fs) = Slow W v fs"
| "call W (CStat v fs) = Stat W v fs"

locale recording =
  fixes W :: "('a, 'f, 's) Writer"
    and seen :: "'s \<Rightarrow> ('a, 'f) log_call list"
  assumes call_law: "seen (call W c s) = seen s @ [c]"
begin

lemma calls_seen: "seen (fold (call W) cs s) = seen s @ cs"
  by (induction cs arbitrary: s) (simp_all add: call_law)

end

text \<open>Mirroring: both writers see every call.\<close>

lemma call_multi: "fst (call (NewMultiWriter C F) c s) = call C c (fst s)" "snd (call (NewMultiWriter C F) c s) = call F c (snd s)"
  by (cases s; cases c; simp add: NewMultiWriter_def MultiWriter_Alert_def MultiWriter_Error_def MultiWriter_Info_def
      MultiWriter_Severe_def MultiWriter_Slow_def MultiWriter_Stack_def MultiWriter_Stat_def)+

lemma calls_multi: "fold (call (NewMultiWriter C F)) cs (s, t) = (fold (call C) cs s, fold (call F) cs t)"
proof (induction cs arbitrary: s t)
  case (Cons c cs)
  have "call (NewMultiWriter C F) c (s, t) = (call C c s, call F c t)" by (intro prod_eqI) (simp_all add: call_multi)
  with Cons show ?case by simp
qed simp

locale mirrored = console: recording C seenC + disk: recording F seenF
  for C :: "('a, 'f, 's) Writer" and seenC :: "'s \<Rightarrow> ('a, 'f) log_call list"
    and F :: "('a, 'f, 't) Writer" and seenF :: "'t \<Rightarrow> ('a, 'f) log_call list"

sublocale mirrored \<subseteq> on_console: recording "NewMultiWriter C F" "\<lambda>s. seenC (fst s)"
  by unfold_locales (simp add: call_multi console.call_law)

sublocale mirrored \<subseteq> on_disk: recording "NewMultiWriter C F" "\<lambda>s. seenF (snd s)"
  by unfold_locales (simp add: call_multi disk.call_law)

text \<open>What the sensitive logger makes of a call.\<close>

fun hide :: "'a any_val \<Rightarrow> 'a any_val" where
  "hide (MessageVal m) = MessageVal (m\<lparr>Message_Password := ''******''\<rparr>)"
| "hide (OtherVal v) = OtherVal v"

fun masked :: "('a, 'f) log_call \<Rightarrow> ('a, 'f) log_call" where
  "masked (CInfo v fs) = CInfo (hide v) fs"
| "masked c = c"

lemma call_sensitive: "call (NewSensitiveLogger W) c s = call W (masked c) s"
proof (cases c)
  case (CInfo v fs)
  have r: "\<lparr>Message_Name = Message_Name m, Message_Password = p, Message_Message = Message_Message m\<rparr> =
    m\<lparr>Message_Password := p\<rparr>" for m :: Message and p
    by (cases m) simp
  from CInfo show ?thesis by (cases v) (simp_all add: NewSensitiveLogger_def SensitiveLogger_Info_def r)
qed (simp_all add: NewSensitiveLogger_def)

context recording
begin

lemma sensitive_seen: "seen (fold (call (NewSensitiveLogger W)) cs s) = seen s @ map masked cs"
  by (induction cs arbitrary: s) (simp_all add: call_sensitive call_law)

end

text \<open>The library's writer seen from outside: the calls it received; closing it succeeds.\<close>

definition trace_writer :: "('a, 'f, ('a, 'f) log_call list) Writer" where
  "trace_writer = \<lparr>Alert = (\<lambda>v s. s @ [CAlert v]), Close = (\<lambda>s. (s, None)), Error = (\<lambda>v fs s. s @ [CError v fs]),
     Info = (\<lambda>v fs s. s @ [CInfo v fs]), Severe = (\<lambda>v s. s @ [CSevere v]), Slow = (\<lambda>v fs s. s @ [CSlow v fs]),
     Stack = (\<lambda>v s. s @ [CStack v]), Stat = (\<lambda>v fs s. s @ [CStat v fs])\<rparr>"

lemma trace_call: "call trace_writer c s = s @ [c]"
  by (cases c) (simp_all add: trace_writer_def)

interpretation trace: recording trace_writer "\<lambda>s. s"
  by unfold_locales (rule trace_call)

interpretation multi: mirrored trace_writer "\<lambda>s. s" trace_writer "\<lambda>s. s"
  by unfold_locales

section \<open>Properties\<close>

definition has_password :: "string \<Rightarrow> ('a, 'f) log_call \<Rightarrow> bool" where
  "has_password p c \<longleftrightarrow>
     (case c of
        CAlert v \<Rightarrow> \<exists>m. v = MessageVal m \<and> Message_Password m = p
      | CSevere v \<Rightarrow> \<exists>m. v = MessageVal m \<and> Message_Password m = p
      | CStack v \<Rightarrow> \<exists>m. v = MessageVal m \<and> Message_Password m = p
      | CError v _ \<Rightarrow> \<exists>m. v = MessageVal m \<and> Message_Password m = p
      | CInfo v _ \<Rightarrow> \<exists>m. v = MessageVal m \<and> Message_Password m = p
      | CSlow v _ \<Rightarrow> \<exists>m. v = MessageVal m \<and> Message_Password m = p
      | CStat v _ \<Rightarrow> \<exists>m. v = MessageVal m \<and> Message_Password m = p)"

definition is_info :: "('a, 'f) log_call \<Rightarrow> bool" where
  "is_info c \<longleftrightarrow> (\<exists>v fs. c = CInfo v fs)"

lemma masked_password: "p \<noteq> ''******'' \<Longrightarrow> has_password p (masked c) \<longleftrightarrow> \<not> is_info c \<and> has_password p c"
proof (cases c)
  case (CInfo v fs)
  then show "p \<noteq> ''******'' \<Longrightarrow> ?thesis" by (cases v) (auto simp: has_password_def is_info_def)
qed (simp_all add: has_password_def is_info_def)

text \<open>
  C40. What reaches the log. The mirroring writer gives every call, in order and unchanged, to both the
  console and the file, and its \<^verbatim>\<open>Close\<close> closes both and returns the file's error. The sensitive logger
  passes a password on exactly when the message is logged by another method than \<^verbatim>\<open>Info\<close> (errors, slow
  logs and the rest are not filtered), and changes nothing else.
\<close>

theorem log_writers_deliver:
  "fold (call (NewMultiWriter C F)) cs (c, f) = (fold (call C) cs c, fold (call F) cs f) \<and>
   fold (call (NewMultiWriter trace_writer trace_writer)) cs (s, t) = (s @ cs, t @ cs) \<and>
   Close (NewMultiWriter C F) (c, f) = ((fst (Close C c), fst (Close F f)), snd (Close F f)) \<and>
   fold (call (NewSensitiveLogger trace_writer)) cs [] = map masked cs \<and>
   (p \<noteq> ''******'' \<longrightarrow>
      ((\<exists>c \<in> set (fold (call (NewSensitiveLogger trace_writer)) cs []). has_password p c) \<longleftrightarrow>
       (\<exists>c \<in> set cs. \<not> is_info c \<and> has_password p c)))"
proof (intro conjI impI)
  show "fold (call (NewMultiWriter C F)) cs (c, f) = (fold (call C) cs c, fold (call F) cs f)"
    by (rule calls_multi)
  show "fold (call (NewMultiWriter trace_writer trace_writer)) cs (s, t) = (s @ cs, t @ cs)"
    using multi.on_console.calls_seen [of cs "(s, t)"] multi.on_disk.calls_seen [of cs "(s, t)"] by (intro prod_eqI) simp_all
  show "Close (NewMultiWriter C F) (c, f) = ((fst (Close C c), fst (Close F f)), snd (Close F f))"
    by (simp add: NewMultiWriter_def MultiWriter_Close_def split: prod.splits)
  show sens: "fold (call (NewSensitiveLogger trace_writer)) cs [] = map masked cs"
    using trace.sensitive_seen [of cs "[]"] by simp
  show "(\<exists>c \<in> set (fold (call (NewSensitiveLogger trace_writer)) cs []). has_password p c) \<longleftrightarrow>
       (\<exists>c \<in> set cs. \<not> is_info c \<and> has_password p c)" if "p \<noteq> ''******''"
    by (simp add: sens masked_password [OF that])
qed

definition demo_message :: Message where
  "demo_message = \<lparr>Message_Name = ''foo'', Message_Password = ''shouldNotAppear'', Message_Message = ''bar''\<rparr>"

theorem log_writers_deliver_witness:
  "fold (call (NewSensitiveLogger trace_writer)) [CInfo (MessageVal demo_message) [], CError (MessageVal demo_message) []] [] =
     [CInfo (MessageVal (demo_message\<lparr>Message_Password := ''******''\<rparr>)) [],
      CError (MessageVal demo_message :: nat any_val) ([] :: (string \<times> nat) list)] \<and>
   (\<exists>c \<in> set (fold (call (NewSensitiveLogger trace_writer))
        [CInfo (MessageVal demo_message) [], CError (MessageVal demo_message :: nat any_val) ([] :: (string \<times> nat) list)] []).
      has_password ''shouldNotAppear'' c)"
proof -
  let ?cs = "[CInfo (MessageVal demo_message) [], CError (MessageVal demo_message :: nat any_val) ([] :: (string \<times> nat) list)]"
  let ?out = "fold (call (NewSensitiveLogger trace_writer)) ?cs []"
  have e: "\<exists>c \<in> set ?cs. \<not> is_info c \<and> has_password ''shouldNotAppear'' c"
    by (simp add: is_info_def has_password_def demo_message_def)
  have m: "map masked ?cs = [CInfo (MessageVal (demo_message\<lparr>Message_Password := ''******''\<rparr>)) [], CError (MessageVal demo_message) []]"
    by simp
  note T = log_writers_deliver [of trace_writer trace_writer ?cs "[]" "[]" "[]" "[]" "''shouldNotAppear''"]
  from T have o: "?out = map masked ?cs" by (elim conjE)
  from T have "''shouldNotAppear'' \<noteq> ''******'' \<longrightarrow> ((\<exists>c \<in> set ?out. has_password ''shouldNotAppear'' c) \<longleftrightarrow>
      (\<exists>c \<in> set ?cs. \<not> is_info c \<and> has_password ''shouldNotAppear'' c))" by (elim conjE)
  moreover have "''shouldNotAppear'' \<noteq> ''******''" by simp
  ultimately have "\<exists>c \<in> set ?out. has_password ''shouldNotAppear'' c" using e by iprover
  with o m show ?thesis by (intro conjI) (simp only:)
qed

end
