(* ===== verification/Log_Demos.thy ===== *)
theory Log_Demos
  imports Log_Writers
begin

text \<open>
  The programs around the log writers: what the sample programs of \<^verbatim>\<open>logx\<close> log (\<^verbatim>\<open>fileconsole\<close>, \<^verbatim>\<open>tokafka\<close>, \<^verbatim>\<open>filterfields\<close>, \<^verbatim>\<open>logrus\<close>,
  \<^verbatim>\<open>zerolog\<close>, \<^verbatim>\<open>zaplog\<close>), through the writer that each of them installs. The package \<^verbatim>\<open>logx\<close> is a parameter: an entry reaches the
  writer's method of its level, with its own fields first and the package's (caller, duration, trace) after them.
\<close>

section \<open>Entries\<close>

datatype field_val = FStr string | FInt int | FDur nat

datatype log_value = TextVal string | FieldMap "(string \<times> field_val) list"

definition Field :: "string \<Rightarrow> field_val \<Rightarrow> string \<times> field_val" where
  "Field k v = (k, v)"

text \<open>The three fields that every entry of the demos carries.\<close>

definition attempt_fields :: "string \<Rightarrow> field_val fields" where
  "attempt_fields url = [Field ''url'' (FStr url), Field ''attempt'' (FInt 3), Field ''backoff'' (FDur 1000000000)]"

datatype log_option = WithDuration nat | WithContext

datatype log_entry =
    Infow "log_option list" string "field_val fields"
  | Errorw "log_option list" string "field_val fields"
  | Sloww "log_option list" string "field_val fields"
  | LogError "log_option list" string
  | Infov "log_option list" "log_value any_val"

type_synonym logx_fields = "log_entry \<Rightarrow> field_val fields"

fun entry_call :: "logx_fields \<Rightarrow> log_entry \<Rightarrow> (log_value, field_val) log_call" where
  "entry_call own (Infow opts msg fs) = CInfo (OtherVal (TextVal msg)) (fs @ own (Infow opts msg fs))"
| "entry_call own (Errorw opts msg fs) = CError (OtherVal (TextVal msg)) (fs @ own (Errorw opts msg fs))"
| "entry_call own (Sloww opts msg fs) = CSlow (OtherVal (TextVal msg)) (fs @ own (Sloww opts msg fs))"
| "entry_call own (LogError opts msg) = CError (OtherVal (TextVal msg)) (own (LogError opts msg))"
| "entry_call own (Infov opts v) = CInfo v (own (Infov opts v))"

definition log_all :: "logx_fields \<Rightarrow> (log_value, field_val, 's) Writer \<Rightarrow> log_entry list \<Rightarrow> 's \<Rightarrow> 's" where
  "log_all own W es = fold (\<lambda>e. call W (entry_call own e)) es"

lemma log_all_calls: "log_all own W es s = fold (call W) (map (entry_call own) es) s"
  by (induction es arbitrary: s) (simp_all add: log_all_def)

section \<open>The programs\<close>

text \<open>One round of the endless loops, or the whole of the others.\<close>

definition fileconsole_round :: "log_entry list" where
  "fileconsole_round = [
     Infow [] ''infow foo'' (attempt_fields ''http://localhost:8080/hello''),
     Errorw [] ''errorw foo'' (attempt_fields ''http://localhost:8080/hello''),
     Sloww [] ''sloww foo'' (attempt_fields ''http://localhost:8080/hello''),
     LogError [] ''error'',
     Infov [] (OtherVal (FieldMap [(''url'', FStr ''localhost:8080/hello''), (''attempt'', FInt 3), (''backoff'', FDur 1000000000), (''value'', FStr ''foo'')])),
     Infow [WithDuration 1100000] ''infow withduration'' (attempt_fields ''localhost:8080/hello''),
     Errorw [WithContext, WithDuration 1100000] ''errorw withcontext withduration'' (attempt_fields ''localhost:8080/hello''),
     Errorw [WithDuration 1100000, WithContext] ''errorw withduration withcontext'' (attempt_fields ''localhost:8080/hello'')]"

definition tokafka_round :: "log_entry list" where
  "tokafka_round = [
     Infow [] ''infow foo'' (attempt_fields ''http://localhost:8080/hello''),
     Errorw [] ''errorw foo'' (attempt_fields ''http://localhost:8080/hello''),
     Sloww [] ''sloww foo'' (attempt_fields ''http://localhost:8080/hello''),
     LogError [] ''error'',
     Infov [] (OtherVal (FieldMap [(''url'', FStr ''localhost:8080/hello''), (''attempt'', FInt 3), (''backoff'', FDur 1000000000), (''value'', FStr ''foo'')])),
     Infow [WithDuration 1100000] ''infow withduration'' (attempt_fields ''localhost:8080/hello''),
     Errorw [WithContext, WithDuration 1100000] ''errorw withcontext withduration'' (attempt_fields ''localhost:8080/hello''),
     Errorw [WithDuration 1100000, WithContext] ''errorw withduration withcontext'' (attempt_fields ''localhost:8080/hello'')]"

definition logrus_entries :: "log_entry list" where
  "logrus_entries = [
     Infow [] ''infow foo'' (attempt_fields ''http://localhost:8080/hello''),
     Errorw [] ''errorw foo'' (attempt_fields ''http://localhost:8080/hello''),
     Sloww [] ''sloww foo'' (attempt_fields ''http://localhost:8080/hello''),
     LogError [] ''error'',
     Infov [] (OtherVal (FieldMap [(''url'', FStr ''localhost:8080/hello''), (''attempt'', FInt 3), (''backoff'', FDur 1000000000), (''value'', FStr ''foo'')])),
     Infow [WithDuration 1100000] ''infow withduration'' (attempt_fields ''localhost:8080/hello''),
     Errorw [WithContext, WithDuration 1100000] ''errorw withcontext withduration'' (attempt_fields ''localhost:8080/hello''),
     Errorw [WithDuration 1100000, WithContext] ''errorw withduration withcontext'' (attempt_fields ''localhost:8080/hello'')]"

definition zerolog_entries :: "log_entry list" where
  "zerolog_entries = [
     Infow [] ''infow foo'' (attempt_fields ''http://localhost:8080/hello''),
     Errorw [] ''errorw foo'' (attempt_fields ''http://localhost:8080/hello''),
     Sloww [] ''sloww foo'' (attempt_fields ''http://localhost:8080/hello''),
     LogError [] ''error'',
     Infov [] (OtherVal (FieldMap [(''url'', FStr ''localhost:8080/hello''), (''attempt'', FInt 3), (''backoff'', FDur 1000000000), (''value'', FStr ''foo'')])),
     Infow [WithDuration 1100000] ''infow withduration'' (attempt_fields ''localhost:8080/hello''),
     Errorw [WithContext, WithDuration 1100000] ''errorw withcontext withduration'' (attempt_fields ''localhost:8080/hello''),
     Errorw [WithDuration 1100000, WithContext] ''errorw withduration withcontext'' (attempt_fields ''localhost:8080/hello'')]"

definition zaplog_entries :: "log_entry list" where
  "zaplog_entries = [
     Infow [] ''infow foo'' (attempt_fields ''http://localhost:8080/hello''),
     Errorw [] ''errorw foo'' (attempt_fields ''http://localhost:8080/hello''),
     Sloww [] ''sloww foo'' (attempt_fields ''http://localhost:8080/hello''),
     LogError [] ''error'',
     Infov [] (OtherVal (FieldMap [(''url'', FStr ''localhost:8080/hello''), (''attempt'', FInt 3), (''backoff'', FDur 1000000000), (''value'', FStr ''foo'')])),
     Infow [WithDuration 1100000] ''infow withduration'' (attempt_fields ''localhost:8080/hello''),
     Errorw [WithContext, WithDuration 1100000] ''errorw withcontext withduration'' (attempt_fields ''localhost:8080/hello''),
     Errorw [WithDuration 1100000, WithContext] ''errorw withduration withcontext'' (attempt_fields ''localhost:8080/hello'')]"

definition filterfields_entries :: "log_entry list" where
  "filterfields_entries = [
     Infow [] ''infow foo'' (attempt_fields ''http://localhost:8080/hello''),
     Infov [] (MessageVal \<lparr>Message_Name = ''foo'', Message_Password = ''shouldNotAppear'', Message_Message = ''bar''\<rparr>),
     Infow [WithDuration 1100000] ''infow withduration'' (attempt_fields ''localhost:8080/hello''),
     Errorw [WithContext, WithDuration 1100000] ''errorw withcontext withduration'' (attempt_fields ''localhost:8080/hello''),
     Errorw [WithDuration 1100000, WithContext] ''errorw withduration withcontext'' (attempt_fields ''localhost:8080/hello'')]"

text \<open>The mains: the writer they install, over the library's console writer \<open>C\<close> and the file or original writer \<open>W\<close>.\<close>

definition fileconsole_main ::
  "logx_fields \<Rightarrow> (log_value, field_val, 'c) Writer \<Rightarrow> (log_value, field_val, 's) Writer \<Rightarrow> nat \<Rightarrow> 'c \<times> 's \<Rightarrow> 'c \<times> 's" where
  "fileconsole_main own C fileWriter rounds = (let writer = NewMultiWriter C fileWriter in (log_all own writer fileconsole_round ^^ rounds))"

definition filterfields_main :: "logx_fields \<Rightarrow> (log_value, field_val, 's) Writer \<Rightarrow> 's \<Rightarrow> 's" where
  "filterfields_main own originalWriter = (let writer = NewSensitiveLogger originalWriter in log_all own writer filterfields_entries)"

text \<open>\<^verbatim>\<open>logx.NewWriter\<close> formats each call as a line and writes it; an error of the write is not reported.\<close>

definition NewWriter :: "((log_value, field_val) log_call \<Rightarrow> string) \<Rightarrow> (string \<Rightarrow> 's \<Rightarrow> 's) \<Rightarrow> (log_value, field_val, 's) Writer" where
  "NewWriter line w = \<lparr>Alert = (\<lambda>v. w (line (CAlert v))), Close = (\<lambda>s. (s, None)), Error = (\<lambda>v fs. w (line (CError v fs))),
     Info = (\<lambda>v fs. w (line (CInfo v fs))), Severe = (\<lambda>v. w (line (CSevere v))), Slow = (\<lambda>v fs. w (line (CSlow v fs))),
     Stack = (\<lambda>v. w (line (CStack v))), Stat = (\<lambda>v fs. w (line (CStat v fs)))\<rparr>"

definition tokafka_main ::
  "logx_fields \<Rightarrow> ((log_value, field_val) log_call \<Rightarrow> string) \<Rightarrow> (string \<Rightarrow> 's \<Rightarrow> 's \<times> go_error option) \<Rightarrow> nat \<Rightarrow> 's \<Rightarrow> 's" where
  "tokafka_main own line Push rounds =
     (let writer = NewWriter line (\<lambda>p s. fst (KafkaWriter_Write Push p s)) in (log_all own writer tokafka_round ^^ rounds))"

definition logrus_main :: "logx_fields \<Rightarrow> (log_value, field_val, 's) Writer \<Rightarrow> 's \<Rightarrow> 's" where
  "logrus_main own writer = log_all own writer logrus_entries"

definition zerolog_main :: "logx_fields \<Rightarrow> (log_value, field_val, 's) Writer \<Rightarrow> 's \<Rightarrow> 's" where
  "zerolog_main own writer = log_all own writer zerolog_entries"

text \<open>The constructor of the zap writer may fail, which ends the process.\<close>

definition zaplog_main :: "logx_fields \<Rightarrow> (log_value, field_val, 's) Writer result \<Rightarrow> 's \<Rightarrow> 's result" where
  "zaplog_main own NewZapWriter s =
     (case NewZapWriter of Inl err \<Rightarrow> Inl err | Inr writer \<Rightarrow> Inr (log_all own writer zaplog_entries s))"

section \<open>What they log\<close>

lemma call_NewWriter: "call (NewWriter line w) c = w (line c)"
  by (cases c) (simp_all add: NewWriter_def)

lemma demo_entries_same: "tokafka_round = fileconsole_round" "logrus_entries = fileconsole_round"
  "zerolog_entries = fileconsole_round" "zaplog_entries = fileconsole_round"
  unfolding tokafka_round_def fileconsole_round_def logrus_entries_def zerolog_entries_def zaplog_entries_def by (rule refl)+

definition rounds_of :: "logx_fields \<Rightarrow> nat \<Rightarrow> (log_value, field_val) log_call list" where
  "rounds_of own n = concat (replicate n (map (entry_call own) fileconsole_round))"

lemma rounds_fold: "(log_all own W fileconsole_round ^^ n) s = fold (call W) (rounds_of own n) s"
proof (induction n arbitrary: s)
  case (Suc n)
  then show ?case by (simp add: rounds_of_def log_all_calls funpow_Suc_right del: funpow.simps)
qed (simp add: rounds_of_def)

lemma trim_pushes:
  "fold (\<lambda>c s. fst (KafkaWriter_Write (\<lambda>m s. (s @ [m], f m)) (line c) s)) cs s = s @ map (\<lambda>c. trim_space (line c)) cs"
  by (induction cs arbitrary: s) (simp_all add: KafkaWriter_Write_def split: option.splits)

text \<open>
  The programs' logs: console and file get the same calls, round after round; the queue gets each line once, trimmed
  and in order, whether pushing fails or not; and the password of the filtering demo reaches the log nowhere.
\<close>

lemma demo_logs:
  "fileconsole_main own trace_writer trace_writer n ([], []) = (rounds_of own n, rounds_of own n)"
  "tokafka_main own line (\<lambda>m s. (s @ [m], f m)) n [] = map (\<lambda>c. trim_space (line c)) (rounds_of own n)"
  "\<not> (\<exists>c \<in> set (filterfields_main own trace_writer []). has_password ''shouldNotAppear'' c)"
proof -
  show "fileconsole_main own trace_writer trace_writer n ([], []) = (rounds_of own n, rounds_of own n)"
    unfolding fileconsole_main_def Let_def rounds_fold calls_multi using trace.calls_seen [of "rounds_of own n" "[]"] by simp
  show "tokafka_main own line (\<lambda>m s. (s @ [m], f m)) n [] = map (\<lambda>c. trim_space (line c)) (rounds_of own n)"
    unfolding tokafka_main_def Let_def demo_entries_same rounds_fold call_NewWriter trim_pushes by simp
  have "filterfields_main own trace_writer [] = map (\<lambda>e. masked (entry_call own e)) filterfields_entries"
    unfolding filterfields_main_def Let_def log_all_calls using trace.sensitive_seen [of "map (entry_call own) filterfields_entries" "[]"]
    by simp
  then show "\<not> (\<exists>c \<in> set (filterfields_main own trace_writer []). has_password ''shouldNotAppear'' c)"
    by (simp add: filterfields_entries_def has_password_def)
qed

end
