(* ===== verification/Stream_Greeter.thy ===== *)
theory Stream_Greeter
  imports Service_Lib
begin

text \<open>
  The streaming greeting service: the generated package (\<^verbatim>\<open>rpc/remote/stream\<close>), the server's loop
  (\<^verbatim>\<open>rpc/server/stream\<close>) and the client with its sending and receiving goroutines and wait group
  (\<^verbatim>\<open>rpc/client/stream\<close>). A stream of the RPC library is a pair of queues, one in each direction, that keep
  the order of messages; the connection may break at any moment, and ends when the client exits.
\<close>

section \<open>The generated package\<close>

record StreamReq =
  StreamReq_Name :: string

record StreamResp =
  StreamResp_Greet :: string

definition StreamReq_Reset :: StreamReq where "StreamReq_Reset = \<lparr>StreamReq_Name = []\<rparr>"

definition StreamResp_Reset :: StreamResp where "StreamResp_Reset = \<lparr>StreamResp_Greet = []\<rparr>"

definition StreamReq_GetName :: "StreamReq option \<Rightarrow> string" where
  "StreamReq_GetName m = (case m of Some m \<Rightarrow> StreamReq_Name m | None \<Rightarrow> [])"

definition StreamResp_GetGreet :: "StreamResp option \<Rightarrow> string" where
  "StreamResp_GetGreet m = (case m of Some m \<Rightarrow> StreamResp_Greet m | None \<Rightarrow> [])"

text \<open>The library's stream: \<^verbatim>\<open>SendMsg\<close> and \<^verbatim>\<open>RecvMsg\<close> on messages, which the generated wrappers type.\<close>

datatype stream_msg = StreamReq_msg StreamReq | StreamResp_msg StreamResp

record 's msg_stream =
  SendMsg :: "stream_msg \<Rightarrow> 's \<Rightarrow> 's \<times> unit result"
  RecvMsg :: "'s \<Rightarrow> 's \<times> stream_msg result"

definition streamGreeterGreetClient_Send :: "'s msg_stream \<Rightarrow> StreamReq \<Rightarrow> 's \<Rightarrow> 's \<times> unit result" where
  "streamGreeterGreetClient_Send x m s = SendMsg x (StreamReq_msg m) s"

definition streamGreeterGreetClient_Recv :: "'s msg_stream \<Rightarrow> 's \<Rightarrow> 's \<times> StreamResp result" where
  "streamGreeterGreetClient_Recv x s =
     unwrap (\<lambda>m. case m of StreamResp_msg r \<Rightarrow> Some r | _ \<Rightarrow> None) (RecvMsg x s)"

definition streamGreeterGreetServer_Send :: "'s msg_stream \<Rightarrow> StreamResp \<Rightarrow> 's \<Rightarrow> 's \<times> unit result" where
  "streamGreeterGreetServer_Send x m s = SendMsg x (StreamResp_msg m) s"

definition streamGreeterGreetServer_Recv :: "'s msg_stream \<Rightarrow> 's \<Rightarrow> 's \<times> StreamReq result" where
  "streamGreeterGreetServer_Recv x s =
     unwrap (\<lambda>m. case m of StreamReq_msg r \<Rightarrow> Some r | _ \<Rightarrow> None) (RecvMsg x s)"

definition StreamGreeter_serviceName :: string where "StreamGreeter_serviceName = ''stream.StreamGreeter''"
definition StreamGreeter_streams :: "(string \<times> bool \<times> bool) list" where
  "StreamGreeter_streams = [(''greet'', True, True)]"

definition streamGreeterClient_Greet ::
  "(string \<times> bool \<times> bool \<Rightarrow> string \<Rightarrow> 's msg_stream result) \<Rightarrow> 's msg_stream result" where
  "streamGreeterClient_Greet NewClientStream =
     (case NewClientStream (StreamGreeter_streams ! 0) ''/stream.StreamGreeter/greet'' of
        Inl err \<Rightarrow> Inl err
      | Inr stream \<Rightarrow> Inr stream)"

section \<open>The server's loop\<close>

datatype recv_out = RecvReq StreamReq | RecvEOF | RecvErr go_error

datatype srv_pc = SrvSelect | SrvRecv | SrvReturned "go_error option"

text \<open>The \<^verbatim>\<open>select\<close> on the context, and what follows \<^verbatim>\<open>Recv\<close>: next point, lines printed, responses sent.\<close>

definition greet_select :: "go_error option \<Rightarrow> srv_pc \<times> string list" where
  "greet_select ctxErr =
     (case ctxErr of Some err \<Rightarrow> (SrvReturned (Some err), [''cancelled by client'']) | None \<Rightarrow> (SrvRecv, []))"

definition greet_recv :: "recv_out \<Rightarrow> srv_pc \<times> string list \<times> StreamResp list" where
  "greet_recv out =
     (case out of
        RecvEOF \<Rightarrow> (SrvReturned None, [], [])
      | RecvErr err \<Rightarrow> (SrvReturned (Some err), [], [])
      | RecvReq req \<Rightarrow>
          let greet = ''hello, '' @ StreamReq_Name req
          in (SrvSelect, [''=> '' @ StreamReq_Name req, ''<= '' @ greet], [\<lparr>StreamResp_Greet = greet\<rparr>]))"

section \<open>The session\<close>

definition client_name :: string where "client_name = ''kevin''"

text \<open>
  The main goroutine: at the head of the loop with index \<open>i\<close>, between \<^verbatim>\<open>wg.Add\<close> with its print and the send,
  in \<^verbatim>\<open>wg.Wait\<close>, or ended with its exit code. The receiving goroutine: in \<^verbatim>\<open>Recv\<close>, or before \<^verbatim>\<open>wg.Done\<close>.
\<close>

datatype main_pc = MainLoop nat | MainSend nat | MainWait | MainExit nat

datatype recv_pc = InRecv | BeforeDone

record session =
  up :: "StreamReq list"
  down :: "StreamResp list"
  srv :: srv_pc
  main_at :: main_pc
  recv_at :: recv_pc
  wg :: nat
  broken :: bool
  panicked :: bool
  client_out :: "string list"
  server_out :: "string list"

definition session_start :: session where
  "session_start = \<lparr>up = [], down = [], srv = SrvSelect, main_at = MainLoop 0, recv_at = InRecv, wg = 0, broken = False,
     panicked = False, client_out = [], server_out = []\<rparr>"

definition exited :: "session \<Rightarrow> bool" where
  "exited s \<longleftrightarrow> panicked s \<or> (case main_at s of MainExit _ \<Rightarrow> True | _ \<Rightarrow> False)"

text \<open>The context of the stream is done when the client is gone or the connection broke.\<close>

definition ctx_err :: "session \<Rightarrow> go_error option" where
  "ctx_err s = (if exited s \<or> broken s then Some (Sentinel ''context.Canceled'') else None)"

definition main_add :: "nat \<Rightarrow> session \<Rightarrow> session" where
  "main_add i s = s\<lparr>main_at := MainSend i, wg := wg s + 1, client_out := client_out s @ [''<= '' @ client_name]\<rparr>"

text \<open>\<^verbatim>\<open>Send\<close> fails on a broken connection, and \<^verbatim>\<open>log.Fatal\<close> ends the process.\<close>

definition main_send :: "nat \<Rightarrow> session \<Rightarrow> session" where
  "main_send i s =
     (if broken s then s\<lparr>main_at := MainExit 1\<rparr>
      else s\<lparr>main_at := MainLoop (Suc i), up := up s @ [\<lparr>StreamReq_Name = client_name\<rparr>]\<rparr>)"

definition recv_resp :: "StreamResp \<Rightarrow> StreamResp list \<Rightarrow> session \<Rightarrow> session" where
  "recv_resp r rs s = s\<lparr>down := rs, recv_at := BeforeDone, client_out := client_out s @ [''=> '' @ StreamResp_Greet r]\<rparr>"

text \<open>\<^verbatim>\<open>wg.Done\<close> panics on a counter of zero.\<close>

definition recv_done :: "session \<Rightarrow> session" where
  "recv_done s = (if wg s = 0 then s\<lparr>panicked := True\<rparr> else s\<lparr>wg := wg s - 1, recv_at := InRecv\<rparr>)"

text \<open>What the server sends on a connection without a client is lost; the error is ignored.\<close>

definition server_after :: "srv_pc \<times> string list \<times> StreamResp list \<Rightarrow> session \<Rightarrow> session" where
  "server_after = (\<lambda>(pc, ls, rs) s.
     s\<lparr>srv := pc, server_out := server_out s @ ls, down := (if ctx_err s = None then down s @ rs else down s)\<rparr>)"

inductive session_step :: "session \<Rightarrow> session \<Rightarrow> bool" where
  add: "\<not> exited s \<Longrightarrow> main_at s = MainLoop i \<Longrightarrow> i < 3 \<Longrightarrow> session_step s (main_add i s)"
| send: "\<not> exited s \<Longrightarrow> main_at s = MainSend i \<Longrightarrow> session_step s (main_send i s)"
| wait: "\<not> exited s \<Longrightarrow> main_at s = MainLoop i \<Longrightarrow> \<not> i < 3 \<Longrightarrow> session_step s (s\<lparr>main_at := MainWait\<rparr>)"
| exit: "\<not> exited s \<Longrightarrow> main_at s = MainWait \<Longrightarrow> wg s = 0 \<Longrightarrow> session_step s (s\<lparr>main_at := MainExit 0\<rparr>)"
| recv: "\<not> exited s \<Longrightarrow> recv_at s = InRecv \<Longrightarrow> down s = r # rs \<Longrightarrow> session_step s (recv_resp r rs s)"
| recv_err: "\<not> exited s \<Longrightarrow> recv_at s = InRecv \<Longrightarrow> broken s \<Longrightarrow> session_step s (s\<lparr>main_at := MainExit 1\<rparr>)"
| done_step: "\<not> exited s \<Longrightarrow> recv_at s = BeforeDone \<Longrightarrow> session_step s (recv_done s)"
| sel: "srv s = SrvSelect \<Longrightarrow> greet_select (ctx_err s) = (pc, ls) \<Longrightarrow> session_step s (server_after (pc, ls, []) s)"
| req: "srv s = SrvRecv \<Longrightarrow> up s = q # qs \<Longrightarrow> session_step s (server_after (greet_recv (RecvReq q)) (s\<lparr>up := qs\<rparr>))"
| req_err: "srv s = SrvRecv \<Longrightarrow> ctx_err s = Some e \<Longrightarrow> session_step s (server_after (greet_recv (RecvErr e)) s)"

inductive_cases session_stepE: "session_step s t"

text \<open>The environment breaks the connection, once.\<close>

definition break_step :: "session \<Rightarrow> session \<Rightarrow> bool" where
  "break_step s t \<longleftrightarrow> \<not> broken s \<and> t = s\<lparr>broken := True\<rparr>"

definition run_step :: "session \<Rightarrow> session \<Rightarrow> bool" where
  "run_step s t \<longleftrightarrow> session_step s t \<or> break_step s t"

section \<open>Termination\<close>

text \<open>Six steps for each request still to come, and what is left of the ones under way.\<close>

fun main_work :: "main_pc \<Rightarrow> nat" where
  "main_work (MainLoop i) = 6 * (3 - i) + 2"
| "main_work (MainSend i) = 6 * (2 - i) + 7"
| "main_work MainWait = 1"
| "main_work (MainExit _) = 0"

fun srv_work :: "srv_pc \<Rightarrow> nat" where
  "srv_work SrvSelect = 2"
| "srv_work SrvRecv = 1"
| "srv_work (SrvReturned _) = 0"

definition session_work :: "session \<Rightarrow> nat" where
  "session_work s = (if exited s then 0 else main_work (main_at s) + (if recv_at s = BeforeDone then 1 else 0)) +
     4 * length (up s) + 2 * length (down s) + srv_work (srv s) + (if broken s then 0 else 1)"

lemma work_decreases: "run_step s t \<Longrightarrow> session_work t < session_work s"
  unfolding run_step_def
proof (elim disjE)
  assume "break_step s t"
  then show ?thesis by (auto simp: break_step_def session_work_def exited_def)
next
  assume "session_step s t"
  then show ?thesis
    by (cases rule: session_step.cases)
      (auto simp: session_work_def exited_def main_add_def main_send_def recv_resp_def recv_done_def server_after_def
        greet_select_def greet_recv_def ctx_err_def Let_def split: main_pc.splits option.splits if_splits)
qed

lemma runs_bounded: "(run_step ^^ n) s t \<Longrightarrow> n + session_work t \<le> session_work s"
proof (induction n arbitrary: t)
  case (Suc n)
  then obtain u where "(run_step ^^ n) s u" "run_step u t" by auto
  with Suc.IH [of u] work_decreases [of u t] show ?case by simp
qed simp

section \<open>The invariant\<close>

definition answers :: "session \<Rightarrow> string list" where
  "answers s = filter (\<lambda>l. prefix ''=>'' l) (client_out s)"

definition pending :: "session \<Rightarrow> nat" where
  "pending s = length (up s) + length (down s) + (case main_at s of MainSend _ \<Rightarrow> 1 | _ \<Rightarrow> 0) + (if recv_at s = BeforeDone then 1 else 0)"

fun added :: "main_pc \<Rightarrow> nat" where
  "added (MainLoop i) = i"
| "added (MainSend i) = Suc i"
| "added _ = 3"

definition only_kevin :: "session \<Rightarrow> bool" where
  "only_kevin s \<longleftrightarrow> set (up s) \<subseteq> {\<lparr>StreamReq_Name = ''kevin''\<rparr>} \<and> set (down s) \<subseteq> {\<lparr>StreamResp_Greet = ''hello, kevin''\<rparr>} \<and>
     set (answers s) \<subseteq> {''=> hello, kevin''}"

text \<open>
  While the client runs: answers printed and requests still counted make up the requests begun, and the
  counter covers everything under way, exactly so on an unbroken connection, where the server is still there.
\<close>

definition counted :: "session \<Rightarrow> bool" where
  "counted s \<longleftrightarrow> added (main_at s) \<le> 3 \<and>
     length (answers s) + wg s = added (main_at s) + (if recv_at s = BeforeDone then 1 else 0) \<and> pending s \<le> wg s \<and>
     (\<not> broken s \<longrightarrow> pending s = wg s \<and> (srv s = SrvSelect \<or> srv s = SrvRecv))"

definition session_inv :: "session \<Rightarrow> bool" where
  "session_inv s \<longleftrightarrow> \<not> panicked s \<and> only_kevin s \<and>
     (case main_at s of MainExit c \<Rightarrow> length (answers s) \<le> 3 \<and> (c = 0 \<longrightarrow> length (answers s) = 3) \<and> (c \<noteq> 0 \<longrightarrow> broken s)
      | _ \<Rightarrow> counted s)"

lemmas session_defs = exited_def ctx_err_def main_add_def main_send_def recv_resp_def recv_done_def server_after_def
  greet_select_def greet_recv_def client_name_def

lemma only_kevin_step: "session_step s t \<Longrightarrow> only_kevin s \<Longrightarrow> only_kevin t"
  by (cases rule: session_step.cases)
    (auto simp: only_kevin_def answers_def session_defs Let_def split: if_splits option.splits)

lemma counted_step:
  "session_step s t \<Longrightarrow> \<not> exited s \<Longrightarrow> counted s \<Longrightarrow> \<not> panicked s \<Longrightarrow>
     \<not> panicked t \<and> (if exited t then length (answers t) \<le> 3 \<and> (main_at t = MainExit 0 \<and> length (answers t) = 3 \<or> main_at t = MainExit 1 \<and> broken t) else counted t)"
  apply (erule session_step.cases)
  subgoal by (auto simp: counted_def pending_def answers_def session_defs)
  subgoal by (auto simp: counted_def pending_def answers_def session_defs)
  subgoal by (auto simp: counted_def pending_def answers_def session_defs)
  subgoal by (auto simp: counted_def pending_def answers_def session_defs split: if_splits)
  subgoal by (auto simp: counted_def pending_def answers_def session_defs split: main_pc.splits)
  subgoal by (auto simp: counted_def pending_def answers_def session_defs split: main_pc.splits)
  subgoal by (auto simp: counted_def pending_def answers_def session_defs split: main_pc.splits)
  subgoal by (auto simp: counted_def pending_def answers_def session_defs split: main_pc.splits if_splits)
  subgoal by (auto simp: counted_def pending_def answers_def session_defs Let_def split: main_pc.splits if_splits)
  subgoal by (auto simp: counted_def pending_def answers_def session_defs split: main_pc.splits if_splits)
  done

lemma session_inv_step: "session_inv s \<Longrightarrow> run_step s t \<Longrightarrow> session_inv t"
  unfolding run_step_def
proof (elim disjE)
  assume i: "session_inv s" and t: "session_step s t"
  then have k: "only_kevin t" using only_kevin_step by (simp add: session_inv_def)
  show ?thesis
  proof (cases "exited s")
    case True
    then obtain c where c: "main_at s = MainExit c" using i by (auto simp: exited_def session_inv_def split: main_pc.splits)
    have "main_at t = main_at s \<and> panicked t = panicked s \<and> answers t = answers s \<and> broken t = broken s"
      using t True by (cases rule: session_step.cases) (auto simp: answers_def server_after_def split: prod.splits)
    with i k c show ?thesis by (simp add: session_inv_def)
  next
    case False
    then have "counted s" "\<not> panicked s" using i by (auto simp: session_inv_def exited_def split: main_pc.splits)
    with counted_step [OF t False] k show ?thesis
      by (auto simp: session_inv_def exited_def split: main_pc.splits if_splits)
  qed
next
  assume "session_inv s" "break_step s t"
  then show ?thesis
    by (auto simp: session_inv_def break_step_def only_kevin_def counted_def pending_def answers_def split: main_pc.splits)
qed

lemma session_inv_start: "session_inv session_start"
  by (simp add: session_start_def session_inv_def only_kevin_def counted_def pending_def answers_def)

interpretation greet_session: machine "\<lambda>s. s = session_start" run_step session_inv
proof unfold_locales
  show "s = session_start \<Longrightarrow> session_inv s" for s by (simp only: session_inv_start)
  show "session_inv s \<Longrightarrow> run_step s t \<Longrightarrow> session_inv t" for s t by (rule session_inv_step)
qed

text \<open>
  Progress: on an unbroken connection something can always happen until the client has exited and the
  server has returned.
\<close>

definition stuck :: "session \<Rightarrow> bool" where
  "stuck s \<longleftrightarrow> (\<forall>t. \<not> session_step s t)"

lemma stuck_main:
  assumes "session_inv s" "\<not> broken s" "stuck s"
  shows "main_at s = MainExit 0"
proof (rule ccontr)
  assume "main_at s \<noteq> MainExit 0"
  with assms(1,2) have r: "\<not> exited s" and c: "counted s"
    by (auto simp: session_inv_def exited_def split: main_pc.splits)
  have no: "\<And>t. \<not> session_step s t" using assms(3) by (simp add: stuck_def)
  have w: "main_at s = MainWait"
  proof (cases "main_at s")
    case (MainLoop i)
    then show ?thesis using no session_step.add [OF r MainLoop] session_step.wait [OF r MainLoop] by blast
  next
    case (MainSend i)
    then show ?thesis using no session_step.send [OF r MainSend] by blast
  next
    case (MainExit c)
    then show ?thesis using r by (simp add: exited_def)
  qed
  then have m: "main_at s = MainWait" "wg s \<noteq> 0" using no session_step.exit [OF r w] by blast+
  have b: "recv_at s = InRecv" using no session_step.done_step [OF r] by (cases "recv_at s") auto
  then have "down s = []" using no session_step.recv [OF r b] by (cases "down s") auto
  with c m b assms(2) have "up s \<noteq> []" and s: "srv s = SrvSelect \<or> srv s = SrvRecv"
    by (auto simp: counted_def pending_def)
  then obtain q qs where "up s = q # qs" by (cases "up s") auto
  with s no show False using session_step.req [of s q qs] session_step.sel [of s] by (metis surj_pair)
qed

lemma stuck_server:
  assumes "main_at s = MainExit c" "stuck s"
  obtains e where "srv s = SrvReturned e"
proof (cases "srv s")
  case SrvSelect
  obtain pc ls where "greet_select (ctx_err s) = (pc, ls)" by fastforce
  with SrvSelect assms(2) session_step.sel show ?thesis unfolding stuck_def by blast
next
  case SrvRecv
  have "ctx_err s \<noteq> None" using assms(1) by (simp add: ctx_err_def exited_def)
  with SrvRecv assms(2) session_step.req_err show ?thesis unfolding stuck_def by blast
qed (rule that)

lemma answers_same: "set (answers s) \<subseteq> {a} \<Longrightarrow> answers s = replicate (length (answers s)) a"
  by (rule replicate_eqI) auto

text \<open>
  C15. In every reachable state of a streaming session, whatever the interleaving of the two client
  goroutines and the server and wherever the connection breaks: the wait group never goes below zero;
  while the client runs, its counter and the answers it printed add up to the requests it began, and
  cover everything still under way; only greetings for its own name are printed, three at most; and it
  exits with code 0 only after all three.
\<close>

theorem stream_session_invariant:
  assumes "run_step\<^sup>*\<^sup>* session_start s"
  shows "\<not> panicked s \<and> length (answers s) \<le> 3 \<and> set (answers s) \<subseteq> {''=> hello, kevin''} \<and>
    (main_at s = MainExit 0 \<longrightarrow> answers s = replicate 3 ''=> hello, kevin'') \<and>
    (\<not> exited s \<longrightarrow> pending s \<le> wg s \<and>
       length (answers s) + wg s = added (main_at s) + (if recv_at s = BeforeDone then 1 else 0))"
proof -
  have i: "session_inv s" using greet_session.inv_reachable [OF refl assms] .
  then have k: "set (answers s) \<subseteq> {''=> hello, kevin''}" and p: "\<not> panicked s"
    by (simp_all add: session_inv_def only_kevin_def)
  have "length (answers s) = 3 \<Longrightarrow> answers s = replicate 3 ''=> hello, kevin''"
    using answers_same [OF k] by simp
  then show ?thesis
    using i k p by (auto simp: session_inv_def counted_def pending_def exited_def split: main_pc.splits)
qed

text \<open>
  C17. A streaming session ends: no run has more than 23 steps, and on a connection that does not break
  a session that cannot go on has ended well, the client with exit code 0 and its three greetings, the
  server with its loop returned.
\<close>

theorem stream_session_ends:
  assumes "(run_step ^^ n) session_start s"
  shows "n \<le> 23 \<and>
    (\<not> broken s \<and> (\<forall>t. \<not> session_step s t) \<longrightarrow>
       main_at s = MainExit 0 \<and> answers s = replicate 3 ''=> hello, kevin'' \<and> (\<exists>e. srv s = SrvReturned e))"
proof -
  have "n + session_work s \<le> session_work session_start" using runs_bounded [OF assms] .
  then have "n \<le> 23" by (simp add: session_start_def session_work_def exited_def)
  moreover have r: "run_step\<^sup>*\<^sup>* session_start s" using assms by (rule relpowp_imp_rtranclp)
  have i: "session_inv s" using greet_session.inv_reachable [OF refl r] .
  moreover have "set (answers s) \<subseteq> {''=> hello, kevin''}" using i by (simp add: session_inv_def only_kevin_def)
  then have "length (answers s) = 3 \<Longrightarrow> answers s = replicate 3 ''=> hello, kevin''"
    using answers_same by fastforce
  moreover have "main_at s = MainExit 0 \<and> (\<exists>e. srv s = SrvReturned e)" if "\<not> broken s" "stuck s"
    using stuck_main [OF i that] stuck_server [OF _ that(2)] by metis
  moreover have "length (answers s) = 3" if "main_at s = MainExit 0" using i that by (simp add: session_inv_def)
  ultimately show ?thesis unfolding stuck_def by blast
qed

text \<open>The first request: begun, sent, read by the server, answered and printed.\<close>

lemma first_request:
  "(run_step ^^ 2) session_start (main_send 0 (main_add 0 session_start))"
proof -
  have "run_step session_start (main_add 0 session_start)"
    unfolding run_step_def by (intro disjI1 session_step.add) (simp_all add: session_start_def exited_def)
  moreover have "run_step (main_add 0 session_start) (main_send 0 (main_add 0 session_start))"
    unfolding run_step_def by (intro disjI1 session_step.send) (simp_all add: session_start_def exited_def main_add_def)
  ultimately show ?thesis by (auto simp: numeral_2_eq_2)
qed

theorem stream_session_invariant_witness:
  "\<not> panicked (main_send 0 (main_add 0 session_start)) \<and> pending (main_send 0 (main_add 0 session_start)) = 1 \<and>
   pending (main_send 0 (main_add 0 session_start)) \<le> wg (main_send 0 (main_add 0 session_start))"
proof -
  have "run_step\<^sup>*\<^sup>* session_start (main_send 0 (main_add 0 session_start))"
    using first_request by (rule relpowp_imp_rtranclp)
  from stream_session_invariant [OF this] show ?thesis
    by (simp add: session_start_def main_add_def main_send_def exited_def pending_def)
qed

lemma session_step_unbroken: "session_step s t \<Longrightarrow> broken t = broken s"
  by (cases rule: session_step.cases) (auto simp: session_defs split: if_splits prod.splits)

lemma session_completes: "\<not> broken s \<Longrightarrow> \<exists>n t. (run_step ^^ n) s t \<and> \<not> broken t \<and> stuck t"
proof (induction "session_work s" arbitrary: s rule: less_induct)
  case less
  show ?case
  proof (cases "stuck s")
    case True
    then have "(run_step ^^ 0) s s \<and> \<not> broken s \<and> stuck s" using less.prems by simp
    then show ?thesis by blast
  next
    case False
    then obtain u where u: "session_step s u" by (auto simp: stuck_def)
    then have r: "run_step s u" by (simp add: run_step_def)
    obtain n t where "(run_step ^^ n) u t" "\<not> broken t" "stuck t"
      using less.hyps [OF work_decreases [OF r]] session_step_unbroken [OF u] less.prems by blast
    with relpowp_Suc_I2 [of run_step s u n t] r show ?thesis by blast
  qed
qed

theorem stream_session_ends_witness:
  "\<exists>n s. (run_step ^^ n) session_start s \<and> n \<le> 23 \<and> main_at s = MainExit 0 \<and> answers s = replicate 3 ''=> hello, kevin''"
proof -
  obtain n s where r: "(run_step ^^ n) session_start s" and s: "\<not> broken s" "stuck s"
    using session_completes [of session_start] by (auto simp: session_start_def)
  with stream_session_ends [OF r] show ?thesis unfolding stuck_def by blast
qed

end
