(* ===== verification/Digests.thy ===== *)
theory Digests
  imports Go_Prelude
begin

text \<open>
  The parts of Go's standard library that the signing client uses: \<^verbatim>\<open>crypto/sha256\<close>, \<^verbatim>\<open>crypto/hmac\<close>,
  \<^verbatim>\<open>encoding/base64\<close> (\<^verbatim>\<open>StdEncoding\<close>) and the hexadecimal verb of \<^verbatim>\<open>fmt\<close>, on byte strings; with
  what the client's headers need of them: the characters they write, and that base64 can be read back.
\<close>

unbundle bit_operations_syntax

section \<open>Hexadecimal and base64\<close>

definition byte :: "char \<Rightarrow> nat" where
  "byte c = of_char c"

definition hex_alphabet :: string where
  "hex_alphabet = ''0123456789abcdef''"

definition hex_digit :: "nat \<Rightarrow> char" where
  "hex_digit n = hex_alphabet ! n"

definition hex :: "string \<Rightarrow> string" where
  "hex s = concat (map (\<lambda>c. [hex_digit (byte c div 16), hex_digit (byte c mod 16)]) s)"

definition base64_alphabet :: string where
  "base64_alphabet = ''ABCDEFGHIJKLMNOPQRSTUVWXYZabcdefghijklmnopqrstuvwxyz0123456789+/''"

definition base64_char :: "nat \<Rightarrow> char" where
  "base64_char n = base64_alphabet ! n"

fun base64_encode :: "string \<Rightarrow> string" where
  "base64_encode [] = []"
| "base64_encode [a] = [base64_char (byte a div 4), base64_char (byte a mod 4 * 16), CHR ''='', CHR ''='']"
| "base64_encode [a, b] =
     [base64_char (byte a div 4), base64_char (byte a mod 4 * 16 + byte b div 16), base64_char (byte b mod 16 * 4), CHR ''='']"
| "base64_encode (a # b # c # s) =
     base64_char (byte a div 4) # base64_char (byte a mod 4 * 16 + byte b div 16) #
     base64_char (byte b mod 16 * 4 + byte c div 64) # base64_char (byte c mod 64) # base64_encode s"

text \<open>The reading side: the position in the alphabet, and the bytes of each group of four.\<close>

fun index_of :: "'a \<Rightarrow> 'a list \<Rightarrow> nat option" where
  "index_of x [] = None"
| "index_of x (y # ys) = (if x = y then Some 0 else map_option Suc (index_of x ys))"

definition base64_value :: "char \<Rightarrow> nat option" where
  "base64_value c = index_of c base64_alphabet"

fun base64_decode :: "string \<Rightarrow> string option" where
  "base64_decode [] = Some []"
| "base64_decode (p # q # r # t # s) =
     (case (base64_value p, base64_value q) of
        (Some i, Some j) \<Rightarrow>
          let a = char_of (i * 4 + j div 16)
          in (case (base64_value r, base64_value t) of
                (Some k, Some l) \<Rightarrow>
                  map_option (\<lambda>out. a # char_of (j mod 16 * 16 + k div 4) # char_of (k mod 4 * 64 + l) # out) (base64_decode s)
              | (Some k, None) \<Rightarrow>
                  if t = CHR ''='' \<and> s = [] then Some [a, char_of (j mod 16 * 16 + k div 4)] else None
              | (None, _) \<Rightarrow> if r = CHR ''='' \<and> t = CHR ''='' \<and> s = [] then Some [a] else None)
      | _ \<Rightarrow> None)"
| "base64_decode _ = None"

section \<open>SHA-256\<close>

text \<open>
  The round constants and the initial state are the first 32 bits of the fractions of the cube roots of the first 64
  primes and of the square roots of the first eight. The root is built bit by bit.
\<close>

definition first_primes :: "nat list" where
  "first_primes = [
    2, 3, 5, 7, 11, 13, 17, 19, 23, 29, 31, 37, 41, 43, 47, 53, 59, 61, 67, 71, 73, 79,
    83, 89, 97, 101, 103, 107, 109, 113, 127, 131, 137, 139, 149, 151, 157, 163, 167, 173, 179, 181, 191, 193,
    197, 199, 211, 223, 227, 229, 233, 239, 241, 251, 257, 263, 269, 271, 277, 281, 283, 293, 307, 311]"

definition root_bit :: "nat \<Rightarrow> nat \<Rightarrow> nat \<Rightarrow> nat \<Rightarrow> nat" where
  "root_bit k n i r = (let c = r + 2 ^ i in if c ^ k \<le> n then c else r)"

definition int_root :: "nat \<Rightarrow> nat \<Rightarrow> nat" where
  "int_root k n = fold (root_bit k n) (rev [0..<36]) 0"

definition sha256_K :: "32 word list" where
  "sha256_K = map (\<lambda>p. word_of_nat (int_root 3 (p * 2 ^ 96))) first_primes"

definition sha256_H :: "32 word list" where
  "sha256_H = map (\<lambda>p. word_of_nat (int_root 2 (p * 2 ^ 64))) (take 8 first_primes)"

fun be32 :: "string \<Rightarrow> 32 word list" where
  "be32 (a # b # c # d # s) =
     word_of_nat (byte a * 16777216 + byte b * 65536 + byte c * 256 + byte d) # be32 s"
| "be32 _ = []"

definition be_bytes :: "nat \<Rightarrow> nat \<Rightarrow> string" where
  "be_bytes k n = map (\<lambda>i. char_of (n div 256 ^ i)) (rev [0..<k])"

definition rotr :: "nat \<Rightarrow> 32 word \<Rightarrow> 32 word" where
  "rotr n x = drop_bit n x OR push_bit (32 - n) x"

text \<open>The padding: a one bit, zeros up to eight bytes before the end of a block, the length in bits.\<close>

definition sha256_pad :: "string \<Rightarrow> string" where
  "sha256_pad s = s @ char_of (128::nat) # replicate ((119 - length s mod 64) mod 64) (char_of (0::nat)) @ be_bytes 8 (8 * length s)"

text \<open>The message schedule, newest word first.\<close>

definition sha256_extend :: "32 word list \<Rightarrow> 32 word list" where
  "sha256_extend ws =
     (let w2 = ws ! 1; w7 = ws ! 6; w15 = ws ! 14; w16 = ws ! 15;
          s0 = rotr 7 w15 XOR rotr 18 w15 XOR drop_bit 3 w15;
          s1 = rotr 17 w2 XOR rotr 19 w2 XOR drop_bit 10 w2
      in (w16 + s0 + w7 + s1) # ws)"

definition sha256_schedule :: "32 word list \<Rightarrow> 32 word list" where
  "sha256_schedule block = rev ((sha256_extend ^^ 48) (rev block))"

fun sha256_round :: "32 word \<times> 32 word \<Rightarrow> 32 word list \<Rightarrow> 32 word list" where
  "sha256_round (k, w) [a, b, c, d, e, f, g, h] =
     (let t1 = h + (rotr 6 e XOR rotr 11 e XOR rotr 25 e) + ((e AND f) XOR (NOT e AND g)) + k + w;
          t2 = (rotr 2 a XOR rotr 13 a XOR rotr 22 a) + ((a AND b) XOR (a AND c) XOR (b AND c))
      in [t1 + t2, a, b, c, d + t1, e, f, g])"
| "sha256_round _ hs = hs"

definition sha256_block :: "32 word list \<Rightarrow> 32 word list \<Rightarrow> 32 word list" where
  "sha256_block block hs = map2 (+) hs (fold sha256_round (zip sha256_K (sha256_schedule block)) hs)"

function sha256_blocks :: "32 word list \<Rightarrow> 32 word list \<Rightarrow> 32 word list" where
  "sha256_blocks ws hs = (if length ws < 16 then hs else sha256_blocks (drop 16 ws) (sha256_block (take 16 ws) hs))"
  by auto
termination by (relation "measure (\<lambda>(ws, _). length ws)") auto

declare sha256_blocks.simps [simp del]

definition sha256_Sum :: "string \<Rightarrow> string" where
  "sha256_Sum s = concat (map (\<lambda>w. be_bytes 4 (unat w)) (sha256_blocks (be32 (sha256_pad s)) sha256_H))"

text \<open>HMAC with SHA-256, whose block is 64 bytes.\<close>

definition xor_byte :: "nat \<Rightarrow> char \<Rightarrow> char" where
  "xor_byte n c = char_of (byte c XOR n)"

definition hmac_sha256 :: "string \<Rightarrow> string \<Rightarrow> string" where
  "hmac_sha256 key msg =
     (let k = (if 64 < length key then sha256_Sum key else key);
          kp = k @ replicate (64 - length k) (char_of (0::nat))
      in sha256_Sum (map (xor_byte 92) kp @ sha256_Sum (map (xor_byte 54) kp @ msg)))"

section \<open>What they write\<close>

lemma byte_less [simp]: "byte c < 256"
  by (simp add: byte_def)

lemma char_of_byte [simp]: "char_of (byte c) = c"
  by (simp add: byte_def)

lemma hex_digit_in: "n < 16 \<Longrightarrow> hex_digit n \<in> set hex_alphabet"
  unfolding hex_digit_def by (rule nth_mem) (simp add: hex_alphabet_def)

lemma byte_div:
  "byte a div 4 < 64" "byte a div 16 < 16" "byte a div 64 < 4"
  by (simp_all add: less_mult_imp_div_less)

lemma set_hex: "set (hex s) \<subseteq> set hex_alphabet"
  by (induction s) (simp_all add: hex_def hex_digit_in byte_div)

lemma length_alphabet [simp]: "length base64_alphabet = 64"
  by (simp add: base64_alphabet_def)

lemma base64_char_in: "n < 64 \<Longrightarrow> base64_char n \<in> set base64_alphabet"
  unfolding base64_char_def by (rule nth_mem) simp

lemma pack_less: "a < m \<Longrightarrow> b < k \<Longrightarrow> a * k + b < m * (k::nat)"
proof -
  assume "a < m" "b < k"
  then have "a * k + b < Suc a * k" by simp
  also have "\<dots> \<le> m * k" using \<open>a < m\<close> by (intro mult_le_mono1) simp
  finally show ?thesis .
qed

lemma base64_groups:
  "byte a div 4 < 64" "byte a mod 4 * 16 < 64" "byte a mod 4 * 16 + byte b div 16 < 64" "byte b mod 16 * 4 < 64"
  "byte b mod 16 * 4 + byte c div 64 < 64" "byte c mod 64 < 64"
  using pack_less [of "byte a mod 4" 4 "byte b div 16" 16] pack_less [of "byte b mod 16" 16 "byte c div 64" 4]
    pack_less [of "byte a mod 4" 4 0 16] pack_less [of "byte b mod 16" 16 0 4]
  by (simp_all add: byte_div)

lemma set_base64_encode: "set (base64_encode s) \<subseteq> insert (CHR ''='') (set base64_alphabet)"
  by (induction s rule: base64_encode.induct) (auto intro!: base64_char_in base64_groups)

lemma length_base64_encode: "length (base64_encode s) = 4 * ((length s + 2) div 3)"
proof (induction s rule: base64_encode.induct)
  case (4 a b c s)
  have "length (a # b # c # s) + 2 = length s + 2 + 3" by simp
  then have "(length (a # b # c # s) + 2) div 3 = Suc ((length s + 2) div 3)" by (simp only: div_add_self2)
  with 4 show ?case by (simp del: add_2_eq_Suc')
qed simp_all

lemma index_of_nth: "distinct xs \<Longrightarrow> n < length xs \<Longrightarrow> index_of (xs ! n) xs = Some n"
  by (induction xs arbitrary: n) (auto simp: nth_Cons split: nat.splits)

lemma base64_value_char [simp]: "n < 64 \<Longrightarrow> base64_value (base64_char n) = Some n"
  unfolding base64_value_def base64_char_def
  by (rule index_of_nth) (simp_all add: base64_alphabet_def)

lemma base64_value_pad [simp]: "base64_value (CHR ''='') = None"
  by (simp add: base64_value_def base64_alphabet_def)

lemma byte_regroup:
  "byte a div 4 * 4 + (byte a mod 4 * 16 + byte b div 16) div 16 = byte a"
  "byte a div 4 * 4 + byte a mod 4 * 16 div 16 = byte a"
  "(byte a mod 4 * 16 + byte b div 16) mod 16 * 16 + (byte b mod 16 * 4 + byte c div 64) div 4 = byte b"
  "(byte a mod 4 * 16 + byte b div 16) mod 16 * 16 + byte b mod 16 * 4 div 4 = byte b"
  "(byte b mod 16 * 4 + byte c div 64) mod 4 * 64 + byte c mod 64 = byte c"
  by (simp_all add: byte_div)

text \<open>What \<^verbatim>\<open>EncodeToString\<close> writes can be read back.\<close>

lemma base64_decode_encode: "base64_decode (base64_encode s) = Some s"
  by (induction s rule: base64_encode.induct) (simp_all add: base64_groups byte_regroup byte_div Let_def)

text \<open>A digest has 32 bytes, so a signature has 44 characters.\<close>

lemma length_sha256_round: "length hs = 8 \<Longrightarrow> length (sha256_round p hs) = 8"
  by (cases "(p, hs)" rule: sha256_round.cases) (simp_all add: Let_def)

lemma length_sha256_rounds: "length hs = 8 \<Longrightarrow> length (fold sha256_round ps hs) = 8"
  by (induction ps arbitrary: hs) (simp_all add: length_sha256_round)

lemma length_sha256_blocks: "length hs = 8 \<Longrightarrow> length (sha256_blocks ws hs) = 8"
proof (induction ws hs rule: sha256_blocks.induct)
  case (1 ws hs)
  then show ?case by (subst sha256_blocks.simps) (simp add: sha256_block_def length_sha256_rounds)
qed

lemma length_sha256_Sum [simp]: "length (sha256_Sum s) = 32"
proof -
  have "length (sha256_blocks (be32 (sha256_pad s)) sha256_H) = 8"
    by (rule length_sha256_blocks) (simp add: sha256_H_def first_primes_def)
  moreover have "length (concat (map (\<lambda>w::32 word. be_bytes 4 (unat w)) ws)) = 4 * length ws" for ws
    by (induction ws) (simp_all add: be_bytes_def)
  ultimately show ?thesis by (simp add: sha256_Sum_def)
qed

text \<open>The padded message is a whole number of blocks.\<close>

lemma pad_block: "(n + (9 + (119 - n mod 64) mod 64)) mod 64 = (0::nat)"
proof -
  define q r where "q = n div 64" and "r = n mod 64"
  then have n: "n = 64 * q + r" and r: "r < 64" and m: "n mod 64 = r" by simp_all
  show ?thesis
  proof (cases "r \<le> 55")
    case True
    then have "119 - r = 55 - r + 64" by simp
    then have e: "(119 - r) mod 64 = 55 - r" using r by (simp only: mod_add_self2) simp
    have "n + (9 + (119 - n mod 64) mod 64) = 64 * (q + 1)" unfolding m e using n True by arith
    then show ?thesis by (simp only: mod_mult_self1_is_0)
  next
    case False
    then have e: "(119 - r) mod 64 = 119 - r" by simp
    have "n + (9 + (119 - n mod 64) mod 64) = 64 * (q + 2)" unfolding m e using n r by arith
    then show ?thesis by (simp only: mod_mult_self1_is_0)
  qed
qed

lemma length_sha256_pad: "length (sha256_pad s) mod 64 = 0"
proof -
  have "length (sha256_pad s) = length s + (9 + (119 - length s mod 64) mod 64)"
    by (simp add: sha256_pad_def be_bytes_def)
  then show ?thesis by (simp only: pad_block)
qed

lemma length_hmac_sha256 [simp]: "length (hmac_sha256 key msg) = 32"
  by (simp add: hmac_sha256_def Let_def)

end
