(* ===== verification/Process_Demos.thy ===== *)
theory Process_Demos
  imports File_Server
begin

text \<open>
  Programs about a process rather than a service: the signal handler (\<^verbatim>\<open>signal\<close>), the service group
  (\<^verbatim>\<open>servicegroup\<close>), the overloaded server behind the breaker client (\<^verbatim>\<open>http/breaker/server.go\<close>), the request
  schedule of the load test (\<^verbatim>\<open>load/main.go\<close>) and the jobs of the timing wheel test (\<^verbatim>\<open>timingwheel\<close>).
\<close>

section \<open>Signals\<close>

datatype signal = SIGUSR1 | SIGTERM | OtherSignal nat

text \<open>
  The signal goroutine waits at the channel or sleeps in \<^verbatim>\<open>gracefulStop\<close>. The channel has room for one signal
  and \<^verbatim>\<open>Notify\<close> drops what does not fit. Without \<^verbatim>\<open>Notify\<close> a signal has its default action,
  which ends the process (other signals here are those with such a default).
\<close>

datatype sig_pc = SigWait | SigSleep

record sig_proc =
  sp_chan :: "signal list"
  sp_notify :: bool
  sp_at :: sig_pc
  sp_alive :: bool
  sp_fs :: fs
  sp_log :: "(log_level \<times> string) list"

definition signal_init :: "fs \<Rightarrow> sig_proc" where
  "signal_init f = \<lparr>sp_chan = [], sp_notify = True, sp_at = SigWait, sp_alive = True, sp_fs = f, sp_log = []\<rparr>"

definition deliver :: "signal \<Rightarrow> sig_proc \<Rightarrow> sig_proc" where
  "deliver v s =
     (if \<not> sp_alive s then s
      else if sp_notify s \<and> (v = SIGUSR1 \<or> v = SIGTERM)
      then (if sp_chan s = [] then s\<lparr>sp_chan := [v]\<rparr> else s)
      else s\<lparr>sp_alive := False\<rparr>)"

text \<open>What the process sees of its surroundings: its command line, id, temporary directory, clock and profile.\<close>

record proc_env =
  Arg0 :: string
  Pid :: nat
  TempDir :: string
  NowText :: string
  Profile :: string

definition dump_file :: "proc_env \<Rightarrow> string" where
  "dump_file e = (let command = filepath_Base (Arg0 e)
     in path_Join [TempDir e, command @ ''-'' @ nat_digits (Pid e) @ ''-goroutines-'' @ NowText e @ ''.dump''])"

definition dumpGoroutines :: "proc_env \<Rightarrow> sig_proc \<Rightarrow> sig_proc" where
  "dumpGoroutines e s =
     (let dumpFile = dump_file e;
          s = s\<lparr>sp_log := sp_log s @ [(LInfo, ''Got dump goroutine signal, printing goroutine profile to '' @ dumpFile)]\<rparr>
      in case os_Create dumpFile (sp_fs s) of
           (f, Inl err) \<Rightarrow> s\<lparr>sp_fs := f, sp_log := sp_log s @ [(LError, ''Failed to dump goroutine profile, error: '' @ err_text err)]\<rparr>
         | (f, Inr q) \<Rightarrow> s\<lparr>sp_fs := io_Copy q (Profile e) f\<rparr>)"

definition gracefulStop_begin :: "sig_proc \<Rightarrow> sig_proc" where
  "gracefulStop_begin s =
     s\<lparr>sp_notify := False, sp_log := sp_log s @ [(LInfo, ''Got signal SIGTERM, shutting down...'')], sp_at := SigSleep\<rparr>"

definition gracefulStop_end :: "sig_proc \<Rightarrow> sig_proc" where
  "gracefulStop_end s =
     deliver SIGTERM (s\<lparr>sp_log := sp_log s @ [(LInfo, ''Still alive after 5s, going to force kill the process...'')]\<rparr>)"

definition signal_loop :: "proc_env \<Rightarrow> sig_proc \<Rightarrow> sig_proc" where
  "signal_loop e s =
     (if \<not> sp_alive s then s
      else case sp_at s of
        SigSleep \<Rightarrow> gracefulStop_end s
      | SigWait \<Rightarrow>
          (case sp_chan s of
             [] \<Rightarrow> s
           | v # vs \<Rightarrow>
               let s = s\<lparr>sp_chan := vs\<rparr>
               in case v of
                    SIGUSR1 \<Rightarrow> dumpGoroutines e s
                  | SIGTERM \<Rightarrow> gracefulStop_begin s
                  | OtherSignal _ \<Rightarrow> s\<lparr>sp_log := sp_log s @ [(LError, ''Got unregistered signal:'')]\<rparr>))"

text \<open>Signals arrive, the goroutine runs, and the main function ends the process when a line is entered.\<close>

inductive signal_step :: "sig_proc \<Rightarrow> sig_proc \<Rightarrow> bool" where
  arrive: "signal_step s (deliver v s)"
| goroutine: "signal_step s (signal_loop e s)"
| enter: "signal_step s (s\<lparr>sp_alive := False\<rparr>)"

inductive_cases signal_stepE: "signal_step s t"

definition signal_inv :: "sig_proc \<Rightarrow> bool" where
  "signal_inv s \<longleftrightarrow> set (sp_chan s) \<subseteq> {SIGUSR1, SIGTERM} \<and> length (sp_chan s) \<le> 1 \<and> (sp_notify s \<longleftrightarrow> sp_at s = SigWait) \<and>
     (LError, ''Got unregistered signal:'') \<notin> set (sp_log s)"

lemmas signal_defs = signal_loop_def deliver_def dumpGoroutines_def gracefulStop_begin_def gracefulStop_end_def Let_def

lemma signal_inv_step: "signal_inv s \<Longrightarrow> signal_step s t \<Longrightarrow> signal_inv t"
  by (erule signal_stepE)
    (auto simp: signal_inv_def signal_defs split: if_splits sig_pc.splits list.splits signal.splits prod.splits sum.splits)

interpretation signals: machine "\<lambda>s. \<exists>f. s = signal_init f" signal_step signal_inv
proof unfold_locales
  show "\<exists>f. s = signal_init f \<Longrightarrow> signal_inv s" for s by (auto simp: signal_init_def signal_inv_def)
  show "signal_inv s \<Longrightarrow> signal_step s t \<Longrightarrow> signal_inv t" for s t by (rule signal_inv_step)
qed

text \<open>
  Once \<^verbatim>\<open>SIGTERM\<close> is in the channel the process is gone after two turns of the goroutine, whatever signals
  arrive in between, and a second one during the sleep ends it at once.
\<close>

lemma dead_stays: "\<not> sp_alive s \<Longrightarrow> \<not> sp_alive (signal_loop e s) \<and> deliver v s = s"
  by (simp add: signal_loop_def deliver_def)

lemma dead_deliver: "\<not> sp_alive s \<Longrightarrow> fold deliver vs s = s"
  by (induction vs) (simp_all add: deliver_def)

lemma sigterm_ends:
  assumes "signal_step\<^sup>*\<^sup>* (signal_init f) s" "SIGTERM \<in> set (sp_chan s)" "sp_at s = SigWait"
  shows "\<not> sp_alive (signal_loop e2 (fold deliver vs (signal_loop e1 s)))"
proof -
  have "signal_inv s" using signals.inv_reachable assms(1) by blast
  with assms(2) have c: "sp_chan s = [SIGTERM]" by (cases "sp_chan s") (auto simp: signal_inv_def)
  have n: "sp_alive (signal_loop e1 s) \<Longrightarrow> \<not> sp_notify (signal_loop e1 s) \<and> sp_at (signal_loop e1 s) = SigSleep"
    using c assms(3) by (auto simp: signal_loop_def gracefulStop_begin_def Let_def split: if_splits)
  have "fold deliver vs t = t \<or> \<not> sp_alive (fold deliver vs t)" if "sp_alive t \<Longrightarrow> \<not> sp_notify t" for t
    using that by (cases vs; cases "sp_alive t") (simp_all add: dead_deliver deliver_def)
  from this [of "signal_loop e1 s"] n show ?thesis
    by (auto simp: signal_loop_def [of e2] gracefulStop_end_def deliver_def dead_stays split: if_splits)
qed

section \<open>The service group\<close>

text \<open>
  \<^verbatim>\<open>http.HandleFunc\<close> registers with the process's default multiplexer and panics on a path that is taken;
  \<^verbatim>\<open>ListenAndServe\<close> without a handler serves that multiplexer on its address.
\<close>

record mux_state =
  mux :: "(string \<times> string) list"
  listening :: "string list"

definition HandleFunc :: "string \<Rightarrow> string \<Rightarrow> mux_state \<Rightarrow> mux_state option" where
  "HandleFunc p body s = (if p \<in> fst ` set (mux s) then None else Some (s\<lparr>mux := mux s @ [(p, body)]\<rparr>))"

definition morning :: string where "morning = ''morning!'' @ [CHR 0x0A]"

definition evening :: string where "evening = ''evening!'' @ [CHR 0x0A]"

definition Morning_Start :: "mux_state \<Rightarrow> mux_state option" where
  "Morning_Start s =
     Option.bind (HandleFunc ''/morning'' morning s) (\<lambda>s. Some (s\<lparr>listening := listening s @ [''localhost:8080'']\<rparr>))"

definition Evening_Start :: "mux_state \<Rightarrow> mux_state option" where
  "Evening_Start s =
     Option.bind (HandleFunc ''/evening'' evening s) (\<lambda>s. Some (s\<lparr>listening := listening s @ [''localhost:8081'']\<rparr>))"

definition group_answer :: "mux_state \<Rightarrow> string \<Rightarrow> string \<Rightarrow> string option" where
  "group_answer s addr p = (if addr \<in> set (listening s) then map_of (mux s) p else None)"

text \<open>Both services share the multiplexer: in either order of starting, each port answers both paths.\<close>

lemma group_shares_mux:
  assumes "start \<in> {\<lambda>s. Option.bind (Morning_Start s) Evening_Start, \<lambda>s. Option.bind (Evening_Start s) Morning_Start}"
  shows "\<exists>s. start \<lparr>mux = [], listening = []\<rparr> = Some s \<and>
    (\<forall>addr \<in> {''localhost:8080'', ''localhost:8081''}.
       group_answer s addr ''/morning'' = Some morning \<and> group_answer s addr ''/evening'' = Some evening)"
  using assms by (auto simp: Morning_Start_def Evening_Start_def HandleFunc_def group_answer_def)

section \<open>The overloaded server\<close>

text \<open>
  The latch is the library's: \<open>held\<close> counts the borrows not yet returned, of which there are \<open>n\<close> at most.
\<close>

record 'l latch_lib =
  NewLimit :: "nat \<Rightarrow> 'l"
  TryBorrow :: "'l \<Rightarrow> 'l \<times> bool"
  Return :: "'l \<Rightarrow> 'l"

definition latch_ok :: "'l latch_lib \<Rightarrow> (nat \<Rightarrow> 'l \<Rightarrow> nat \<Rightarrow> bool) \<Rightarrow> bool" where
  "latch_ok L holds \<longleftrightarrow> (\<forall>n. holds n (NewLimit L n) 0) \<and>
     (\<forall>n l k. holds n l k \<longrightarrow> k \<le> n \<and>
        (k < n \<longrightarrow> (\<exists>l'. TryBorrow L l = (l', True) \<and> holds n l' (Suc k))) \<and>
        (k = n \<longrightarrow> (\<exists>l'. TryBorrow L l = (l', False) \<and> holds n l' k)) \<and>
        (0 < k \<longrightarrow> holds n (Return L l) (k - 1)))"

text \<open>The server: its latch, the requests spinning for 50 milliseconds, and the status of every answer.\<close>

record 'l heavy_server =
  hv_latch :: 'l
  hv_spinning :: nat
  hv_answers :: "nat list"

datatype heavy_event = HeavyArrives | HeavyTimeUp | GoodArrives

definition heavy_start :: "'l latch_lib \<Rightarrow> 'l heavy_server" where
  "heavy_start L = \<lparr>hv_latch = NewLimit L 10, hv_spinning = 0, hv_answers = []\<rparr>"

fun heavy_step :: "'l latch_lib \<Rightarrow> heavy_event \<Rightarrow> 'l heavy_server \<Rightarrow> 'l heavy_server" where
  "heavy_step L HeavyArrives s =
     (case TryBorrow L (hv_latch s) of
        (l, True) \<Rightarrow> s\<lparr>hv_latch := l, hv_spinning := Suc (hv_spinning s)\<rparr>
      | (l, False) \<Rightarrow> s\<lparr>hv_latch := l, hv_answers := hv_answers s @ [500]\<rparr>)"
| "heavy_step L HeavyTimeUp s =
     (if hv_spinning s = 0 then s
      else s\<lparr>hv_latch := Return L (hv_latch s), hv_spinning := hv_spinning s - 1, hv_answers := hv_answers s @ [200]\<rparr>)"
| "heavy_step L GoodArrives s = s\<lparr>hv_answers := hv_answers s @ [200]\<rparr>"

lemma heavy_run:
  assumes "latch_ok L holds" "holds 10 (hv_latch s) (hv_spinning s)"
  shows "holds 10 (hv_latch (fold (heavy_step L) es s)) (hv_spinning (fold (heavy_step L) es s))"
  using assms(2)
proof (induction es arbitrary: s)
  case (Cons e es)
  have k: "hv_spinning s \<le> 10" using assms(1) Cons.prems unfolding latch_ok_def by blast
  have "holds 10 (hv_latch (heavy_step L e s)) (hv_spinning (heavy_step L e s))"
  proof (cases e)
    case HeavyArrives
    show ?thesis
    proof (cases "hv_spinning s < 10")
      case True
      then obtain l where "TryBorrow L (hv_latch s) = (l, True)" "holds 10 l (Suc (hv_spinning s))"
        using assms(1) Cons.prems unfolding latch_ok_def by blast
      with HeavyArrives show ?thesis by simp
    next
      case False
      with k have "hv_spinning s = 10" by simp
      then obtain l where "TryBorrow L (hv_latch s) = (l, False)" "holds 10 l (hv_spinning s)"
        using assms(1) Cons.prems unfolding latch_ok_def by metis
      with HeavyArrives show ?thesis by simp
    qed
  next
    case HeavyTimeUp
    with assms(1) Cons.prems show ?thesis by (auto simp: latch_ok_def)
  qed (use Cons.prems in simp)
  with Cons.IH show ?case by simp
qed simp

text \<open>Never more than ten heavy requests spin at once, and one is refused exactly when ten do.\<close>

lemma heavy_bounded:
  assumes "latch_ok L holds" and s_def: "s = fold (heavy_step L) es (heavy_start L)"
  shows "hv_spinning s \<le> 10 \<and>
    hv_answers (heavy_step L HeavyArrives s) = hv_answers s @ (if hv_spinning s = 10 then [500] else [])"
proof -
  have h: "holds 10 (hv_latch s) (hv_spinning s)"
  proof -
    have "holds 10 (NewLimit L 10) 0" using assms(1) unfolding latch_ok_def by blast
    then show ?thesis unfolding s_def by (intro heavy_run [OF assms(1)]) (simp add: heavy_start_def)
  qed
  then have k: "hv_spinning s \<le> 10" using assms(1) unfolding latch_ok_def by blast
  show ?thesis
  proof (cases "hv_spinning s = 10")
    case True
    with h obtain l where "TryBorrow L (hv_latch s) = (l, False)" using assms(1) unfolding latch_ok_def by metis
    with True show ?thesis by simp
  next
    case False
    with k h obtain l where "TryBorrow L (hv_latch s) = (l, True)" using assms(1) unfolding latch_ok_def by (metis le_neq_implies_less)
    with False k show ?thesis by simp
  qed
qed

section \<open>The load test's schedule\<close>

text \<open>The goroutines a batch starts, each with the next value of the shared 32-bit index, in the order of the
  increments.\<close>

definition load_factor :: nat where "load_factor = 5"

definition batchRequests :: "nat \<Rightarrow> 32 word \<Rightarrow> 32 word \<times> 32 word list" where
  "batchRequests i index =
     (let requests = (i + 1) * load_factor
      in (index + of_nat requests, map (\<lambda>j. index + of_nat (Suc j)) [0..<requests]))"

fun run_batches :: "nat list \<Rightarrow> 32 word \<Rightarrow> 32 word list" where
  "run_batches [] index = []"
| "run_batches (i # is) index = (case batchRequests i index of (index, ids) \<Rightarrow> ids @ run_batches is index)"

definition load_main :: "nat \<Rightarrow> 32 word list" where
  "load_main seconds = run_batches ([0..<seconds] @ rev [1..<seconds + 1]) 0"

definition ids_from :: "32 word \<Rightarrow> nat \<Rightarrow> 32 word list" where
  "ids_from index n = map (\<lambda>j. index + of_nat (Suc j)) [0..<n]"

lemma ids_from_append: "ids_from index (n + m) = ids_from index n @ ids_from (index + of_nat n) m"
proof -
  have "[n..<n + m] = map (\<lambda>j. j + n) [0..<m]" by (simp add: map_add_upt add.commute)
  then have "[0..<n + m] = [0..<n] @ map (\<lambda>j. j + n) [0..<m]" using upt_add_eq_append [of 0 n m] by simp
  then show ?thesis by (simp add: ids_from_def comp_def add_ac)
qed

lemma run_batches_ids: "run_batches is index = ids_from index (sum_list (map (\<lambda>i. (i + 1) * load_factor) is))"
proof (induction "is" arbitrary: index)
  case (Cons i ks)
  have b: "batchRequests i index = (index + of_nat ((i + 1) * load_factor), ids_from index ((i + 1) * load_factor))"
    by (simp add: batchRequests_def ids_from_def Let_def)
  show ?case by (simp only: run_batches.simps b prod.case Cons.IH list.map sum_list.Cons ids_from_append)
qed (simp add: ids_from_def)

lemma load_total: "sum_list (map (\<lambda>i. (i + 1) * load_factor) ([0..<s] @ rev [1..<s + 1])) = 5 * s * (s + 2)"
  by (induction s) (simp_all add: load_factor_def algebra_simps)

text \<open>
  Over \<open>s\<close> seconds up and down the test issues \<open>5 * s * (s + 2)\<close> requests, numbered from one; with the default of
  400 seconds these are 804000, all different and far from the end of the 32-bit index.
\<close>

lemma load_main_ids: "load_main s = map (\<lambda>j. of_nat (Suc j)) [0..<5 * s * (s + 2)]"
  unfolding load_main_def run_batches_ids load_total by (simp add: ids_from_def)

lemma load_main_distinct:
  assumes "5 * s * (s + 2) < 2 ^ 32"
  shows "distinct (load_main s)"
proof -
  have "inj_on (\<lambda>j. of_nat (Suc j) :: 32 word) {0..<5 * s * (s + 2)}"
  proof (rule inj_onI)
    fix x y assume a: "x \<in> {0..<5 * s * (s + 2)}" "y \<in> {0..<5 * s * (s + 2)}" "(of_nat (Suc x) :: 32 word) = of_nat (Suc y)"
    then have "Suc x < 2 ^ 32" "Suc y < 2 ^ 32" using assms by simp_all
    then have "unat (of_nat (Suc x) :: 32 word) = Suc x" "unat (of_nat (Suc y) :: 32 word) = Suc y"
      unfolding unat_of_nat by simp_all
    with a(3) show "x = y" by (metis Suc_inject)
  qed
  then show ?thesis unfolding load_main_ids by (simp add: distinct_map)
qed

section \<open>The timing wheel's jobs\<close>

definition wheel_job :: "64 word \<Rightarrow> 64 word \<times> 64 word list" where
  "wheel_job count = (let v = count + 1 in (v, if v mod 10000 = 0 then [v] else []))"

fun wheel_jobs :: "nat \<Rightarrow> 64 word \<Rightarrow> 64 word \<times> 64 word list" where
  "wheel_jobs 0 count = (count, [])"
| "wheel_jobs (Suc n) count = (case wheel_job count of (c, p) \<Rightarrow> (case wheel_jobs n c of (c', ps) \<Rightarrow> (c', p @ ps)))"

definition toMiB :: "64 word \<Rightarrow> 64 word" where
  "toMiB b = b div 1024 div 1024"

lemma toMiB_nat: "unat (toMiB b) = unat b div 2 ^ 20"
  by (simp add: toMiB_def unat_div div_mult2_eq [symmetric])

text \<open>The count is the number of jobs, and what is printed are the multiples of ten thousand it passed.\<close>

lemma wheel_jobs_prints:
  "fst (wheel_jobs n c) = c + of_nat n \<and>
   snd (wheel_jobs n c) = filter (\<lambda>v. v mod 10000 = 0) (map (\<lambda>j. c + of_nat (Suc j)) [0..<n])"
proof (induction n arbitrary: c)
  case (Suc n)
  have "map (\<lambda>j. c + of_nat (Suc j)) [0..<Suc n] = (c + 1) # map (\<lambda>j. c + 1 + of_nat (Suc j)) [0..<n]"
    unfolding upt_conv_Cons [OF zero_less_Suc] by (simp add: map_Suc_upt [symmetric] comp_def ac_simps del: upt_Suc)
  with Suc.IH [of "c + 1"] show ?case by (auto simp: wheel_job_def Let_def split: prod.splits simp del: upt_Suc)
qed simp

end
