(* ===== verification/Chat_Hub.thy ===== *)
theory Chat_Hub
  imports Go_Prelude
begin

text \<open>
  The chat server: \<^verbatim>\<open>chat/internal/hub.go\<close>, \<^verbatim>\<open>chat/internal/client.go\<close> and the home page
  handler of \<^verbatim>\<open>chat/main.go\<close>. One goroutine runs the hub; each websocket connection has the
  goroutine of its HTTP handler (\<open>ServeWs\<close>), a \<open>readPump\<close> and a \<open>writePump\<close>. The theory models
  each goroutine's program points, the hub's client map, each client's buffered \<open>send\<close> channel and
  the websocket frames written, as a step relation \<open>chat_step\<close> that interleaves the goroutines
  between their channel operations. A pointer \<^verbatim>\<open>*Client\<close> is a number.

  The websocket library is not part of the sources: what it returns (a message, an error, a failed
  write) is chosen freely in each step, so every theorem holds whatever the peer and the network do.
  Deadlines and the ticker only decide when a step happens and are not part of the state.
\<close>

section \<open>Constants and data\<close>

type_synonym client_id = nat
type_synonym msg = string

text \<open>Durations are nanoseconds, \<^verbatim>\<open>time.Second\<close> is \<open>10 ^ 9\<close>.\<close>

definition second :: int where "second = 1000000000"
definition writeWait :: int where "writeWait = 10 * second"
definition pongWait :: int where "pongWait = 60 * second"
definition pingPeriod :: int where "pingPeriod = (pongWait * 9) div 10"
definition maxMessageSize :: nat where "maxMessageSize = 512"
definition bufSize :: nat where "bufSize = 256"

datatype frame = TextFrame string | CloseFrame | PingFrame

text \<open>Program points of the goroutines, between two channel or connection operations.\<close>

datatype hub_pc = HubSelect | HubRange msg "client_id list"

datatype serve_pc = ServeIdle | ServeRegister | ServeSpawnWrite | ServeSpawnRead | ServeDone

datatype read_pc = ReadIdle | ReadSetup | ReadLoop | ReadSend msg | ReadUnregister | ReadClose | ReadDone

datatype write_pc = WriteIdle | WriteSelect | WriteDrain nat string | WriteExit | WriteDone

text \<open>
  \<open>delivered\<close> is a history variable, written and never read by the steps: the messages the hub has
  put into a client's channel.
\<close>

record chat_state =
  clients :: "client_id \<rightharpoonup> bool"
  hub_at :: hub_pc
  send :: "client_id \<Rightarrow> msg chan"
  conn_open :: "client_id \<Rightarrow> bool"
  read_limit :: "client_id \<Rightarrow> nat"
  frames :: "client_id \<Rightarrow> frame list"
  serve :: "client_id \<Rightarrow> serve_pc"
  reader :: "client_id \<Rightarrow> read_pc"
  writer :: "client_id \<Rightarrow> write_pc"
  logged :: "go_error list"
  crashed :: "go_panic option"
  delivered :: "client_id \<Rightarrow> msg list"

definition NewHub :: chat_state where
  "NewHub = \<lparr>clients = Map.empty, hub_at = HubSelect, send = (\<lambda>_. make_chan bufSize),
     conn_open = (\<lambda>_. False), read_limit = (\<lambda>_. 0), frames = (\<lambda>_. []), serve = (\<lambda>_. ServeIdle),
     reader = (\<lambda>_. ReadIdle), writer = (\<lambda>_. WriteIdle), logged = [], crashed = None,
     delivered = (\<lambda>_. [])\<rparr>"

section \<open>The hub\<close>

text \<open>The three cases of the \<^verbatim>\<open>select\<close> in \<open>Hub.Run\<close>.\<close>

definition hub_register :: "client_id \<Rightarrow> chat_state \<Rightarrow> chat_state" where
  "hub_register c s = s\<lparr>clients := (clients s)(c \<mapsto> True)\<rparr>"

definition hub_unregister :: "client_id \<Rightarrow> chat_state \<Rightarrow> go_panic + chat_state" where
  "hub_unregister c s =
     (case clients s c of
        None \<Rightarrow> Inr s
      | Some _ \<Rightarrow>
          (let s = s\<lparr>clients := (clients s)(c := None)\<rparr>
           in case chan_close (send s c) of
                Inl p \<Rightarrow> Inl p
              | Inr ch \<Rightarrow> Inr (s\<lparr>send := (send s)(c := ch)\<rparr>)))"

text \<open>One iteration of the broadcast loop: send without blocking, or close and drop the client.\<close>

definition hub_deliver :: "client_id \<Rightarrow> msg \<Rightarrow> chat_state \<Rightarrow> go_panic + chat_state" where
  "hub_deliver c m s =
     (case chan_try_send (send s c) m of
        Inl p \<Rightarrow> Inl p
      | Inr (Some ch) \<Rightarrow>
          Inr (s\<lparr>send := (send s)(c := ch), delivered := (delivered s)(c := delivered s c @ [m])\<rparr>)
      | Inr None \<Rightarrow>
          (case chan_close (send s c) of
             Inl p \<Rightarrow> Inl p
           | Inr ch \<Rightarrow>
               Inr (s\<lparr>send := (send s)(c := ch), clients := (clients s)(c := None)\<rparr>)))"

text \<open>
  The whole loop \<^verbatim>\<open>for client := range h.clients\<close>, for the order in which the map iteration
  happens to visit the clients.
\<close>

fun hub_broadcast :: "msg \<Rightarrow> client_id list \<Rightarrow> chat_state \<Rightarrow> go_panic + chat_state" where
  "hub_broadcast m [] s = Inr s"
| "hub_broadcast m (c # cs) s =
     (case hub_deliver c m s of Inl p \<Rightarrow> Inl p | Inr s' \<Rightarrow> hub_broadcast m cs s')"

section \<open>The client\<close>

text \<open>\<open>ServeWs\<close> up to the registration: the client with its connection and its channel.\<close>

definition newClient :: "client_id \<Rightarrow> chat_state \<Rightarrow> chat_state" where
  "newClient c s = s\<lparr>conn_open := (conn_open s)(c := True),
     send := (send s)(c := make_chan bufSize), serve := (serve s)(c := ServeRegister)\<rparr>"

text \<open>What \<open>readPump\<close> does to a message before it goes to the hub.\<close>

definition cleanMessage :: "string \<Rightarrow> msg" where
  "cleanMessage raw = trim_space (replace_byte newline_char space_char raw)"

text \<open>Leaving \<open>readPump\<close> and \<open>writePump\<close>: the last deferred action closes the connection.\<close>

definition closeConn :: "client_id \<Rightarrow> chat_state \<Rightarrow> chat_state" where
  "closeConn c s = s\<lparr>conn_open := (conn_open s)(c := False)\<rparr>"

definition write_frame :: "client_id \<Rightarrow> frame \<Rightarrow> chat_state \<Rightarrow> chat_state" where
  "write_frame c f s = s\<lparr>frames := (frames s)(c := frames s c @ [f])\<rparr>"

definition set_reader :: "client_id \<Rightarrow> read_pc \<Rightarrow> chat_state \<Rightarrow> chat_state" where
  "set_reader c p s = s\<lparr>reader := (reader s)(c := p)\<rparr>"

definition set_writer :: "client_id \<Rightarrow> write_pc \<Rightarrow> chat_state \<Rightarrow> chat_state" where
  "set_writer c p s = s\<lparr>writer := (writer s)(c := p)\<rparr>"

definition set_send :: "client_id \<Rightarrow> msg chan \<Rightarrow> chat_state \<Rightarrow> chat_state" where
  "set_send c ch s = s\<lparr>send := (send s)(c := ch)\<rparr>"

definition or_crash :: "chat_state \<Rightarrow> go_panic + chat_state \<Rightarrow> chat_state" where
  "or_crash s r = (case r of Inl p \<Rightarrow> s\<lparr>crashed := Some p\<rparr> | Inr t \<Rightarrow> t)"

lemmas chat_update_defs = hub_register_def newClient_def closeConn_def write_frame_def
  set_reader_def set_writer_def set_send_def

section \<open>Interleaved execution\<close>

text \<open>
  Steps of \<open>Hub.Run\<close>: an unbuffered channel transfers when the hub is at its \<^verbatim>\<open>select\<close> and the
  other goroutine at its send, which then moves on.
\<close>

inductive hub_step :: "chat_state \<Rightarrow> chat_state \<Rightarrow> bool" where
  register:
    "hub_at s = HubSelect \<Longrightarrow> serve s c = ServeRegister \<Longrightarrow>
     hub_step s ((hub_register c s)\<lparr>serve := (serve s)(c := ServeSpawnWrite)\<rparr>)"
| unregister:
    "hub_at s = HubSelect \<Longrightarrow> reader s c = ReadUnregister \<Longrightarrow>
     hub_step s (or_crash s (map_sum id (set_reader c ReadClose) (hub_unregister c s)))"
| broadcast:
    "hub_at s = HubSelect \<Longrightarrow> reader s c = ReadSend m \<Longrightarrow>
     distinct cs \<Longrightarrow> set cs = dom (clients s) \<Longrightarrow>
     hub_step s (set_reader c ReadLoop (s\<lparr>hub_at := HubRange m cs\<rparr>))"
| deliver:
    "hub_at s = HubRange m (c # cs) \<Longrightarrow>
     hub_step s (or_crash s (map_sum id (\<lambda>t. t\<lparr>hub_at := HubRange m cs\<rparr>) (hub_deliver c m s)))"
| range_end:
    "hub_at s = HubRange m [] \<Longrightarrow> hub_step s (s\<lparr>hub_at := HubSelect\<rparr>)"

text \<open>Steps of \<open>ServeWs\<close>: the upgrade succeeds or fails; after the registration it starts the pumps.\<close>

inductive serve_step :: "client_id \<Rightarrow> chat_state \<Rightarrow> chat_state \<Rightarrow> bool" for c :: client_id where
  upgraded: "serve s c = ServeIdle \<Longrightarrow> serve_step c s (newClient c s)"
| upgrade_failed:
    "serve s c = ServeIdle \<Longrightarrow> serve_step c s (s\<lparr>logged := logged s @ [e]\<rparr>)"
| go_write:
    "serve s c = ServeSpawnWrite \<Longrightarrow>
     serve_step c s (set_writer c WriteSelect (s\<lparr>serve := (serve s)(c := ServeSpawnRead)\<rparr>))"
| go_read:
    "serve s c = ServeSpawnRead \<Longrightarrow>
     serve_step c s (set_reader c ReadSetup (s\<lparr>serve := (serve s)(c := ServeDone)\<rparr>))"

text \<open>
  Steps of \<open>readPump\<close>. With a read limit set, \<^verbatim>\<open>ReadMessage\<close> returns no longer message. An
  unexpected close error is logged, any error ends the loop and runs the deferred calls.
\<close>

inductive read_step :: "client_id \<Rightarrow> chat_state \<Rightarrow> chat_state \<Rightarrow> bool" for c :: client_id where
  read_setup:
    "reader s c = ReadSetup \<Longrightarrow>
     read_step c s (set_reader c ReadLoop (s\<lparr>read_limit := (read_limit s)(c := maxMessageSize)\<rparr>))"
| read_message:
    "reader s c = ReadLoop \<Longrightarrow> length raw \<le> read_limit s c \<Longrightarrow>
     read_step c s (set_reader c (ReadSend (cleanMessage raw)) s)"
| expected_close:
    "reader s c = ReadLoop \<Longrightarrow> read_step c s (set_reader c ReadUnregister s)"
| unexpected_close:
    "reader s c = ReadLoop \<Longrightarrow>
     read_step c s (set_reader c ReadUnregister (s\<lparr>logged := logged s @ [e]\<rparr>))"
| read_close:
    "reader s c = ReadClose \<Longrightarrow> read_step c s (set_reader c ReadDone (closeConn c s))"

text \<open>
  Steps of \<open>writePump\<close>. After the first message the loop receives \<^verbatim>\<open>n := len(c.send)\<close> further
  ones and writes them, each after a newline, into the same websocket message.
\<close>

inductive write_step :: "client_id \<Rightarrow> chat_state \<Rightarrow> chat_state \<Rightarrow> bool" for c :: client_id where
  receive:
    "writer s c = WriteSelect \<Longrightarrow> chan_recv (send s c) = Received m ch \<Longrightarrow>
     write_step c s (set_writer c (WriteDrain (length (cbuf ch)) m) (set_send c ch s))"
| next_writer_failed:
    "writer s c = WriteSelect \<Longrightarrow> chan_recv (send s c) = Received m ch \<Longrightarrow>
     write_step c s (set_writer c WriteExit (set_send c ch s))"
| write_drain:
    "writer s c = WriteDrain (Suc n) w \<Longrightarrow> chan_recv (send s c) = Received m ch \<Longrightarrow>
     write_step c s (set_writer c (WriteDrain n (w @ [newline_char] @ m)) (set_send c ch s))"
| drain_closed:
    "writer s c = WriteDrain (Suc n) w \<Longrightarrow> chan_recv (send s c) = ChanClosed \<Longrightarrow>
     write_step c s (set_writer c (WriteDrain n (w @ [newline_char])) s)"
| write_flush:
    "writer s c = WriteDrain 0 w \<Longrightarrow>
     write_step c s (set_writer c WriteSelect (write_frame c (TextFrame w) s))"
| flush_failed:
    "writer s c = WriteDrain 0 w \<Longrightarrow> write_step c s (set_writer c WriteExit s)"
| hub_closed:
    "writer s c = WriteSelect \<Longrightarrow> chan_recv (send s c) = ChanClosed \<Longrightarrow>
     write_step c s (set_writer c WriteExit (write_frame c CloseFrame s))"
| write_ping:
    "writer s c = WriteSelect \<Longrightarrow> write_step c s (write_frame c PingFrame s)"
| ping_failed:
    "writer s c = WriteSelect \<Longrightarrow> write_step c s (set_writer c WriteExit s)"
| write_exit:
    "writer s c = WriteExit \<Longrightarrow> write_step c s (set_writer c WriteDone (closeConn c s))"

text \<open>A panic in any goroutine ends the process: no step leaves a crashed state.\<close>

definition chat_step :: "chat_state \<Rightarrow> chat_state \<Rightarrow> bool" where
  "chat_step s t \<longleftrightarrow> crashed s = None \<and>
     (hub_step s t \<or> (\<exists>c. serve_step c s t \<or> read_step c s t \<or> write_step c s t))"

section \<open>The home page handler of \<^verbatim>\<open>chat/main.go\<close>\<close>

datatype home_response = HttpError string nat | ServeFile string

definition homeHandler :: "string \<Rightarrow> string \<Rightarrow> home_response" where
  "homeHandler path method =
     (if path \<noteq> ''/'' then HttpError ''Not found'' 404
      else if method \<noteq> ''GET'' then HttpError ''Method not allowed'' 405
      else ServeFile ''home.html'')"

section \<open>The broadcast loop\<close>

text \<open>
  What one broadcast does, client by client and with no order: a registered client with room in
  its channel gets the message, one without is dropped and its channel closed.
\<close>

definition has_room :: "chat_state \<Rightarrow> client_id \<Rightarrow> bool" where
  "has_room s c \<longleftrightarrow> length (cbuf (send s c)) < ccap (send s c)"

definition broadcast_spec :: "msg \<Rightarrow> client_id set \<Rightarrow> chat_state \<Rightarrow> chat_state" where
  "broadcast_spec m C s =
     s\<lparr>clients := (\<lambda>c. if c \<in> C \<and> \<not> has_room s c then None else clients s c),
       send := (\<lambda>c. if c \<in> C then (if has_room s c then (send s c)\<lparr>cbuf := cbuf (send s c) @ [m]\<rparr>
                                    else (send s c)\<lparr>cclosed := True\<rparr>) else send s c),
       delivered := (\<lambda>c. if c \<in> C \<and> has_room s c then delivered s c @ [m] else delivered s c)\<rparr>"

lemma hub_deliver_open:
  "\<not> cclosed (send s c) \<Longrightarrow> hub_deliver c m s = Inr (broadcast_spec m {c} s)"
  by (auto simp: hub_deliver_def chan_try_send_open chan_close_open broadcast_spec_def has_room_def
      fun_eq_iff intro!: chat_state.equality)

lemma broadcast_spec_insert:
  "c \<notin> C \<Longrightarrow> broadcast_spec m C (broadcast_spec m {c} s) = broadcast_spec m (insert c C) s"
  by (rule chat_state.equality) (auto simp: broadcast_spec_def has_room_def fun_eq_iff)

lemma broadcast_spec_empty [simp]: "broadcast_spec m {} s = s"
  by (rule chat_state.equality) (auto simp: broadcast_spec_def)

lemma hub_broadcast_open:
  "distinct cs \<Longrightarrow> (\<forall>c\<in>set cs. \<not> cclosed (send s c)) \<Longrightarrow>
   hub_broadcast m cs s = Inr (broadcast_spec m (set cs) s)"
proof (induction cs arbitrary: s)
  case Nil
  then show ?case by simp
next
  case (Cons c cs)
  let ?t = "broadcast_spec m {c} s"
  from Cons.prems have "\<forall>d\<in>set cs. \<not> cclosed (send ?t d)"
    by (auto simp: broadcast_spec_def)
  with Cons have "hub_broadcast m cs ?t = Inr (broadcast_spec m (insert c (set cs)) s)"
    by (simp add: broadcast_spec_insert)
  with Cons.prems show ?case by (simp add: hub_deliver_open)
qed

section \<open>The invariant\<close>

definition registered :: "chat_state \<Rightarrow> client_id \<Rightarrow> bool" where
  "registered s c \<longleftrightarrow> serve s c \<notin> {ServeIdle, ServeRegister}"

text \<open>What the peer has been sent in text frames, split again at the newlines.\<close>

fun frame_msgs :: "frame \<Rightarrow> msg list" where
  "frame_msgs (TextFrame w) = split_on newline_char w"
| "frame_msgs _ = []"

definition written :: "chat_state \<Rightarrow> client_id \<Rightarrow> msg list" where
  "written s c = concat (map frame_msgs (frames s c))"

text \<open>The messages a \<open>writePump\<close> still holds or can still receive, while it runs.\<close>

fun in_hand :: "write_pc \<Rightarrow> msg list" where
  "in_hand (WriteDrain n w) = split_on newline_char w"
| "in_hand _ = []"

fun running :: "write_pc \<Rightarrow> bool" where
  "running WriteExit = False"
| "running WriteDone = False"
| "running _ = True"

text \<open>The part of the invariant that concerns one client.\<close>

definition client_inv :: "chat_state \<Rightarrow> client_id \<Rightarrow> bool" where
  "client_inv s c \<longleftrightarrow>
     ccap (send s c) = bufSize \<and> length (cbuf (send s c)) \<le> bufSize \<and>
     (cclosed (send s c) \<longleftrightarrow> registered s c \<and> clients s c = None) \<and>
     (\<not> registered s c \<longrightarrow> clients s c = None \<and> reader s c = ReadIdle \<and> writer s c = WriteIdle \<and>
        cbuf (send s c) = [] \<and> delivered s c = [] \<and> frames s c = []) \<and>
     (serve s c = ServeSpawnWrite \<longrightarrow> writer s c = WriteIdle) \<and>
     (serve s c \<noteq> ServeDone \<longrightarrow> reader s c = ReadIdle) \<and>
     (\<forall>m\<in>set (cbuf (send s c)). newline_char \<notin> set m) \<and>
     (\<forall>m. reader s c = ReadSend m \<longrightarrow> newline_char \<notin> set m) \<and>
     (\<forall>n w. writer s c = WriteDrain n w \<longrightarrow> n \<le> length (cbuf (send s c))) \<and>
     (running (writer s c) \<longrightarrow>
        delivered s c = written s c @ in_hand (writer s c) @ cbuf (send s c)) \<and>
     prefix (written s c) (delivered s c)"

definition hub_inv :: "chat_state \<Rightarrow> bool" where
  "hub_inv s \<longleftrightarrow>
     (\<forall>m cs. hub_at s = HubRange m cs \<longrightarrow>
        distinct cs \<and> set cs \<subseteq> dom (clients s) \<and> newline_char \<notin> set m)"

definition chat_inv :: "chat_state \<Rightarrow> bool" where
  "chat_inv s \<longleftrightarrow> crashed s = None \<and> hub_inv s \<and> (\<forall>c. client_inv s c)"

lemmas chat_inv_defs [inv_simps] = chat_inv_def hub_inv_def client_inv_def registered_def written_def

lemma cleanMessage_no_newline: "newline_char \<notin> set (cleanMessage raw)"
  using replace_byte_absent [of newline_char space_char raw] set_trim_space
  by (fastforce simp: cleanMessage_def)

lemma split_on_sep: "split_on c (s @ c # t) = split_on c s @ split_on c t"
  by (induction s) (auto split: list.splits)

lemma split_on_snoc_msg: "c \<notin> set m \<Longrightarrow> split_on c (w @ c # m) = split_on c w @ [m]"
  by (simp add: split_on_sep split_on_absent)

lemma chat_inv_NewHub: "chat_inv NewHub"
  by (simp add: chat_inv_defs NewHub_def)

lemma client_inv_open: "client_inv s c \<Longrightarrow> clients s c \<noteq> None \<Longrightarrow> \<not> cclosed (send s c)"
  by (auto simp: client_inv_def)


text \<open>
  Every step changes at most one client, so the invariant of that client and of the hub is all
  there is to show.
\<close>

definition frame_except :: "client_id \<Rightarrow> chat_state \<Rightarrow> chat_state \<Rightarrow> bool" where
  "frame_except c s t \<longleftrightarrow>
     (\<forall>d. d \<noteq> c \<longrightarrow> clients t d = clients s d \<and> send t d = send s d \<and> frames t d = frames s d \<and>
        serve t d = serve s d \<and> reader t d = reader s d \<and> writer t d = writer s d \<and>
        delivered t d = delivered s d)"

lemma client_inv_frame: "frame_except c s t \<Longrightarrow> d \<noteq> c \<Longrightarrow> client_inv t d = client_inv s d"
  by (simp add: client_inv_def frame_except_def registered_def written_def)

lemma chat_inv_one_client:
  assumes "chat_inv s" "frame_except c s t" "crashed t = None" "hub_inv t" "client_inv t c"
  shows "chat_inv t"
proof -
  have "client_inv t d" for d
    using assms client_inv_frame [OF assms(2)] by (cases "d = c") (simp_all add: chat_inv_def)
  with assms show ?thesis by (simp add: chat_inv_def)
qed

lemma chat_invD: "chat_inv s \<Longrightarrow> crashed s = None" "chat_inv s \<Longrightarrow> hub_inv s" "chat_inv s \<Longrightarrow> client_inv s c"
  by (simp_all add: chat_inv_def)

lemmas client_inv_simps = client_inv_def registered_def written_def chat_update_defs chan_recv_iff
lemmas chat_frame_simps = frame_except_def chat_update_defs

lemma serve_step_frame:
  "serve_step c s t \<Longrightarrow> frame_except c s t \<and> crashed t = crashed s \<and> clients t = clients s \<and> hub_at t = hub_at s"
  by (erule serve_step.cases) (auto simp: chat_frame_simps)

lemma read_step_frame:
  "read_step c s t \<Longrightarrow> frame_except c s t \<and> crashed t = crashed s \<and> clients t = clients s \<and> hub_at t = hub_at s"
  by (erule read_step.cases) (auto simp: chat_frame_simps)

lemma write_step_frame:
  "write_step c s t \<Longrightarrow> frame_except c s t \<and> crashed t = crashed s \<and> clients t = clients s \<and> hub_at t = hub_at s"
  by (erule write_step.cases) (auto simp: chat_frame_simps)

lemma serve_step_client: "serve_step c s t \<Longrightarrow> client_inv s c \<Longrightarrow> client_inv t c"
  by (erule serve_step.cases) (auto simp: client_inv_simps)

lemma read_step_client: "read_step c s t \<Longrightarrow> client_inv s c \<Longrightarrow> client_inv t c"
  by (erule read_step.cases) (auto simp: client_inv_simps cleanMessage_no_newline)

lemma write_step_client: "write_step c s t \<Longrightarrow> client_inv s c \<Longrightarrow> client_inv t c"
  by (erule write_step.cases) (auto simp: client_inv_simps split_on_absent split_on_snoc_msg)

lemma client_step_inv:
  assumes "serve_step c s t \<or> read_step c s t \<or> write_step c s t" "chat_inv s"
  shows "chat_inv t"
proof -
  have fr: "frame_except c s t" "crashed t = crashed s" "clients t = clients s" "hub_at t = hub_at s"
    using assms(1) serve_step_frame read_step_frame write_step_frame by blast+
  have "client_inv t c"
    using assms serve_step_client read_step_client write_step_client chat_invD(3) by blast
  with fr chat_invD [OF assms(2)] show ?thesis
    by (intro chat_inv_one_client [OF assms(2) fr(1)]) (auto simp: hub_inv_def)
qed

lemma hub_unregister_inv:
  assumes "client_inv s c"
  obtains t where "hub_unregister c s = Inr t" "frame_except c s t" "crashed t = crashed s"
    "hub_at t = hub_at s" "reader s c = ReadUnregister \<Longrightarrow> client_inv (set_reader c ReadClose t) c"
proof (cases "clients s c")
  case None
  with assms show ?thesis
    by (intro that [of s]) (auto simp: hub_unregister_def frame_except_def client_inv_simps)
next
  case (Some b)
  let ?t = "s\<lparr>clients := (clients s)(c := None), send := (send s)(c := (send s c)\<lparr>cclosed := True\<rparr>)\<rparr>"
  have "\<not> cclosed (send s c)" using assms Some by (simp add: client_inv_open)
  then have "hub_unregister c s = Inr ?t"
    using Some by (simp add: hub_unregister_def chan_close_open Let_def)
  then show ?thesis
    using assms Some by (intro that [of ?t]) (auto simp: frame_except_def client_inv_simps)
qed

lemma hub_deliver_client:
  assumes "client_inv s c" "c \<in> dom (clients s)" "newline_char \<notin> set m"
  shows "client_inv (broadcast_spec m {c} s) c"
  using assms by (auto simp: client_inv_def broadcast_spec_def registered_def written_def has_room_def)

lemma client_inv_hub_at [simp]: "client_inv (s\<lparr>hub_at := h\<rparr>) c = client_inv s c"
  by (simp add: client_inv_def registered_def written_def)

lemma hub_step_inv:
  assumes "hub_step s t" "chat_inv s"
  shows "chat_inv t"
  using assms(1)
proof cases
  case (register c)
  show ?thesis
    by (rule chat_inv_one_client [OF assms(2), of c])
      (use register chat_invD [OF assms(2)] in \<open>auto simp: chat_frame_simps hub_inv_def client_inv_simps\<close>)
next
  case (unregister c)
  obtain u where u: "hub_unregister c s = Inr u" "frame_except c s u" "crashed u = crashed s"
    "hub_at u = hub_at s" "client_inv (set_reader c ReadClose u) c"
    using hub_unregister_inv [OF chat_invD(3) [OF assms(2)]] unregister(3) by blast
  show ?thesis
    by (rule chat_inv_one_client [OF assms(2), of c])
      (use unregister u chat_invD [OF assms(2)] in
        \<open>auto simp: or_crash_def frame_except_def set_reader_def hub_inv_def\<close>)
next
  case (broadcast c m cs)
  have inv: "client_inv s c" and cr: "crashed s = None" using chat_invD [OF assms(2)] by auto
  then have "newline_char \<notin> set m" and "client_inv t c"
    using broadcast by (auto simp: client_inv_simps)
  with broadcast cr show ?thesis
    by (intro chat_inv_one_client [OF assms(2), of c]) (auto simp: chat_frame_simps hub_inv_def)
next
  case (deliver m c cs)
  have hub: "c \<in> dom (clients s)" "newline_char \<notin> set m"
    and cs: "c \<notin> set cs" "distinct cs" "set cs \<subseteq> dom (clients s)"
    using chat_invD(2) [OF assms(2)] deliver(2) by (auto simp: hub_inv_def)
  let ?t = "(broadcast_spec m {c} s)\<lparr>hub_at := HubRange m cs\<rparr>"
  have "\<not> cclosed (send s c)" using hub chat_invD(3) [OF assms(2)] client_inv_open by auto
  then have t: "t = ?t" using deliver by (simp add: or_crash_def hub_deliver_open)
  have "client_inv ?t c" using hub_deliver_client hub chat_invD(3) [OF assms(2)] by simp
  with hub cs chat_invD(1) [OF assms(2)] show ?thesis unfolding t
    by (intro chat_inv_one_client [OF assms(2), of c])
      (auto simp: frame_except_def broadcast_spec_def hub_inv_def)
next
  case (range_end m)
  then show ?thesis using assms(2) by (simp add: chat_inv_def hub_inv_def)
qed

interpretation chat: machine "\<lambda>s. s = NewHub" chat_step chat_inv
  by unfold_locales
    (auto simp: chat_inv_NewHub chat_step_def intro: hub_step_inv client_step_inv)

section \<open>Broadcast steps and the broadcast loop\<close>

lemma broadcast_spec_hub_at [simp]:
  "broadcast_spec m C (s\<lparr>hub_at := h\<rparr>) = (broadcast_spec m C s)\<lparr>hub_at := h\<rparr>"
  by (rule chat_state.equality) (auto simp: broadcast_spec_def has_room_def)

lemma deliver_step:
  assumes "chat_inv s" "hub_at s = HubRange m (c # cs)"
  shows "hub_step s ((broadcast_spec m {c} s)\<lparr>hub_at := HubRange m cs\<rparr>)"
proof -
  have "c \<in> dom (clients s)" using chat_invD(2) [OF assms(1)] assms(2) by (auto simp: hub_inv_def)
  then have "\<not> cclosed (send s c)" using client_inv_open chat_invD(3) [OF assms(1)] by auto
  then show ?thesis using hub_step.deliver [OF assms(2)] by (simp add: or_crash_def hub_deliver_open)
qed

lemma range_steps:
  "chat_inv s \<Longrightarrow> hub_at s = HubRange m cs \<Longrightarrow>
   hub_step\<^sup>*\<^sup>* s ((broadcast_spec m (set cs) s)\<lparr>hub_at := HubSelect\<rparr>)"
proof (induction cs arbitrary: s)
  case Nil
  then show ?case by (auto intro: hub_step.range_end)
next
  case (Cons c cs)
  let ?s1 = "(broadcast_spec m {c} s)\<lparr>hub_at := HubRange m cs\<rparr>"
  have st: "hub_step s ?s1" by (rule deliver_step) (use Cons.prems in auto)
  have "c \<notin> set cs" using chat_invD(2) [OF Cons.prems(1)] Cons.prems(2) by (auto simp: hub_inv_def)
  then have eq: "(broadcast_spec m (set cs) ?s1)\<lparr>hub_at := HubSelect\<rparr> =
      (broadcast_spec m (set (c # cs)) s)\<lparr>hub_at := HubSelect\<rparr>"
    by (simp add: broadcast_spec_insert)
  have "chat_inv ?s1" by (rule hub_step_inv [OF st Cons.prems(1)])
  then have "hub_step\<^sup>*\<^sup>* ?s1 ((broadcast_spec m (set cs) ?s1)\<lparr>hub_at := HubSelect\<rparr>)"
    by (rule Cons.IH) simp
  with st show ?case unfolding eq by (rule converse_rtranclp_into_rtranclp)
qed

abbreviation chat_reachable :: "chat_state \<Rightarrow> bool" where
  "chat_reachable s \<equiv> chat_step\<^sup>*\<^sup>* NewHub s"

lemma chat_reachable_inv: "chat_reachable s \<Longrightarrow> chat_inv s"
  by (rule chat.inv_reachable) auto

section \<open>A concrete run\<close>

text \<open>
  Client 7 connects, is registered and sends the bytes \<^verbatim>\<open>hi\<close>, which the hub starts to broadcast.
\<close>

definition run1 :: chat_state where "run1 = newClient 7 NewHub"
definition run2 :: chat_state where
  "run2 = (hub_register 7 run1)\<lparr>serve := (serve run1)(7 := ServeSpawnWrite)\<rparr>"
definition run3 :: chat_state where
  "run3 = set_writer 7 WriteSelect (run2\<lparr>serve := (serve run2)(7 := ServeSpawnRead)\<rparr>)"
definition run4 :: chat_state where
  "run4 = set_reader 7 ReadSetup (run3\<lparr>serve := (serve run3)(7 := ServeDone)\<rparr>)"
definition run5 :: chat_state where
  "run5 = set_reader 7 ReadLoop (run4\<lparr>read_limit := (read_limit run4)(7 := maxMessageSize)\<rparr>)"
definition run6 :: chat_state where "run6 = set_reader 7 (ReadSend (cleanMessage ''hi'')) run5"
definition run7 :: chat_state where
  "run7 = set_reader 7 ReadLoop (run6\<lparr>hub_at := HubRange (cleanMessage ''hi'') [7]\<rparr>)"
definition run8 :: chat_state where
  "run8 = (broadcast_spec (cleanMessage ''hi'') {7} run7)\<lparr>hub_at := HubRange (cleanMessage ''hi'') []\<rparr>"

lemmas run_defs = run1_def run2_def run3_def run4_def run5_def run6_def run7_def NewHub_def chat_update_defs

lemma run1_step: "chat_step NewHub run1"
  using serve_step.upgraded [of NewHub 7] by (auto simp: chat_step_def run1_def NewHub_def)

lemma run2_step: "chat_step run1 run2"
  using hub_step.register [of run1 7] by (auto simp: chat_step_def run_defs)

lemma run3_step: "chat_step run2 run3"
  using serve_step.go_write [of run2 7] by (auto simp: chat_step_def run_defs)

lemma run4_step: "chat_step run3 run4"
  using serve_step.go_read [of run3 7] by (auto simp: chat_step_def run_defs)

lemma run5_step: "chat_step run4 run5"
  using read_step.read_setup [of run4 7] by (auto simp: chat_step_def run_defs)

lemma run6_step: "chat_step run5 run6"
  using read_step.read_message [of run5 7 "''hi''"]
  by (auto simp: chat_step_def run_defs maxMessageSize_def)

lemma run7_step: "chat_step run6 run7"
  using hub_step.broadcast [of run6 7 "cleanMessage ''hi''" "[7]"]
  by (auto simp: chat_step_def run_defs)

lemma run7_reachable: "chat_reachable run7"
  using run1_step run2_step run3_step run4_step run5_step run6_step run7_step
  by (meson rtranclp.rtrancl_into_rtrancl rtranclp.rtrancl_refl)

lemma run8_reachable: "chat_reachable run8"
proof -
  have "hub_step run7 run8"
    unfolding run8_def by (rule deliver_step [OF chat_reachable_inv [OF run7_reachable]]) (simp add: run7_def chat_update_defs)
  then have "chat_step run7 run8" by (simp add: chat_step_def run_defs)
  with run7_reachable show ?thesis by (rule rtranclp.rtrancl_into_rtrancl)
qed

text \<open>
  The client sends the same bytes again and the hub delivers them, before the \<open>writePump\<close> takes the
  first message: it then has one more message to drain.
\<close>

definition run9 :: chat_state where "run9 = run8\<lparr>hub_at := HubSelect\<rparr>"
definition run10 :: chat_state where "run10 = set_reader 7 (ReadSend (cleanMessage ''hi'')) run9"
definition run11 :: chat_state where
  "run11 = set_reader 7 ReadLoop (run10\<lparr>hub_at := HubRange (cleanMessage ''hi'') [7]\<rparr>)"
definition run12 :: chat_state where
  "run12 = (broadcast_spec (cleanMessage ''hi'') {7} run11)\<lparr>hub_at := HubRange (cleanMessage ''hi'') []\<rparr>"
definition run13 :: chat_state where
  "run13 = set_writer 7 (WriteDrain (Suc 0) (cleanMessage ''hi''))
     (set_send 7 \<lparr>cbuf = [cleanMessage ''hi''], ccap = bufSize, cclosed = False\<rparr> run12)"

lemma run8_fields:
  "hub_at run8 = HubRange (cleanMessage ''hi'') []" "crashed run8 = None" "clients run8 = [7 \<mapsto> True]"
  "reader run8 7 = ReadLoop" "read_limit run8 7 = maxMessageSize" "writer run8 7 = WriteSelect"
  "serve run8 7 = ServeDone" "send run8 7 = \<lparr>cbuf = [cleanMessage ''hi''], ccap = bufSize, cclosed = False\<rparr>"
  by (simp_all add: run8_def broadcast_spec_def has_room_def run_defs bufSize_def make_chan_def fun_eq_iff)

lemmas late_run_defs = run9_def run10_def run11_def run12_def run13_def run8_fields chat_update_defs
  broadcast_spec_def has_room_def bufSize_def

lemma run9_step: "chat_step run8 run9"
  using hub_step.range_end [OF run8_fields(1)] by (simp add: chat_step_def run9_def run8_fields)

lemma run10_step: "chat_step run9 run10"
  using read_step.read_message [of run9 7 "''hi''"]
  by (auto simp: chat_step_def late_run_defs maxMessageSize_def)

lemma run11_step: "chat_step run10 run11"
  using hub_step.broadcast [of run10 7 "cleanMessage ''hi''" "[7]"]
  by (auto simp: chat_step_def late_run_defs)

lemma run11_reachable: "chat_reachable run11"
  using run8_reachable run9_step run10_step run11_step
  by (meson rtranclp.rtrancl_into_rtrancl)

lemma run12_reachable: "chat_reachable run12"
proof -
  have "hub_step run11 run12"
    unfolding run12_def
    by (rule deliver_step [OF chat_reachable_inv [OF run11_reachable]]) (simp add: run11_def chat_update_defs)
  then have "chat_step run11 run12" by (simp add: chat_step_def late_run_defs)
  with run11_reachable show ?thesis by (rule rtranclp.rtrancl_into_rtrancl)
qed

lemma run13_reachable: "chat_reachable run13"
proof -
  have "writer run12 7 = WriteSelect" "chan_recv (send run12 7) =
      Received (cleanMessage ''hi'') \<lparr>cbuf = [cleanMessage ''hi''], ccap = bufSize, cclosed = False\<rparr>"
    by (simp_all add: chan_recv_Received late_run_defs)
  from write_step.receive [OF this] have "write_step 7 run12 run13" by (simp add: run13_def)
  then have "chat_step run12 run13" by (auto simp: chat_step_def late_run_defs)
  with run12_reachable show ?thesis by (rule rtranclp.rtrancl_into_rtrancl)
qed

section \<open>Properties of the chat server\<close>

text \<open>
  C1. However the goroutines of the hub and of the connections interleave and whatever the
  connections return, no goroutine panics: the hub never sends on a closed channel and never closes
  a channel twice.
\<close>

theorem chat_never_panics: "chat_reachable s \<Longrightarrow> crashed s = None"
  by (rule chat_invD(1) [OF chat_reachable_inv])

theorem chat_never_panics_witness: "chat_reachable run8 \<and> crashed run8 = None"
  using run8_reachable chat_never_panics by blast

text \<open>
  C2. What a \<open>writePump\<close> has written to its peer in text frames, split at the newlines, is a prefix
  of the messages the hub delivered to that client, in order: nothing is lost in the middle,
  reordered, duplicated or torn by the newline framing. While the pump runs, the rest is exactly
  what it holds plus what is still in the channel.
\<close>

theorem chat_fifo_framing:
  assumes "chat_reachable s"
  shows "prefix (written s c) (delivered s c) \<and>
    (running (writer s c) \<longrightarrow>
      delivered s c = written s c @ in_hand (writer s c) @ cbuf (send s c))"
  using chat_invD(3) [OF chat_reachable_inv [OF assms]] by (auto simp: client_inv_def)

theorem chat_fifo_framing_witness:
  "chat_reachable run8 \<and> prefix (written run8 7) (delivered run8 7) \<and> running (writer run8 7) \<and>
   delivered run8 7 = written run8 7 @ in_hand (writer run8 7) @ cbuf (send run8 7) \<and>
   delivered run8 7 \<noteq> []"
proof -
  have "running (writer run8 7)" "delivered run8 7 \<noteq> []"
    by (simp_all add: run8_def broadcast_spec_def has_room_def run_defs bufSize_def)
  then show ?thesis
    using run8_reachable chat_fifo_framing [OF run8_reachable, of 7] by blast
qed

text \<open>
  C3. The hub never blocks in a broadcast: from every reachable state inside the loop its own steps
  alone lead back to the \<^verbatim>\<open>select\<close>, and they compute exactly what the loop \<open>hub_broadcast\<close> does.
\<close>

theorem chat_broadcast_finishes:
  assumes "chat_reachable s" "hub_at s = HubRange m cs"
  shows "\<exists>t. hub_broadcast m cs s = Inr t \<and> hub_step\<^sup>*\<^sup>* s (t\<lparr>hub_at := HubSelect\<rparr>)"
proof -
  have inv: "chat_inv s" by (rule chat_reachable_inv [OF assms(1)])
  have "distinct cs" "set cs \<subseteq> dom (clients s)"
    using chat_invD(2) [OF inv] assms(2) by (auto simp: hub_inv_def)
  then have "hub_broadcast m cs s = Inr (broadcast_spec m (set cs) s)"
    using client_inv_open chat_invD(3) [OF inv] by (intro hub_broadcast_open) auto
  with range_steps [OF inv assms(2)] show ?thesis by blast
qed

theorem chat_broadcast_finishes_witness:
  "\<exists>t. hub_broadcast (cleanMessage ''hi'') [7] run7 = Inr t \<and> hub_step\<^sup>*\<^sup>* run7 (t\<lparr>hub_at := HubSelect\<rparr>)"
  by (rule chat_broadcast_finishes [OF run7_reachable]) (simp add: run7_def chat_update_defs)

text \<open>
  C4. One broadcast over all registered clients, in whatever order the map iteration visits them,
  appends the message to the channel of every client with room and drops every other client and
  closes its channel; clients that are not registered are untouched. The right-hand side does not
  depend on the order, so neither does the result.
\<close>

theorem chat_broadcast_all:
  assumes "chat_reachable s" "distinct cs" "set cs = dom (clients s)"
  shows "hub_broadcast m cs s = Inr (broadcast_spec m (dom (clients s)) s)"
proof -
  have "\<forall>c\<in>set cs. \<not> cclosed (send s c)"
    using client_inv_open chat_invD(3) [OF chat_reachable_inv [OF assms(1)]] assms(3) by auto
  from hub_broadcast_open [OF assms(2) this, of m] assms(3) show ?thesis by simp
qed

theorem chat_broadcast_all_witness:
  "hub_broadcast ''hi'' [7] run7 = Inr (broadcast_spec ''hi'' (dom (clients run7)) run7)"
  by (rule chat_broadcast_all [OF run7_reachable]) (auto simp: run_defs)

text \<open>
  C5. Buffers and life time of a client's channel: it never holds more than \<open>bufSize\<close> messages,
  and once the client is registered the channel is closed exactly when the hub no longer has the
  client, so no dropped client keeps an open channel and no registered client has a closed one. The
  drain loop of \<open>writePump\<close> never blocks: the messages it counted are there.
\<close>

theorem chat_channel_lifecycle:
  assumes "chat_reachable s"
  shows "length (cbuf (send s c)) \<le> bufSize \<and>
    (registered s c \<longrightarrow> (cclosed (send s c) \<longleftrightarrow> clients s c = None)) \<and>
    (\<forall>n w. writer s c = WriteDrain (Suc n) w \<longrightarrow> (\<exists>m ch. chan_recv (send s c) = Received m ch))"
  using chat_invD(3) [OF chat_reachable_inv [OF assms], of c]
  by (auto simp: client_inv_def chan_recv_Received neq_Nil_conv Suc_le_length_iff)

theorem chat_channel_lifecycle_witness:
  "length (cbuf (send run13 7)) \<le> bufSize \<and> registered run13 7 \<and>
   (cclosed (send run13 7) \<longleftrightarrow> clients run13 7 = None) \<and>
   writer run13 7 = WriteDrain (Suc 0) (cleanMessage ''hi'') \<and>
   (\<exists>m ch. chan_recv (send run13 7) = Received m ch)"
proof -
  have "registered run13 7" "writer run13 7 = WriteDrain (Suc 0) (cleanMessage ''hi'')"
    by (simp_all add: registered_def late_run_defs)
  then show ?thesis using chat_channel_lifecycle [OF run13_reachable, of 7] by blast
qed

end
