(* ===== verification/Sse_Server.thy ===== *)
theory Sse_Server
  imports Go_Prelude
begin

text \<open>
  The server-sent events example \<^verbatim>\<open>http/sse/main.go\<close>: one goroutine per connected client runs
  \<open>Serve\<close>, one goroutine runs \<open>SimulateEvents\<close>; they share the map \<^verbatim>\<open>h.clients\<close> without a lock.
  The step relation \<open>sse_step\<close> interleaves them between their map and channel operations; an insertion or a deletion takes two
  steps, its begin and its end. Go's runtime marks a map as being written in between and ends the process when it finds
  the mark: at another goroutine's write with \<^verbatim>\<open>concurrent map writes\<close>, at the next element of a range loop with
  \<^verbatim>\<open>concurrent map iteration and map write\<close>. The model takes the runtime to find every overlap; Go does not define what a map does after one it
  misses. Clients are numbers, the time text of a tick is arbitrary.

  As long as the process runs, the client map and the per-client channels are right (channels of registered clients
  are open, no channel is closed twice, every client sees the ticks in order), but the missing lock ends it in three ways: the two
  fatal errors of the map, and a client that
  disconnects between the moment the range loop yields its channel and the send, which makes the server
  panic.
\<close>

section \<open>State\<close>

datatype sse_pc = SseIdle | SseInserting | SseSelect | SseWrite string | SseDeleting | SseDeleted | SseDone

text \<open>
  \<open>SimRange m C V\<close> is inside the range loop for message \<open>m\<close>: \<open>C\<close> were the clients when it began,
  \<open>V\<close> the ones already visited; \<open>SimSend m C V c\<close> has just been given client \<open>c\<close>.
\<close>

datatype sim_pc = SimTick | SimRange string "nat set" "nat set" | SimSend string "nat set" "nat set" nat

text \<open>\<open>map_writer\<close> is the goroutine that is inside a write of the map, \<open>sse_fatal\<close> the runtime's fatal error.\<close>

record sse_state =
  sse_clients :: "nat set"
  map_writer :: "nat option"
  sse_closed :: "nat \<Rightarrow> bool"
  sse_at :: "nat \<Rightarrow> sse_pc"
  sse_headers :: "nat \<Rightarrow> (string \<times> string) list"
  sse_out :: "nat \<Rightarrow> string list"
  sim_at :: sim_pc
  sse_crashed :: "go_panic option"
  sse_fatal :: "string option"
  ticks :: "string list"

definition NewSseHandler :: sse_state where
  "NewSseHandler = \<lparr>sse_clients = {}, map_writer = None, sse_closed = (\<lambda>_. False), sse_at = (\<lambda>_. SseIdle),
     sse_headers = (\<lambda>_. []), sse_out = (\<lambda>_. []), sim_at = SimTick, sse_crashed = None, sse_fatal = None, ticks = []\<rparr>"

section \<open>Operations\<close>

text \<open>The begin of a write of the map by client \<open>c\<close>'s goroutine.\<close>

definition map_begin :: "nat \<Rightarrow> sse_pc \<Rightarrow> sse_state \<Rightarrow> sse_state" where
  "map_begin c pc s =
     (if map_writer s \<noteq> None then s\<lparr>sse_fatal := Some ''concurrent map writes''\<rparr>
      else s\<lparr>map_writer := Some c, sse_at := (sse_at s)(c := pc)\<rparr>)"

text \<open>The start of \<open>Serve\<close>: headers, then a new channel in the map.\<close>

definition sse_connect :: "nat \<Rightarrow> sse_state \<Rightarrow> sse_state" where
  "sse_connect c s = map_begin c SseInserting (s\<lparr>
     sse_headers := (sse_headers s)(c := sse_headers s c @
       [(''Content-Type'', ''text/event-stream''), (''Cache-Control'', ''no-cache''),
        (''Connection'', ''keep-alive'')])\<rparr>)"

definition sse_insert :: "nat \<Rightarrow> sse_state \<Rightarrow> sse_state" where
  "sse_insert c s = s\<lparr>sse_clients := insert c (sse_clients s), map_writer := None, sse_at := (sse_at s)(c := SseSelect)\<rparr>"

text \<open>\<^verbatim>\<open>fmt.Fprintf(w, "data: %s\n\n", msg)\<close>\<close>

definition sse_event :: "string \<Rightarrow> string" where
  "sse_event m = ''data: '' @ m @ [newline_char, newline_char]"

definition sse_write :: "nat \<Rightarrow> string \<Rightarrow> sse_state \<Rightarrow> sse_state" where
  "sse_write c m s = s\<lparr>sse_out := (sse_out s)(c := sse_out s c @ [sse_event m]),
     sse_at := (sse_at s)(c := SseSelect)\<rparr>"

text \<open>The deferred function: \<^verbatim>\<open>delete\<close>, whose begin is \<open>sse_disconnect\<close>, then \<^verbatim>\<open>close\<close>.\<close>

definition sse_disconnect :: "nat \<Rightarrow> sse_state \<Rightarrow> sse_state" where
  "sse_disconnect c s = map_begin c SseDeleting s"

definition sse_delete :: "nat \<Rightarrow> sse_state \<Rightarrow> sse_state" where
  "sse_delete c s = s\<lparr>sse_clients := sse_clients s - {c}, map_writer := None, sse_at := (sse_at s)(c := SseDeleted)\<rparr>"

definition sse_close :: "nat \<Rightarrow> sse_state \<Rightarrow> sse_state" where
  "sse_close c s =
     (if sse_closed s c then s\<lparr>sse_crashed := Some CloseOfClosedChannel\<rparr>
      else s\<lparr>sse_closed := (sse_closed s)(c := True), sse_at := (sse_at s)(c := SseDone)\<rparr>)"

definition sim_message :: "string \<Rightarrow> string" where
  "sim_message now = ''Server time: '' @ now"

definition sim_tick :: "string \<Rightarrow> sse_state \<Rightarrow> sse_state" where
  "sim_tick now s = s\<lparr>sim_at := SimRange (sim_message now) (sse_clients s) {},
     ticks := ticks s @ [sim_message now]\<rparr>"

text \<open>
  \<^verbatim>\<open>select { case clientChan <- message: default: }\<close> on an unbuffered channel: it panics on a
  closed channel, hands the message over to a client waiting in its \<^verbatim>\<open>select\<close>, or skips the client.
\<close>

definition sim_send :: "bool \<Rightarrow> string \<Rightarrow> nat set \<Rightarrow> nat set \<Rightarrow> nat \<Rightarrow> sse_state \<Rightarrow> sse_state" where
  "sim_send ready m C V c s =
     (if sse_closed s c then s\<lparr>sse_crashed := Some SendOnClosedChannel\<rparr>
      else if ready \<and> sse_at s c = SseSelect then
        s\<lparr>sse_at := (sse_at s)(c := SseWrite m), sim_at := SimRange m C (insert c V)\<rparr>
      else s\<lparr>sim_at := SimRange m C (insert c V)\<rparr>)"

text \<open>The next element of the range loop: a map that was empty when the loop began is not looked at again.\<close>

definition sim_next :: "string \<Rightarrow> nat set \<Rightarrow> nat set \<Rightarrow> nat \<Rightarrow> sse_state \<Rightarrow> sse_state" where
  "sim_next m C V c s =
     (if map_writer s \<noteq> None then s\<lparr>sse_fatal := Some ''concurrent map iteration and map write''\<rparr>
      else s\<lparr>sim_at := SimSend m C V c\<rparr>)"

definition sim_stop :: "nat set \<Rightarrow> sse_state \<Rightarrow> sse_state" where
  "sim_stop C s =
     (if C \<noteq> {} \<and> map_writer s \<noteq> None then s\<lparr>sse_fatal := Some ''concurrent map iteration and map write''\<rparr>
      else s\<lparr>sim_at := SimTick\<rparr>)"

lemmas sse_defs = map_begin_def sse_connect_def sse_insert_def sse_write_def sse_disconnect_def sse_delete_def sse_close_def
  sim_tick_def sim_send_def sim_next_def sim_stop_def

definition sse_running :: "sse_state \<Rightarrow> bool" where
  "sse_running s \<longleftrightarrow> sse_crashed s = None \<and> sse_fatal s = None"

inductive sse_step :: "sse_state \<Rightarrow> sse_state \<Rightarrow> bool" where
  connect: "sse_running s \<Longrightarrow> sse_at s c = SseIdle \<Longrightarrow> sse_step s (sse_connect c s)"
| inserted: "sse_running s \<Longrightarrow> sse_at s c = SseInserting \<Longrightarrow> sse_step s (sse_insert c s)"
| write_event: "sse_running s \<Longrightarrow> sse_at s c = SseWrite m \<Longrightarrow> sse_step s (sse_write c m s)"
| disconnect: "sse_running s \<Longrightarrow> sse_at s c = SseSelect \<Longrightarrow> sse_step s (sse_disconnect c s)"
| deleted: "sse_running s \<Longrightarrow> sse_at s c = SseDeleting \<Longrightarrow> sse_step s (sse_delete c s)"
| close_chan: "sse_running s \<Longrightarrow> sse_at s c = SseDeleted \<Longrightarrow> sse_step s (sse_close c s)"
| tick: "sse_running s \<Longrightarrow> sim_at s = SimTick \<Longrightarrow> sse_step s (sim_tick now s)"
| range_next: "sse_running s \<Longrightarrow> sim_at s = SimRange m C V \<Longrightarrow> C \<noteq> {} \<Longrightarrow>
    c \<in> sse_clients s \<Longrightarrow> c \<notin> V \<Longrightarrow> sse_step s (sim_next m C V c s)"
| range_stop: "sse_running s \<Longrightarrow> sim_at s = SimRange m C V \<Longrightarrow>
    C \<inter> sse_clients s \<subseteq> V \<Longrightarrow> sse_step s (sim_stop C s)"
| send_event: "sse_running s \<Longrightarrow> sim_at s = SimSend m C V c \<Longrightarrow>
    sse_step s (sim_send ready m C V c s)"

section \<open>Invariant\<close>

text \<open>The clients the current tick may still reach, and the messages handed to a client.\<close>

fun unvisited :: "sim_pc \<Rightarrow> nat set" where
  "unvisited SimTick = {}"
| "unvisited (SimRange m C V) = - V"
| "unvisited (SimSend m C V c) = insert c (- V)"

fun current :: "sim_pc \<Rightarrow> string option" where
  "current SimTick = None"
| "current (SimRange m C V) = Some m"
| "current (SimSend m C V c) = Some m"

fun pending :: "sse_pc \<Rightarrow> string list" where
  "pending (SseWrite m) = [m]"
| "pending _ = []"

definition received :: "sse_state \<Rightarrow> nat \<Rightarrow> string list \<Rightarrow> bool" where
  "received s c ms \<longleftrightarrow>
     sse_out s c @ map sse_event (pending (sse_at s c)) = map sse_event ms \<and> subseq ms (ticks s) \<and>
     (c \<in> unvisited (sim_at s) \<longrightarrow> subseq ms (butlast (ticks s)))"

text \<open>What ended the process.\<close>

definition sse_end :: "sse_state \<Rightarrow> bool" where
  "sse_end s \<longleftrightarrow>
     (case sse_crashed s of None \<Rightarrow> True
      | Some p \<Rightarrow> p = SendOnClosedChannel \<and> (\<exists>m C V c. sim_at s = SimSend m C V c \<and> sse_at s c = SseDone)) \<and>
     (case sse_fatal s of None \<Rightarrow> True
      | Some e \<Rightarrow> map_writer s \<noteq> None \<and>
          (e = ''concurrent map writes'' \<or>
           e = ''concurrent map iteration and map write'' \<and> (\<exists>m C V. sim_at s = SimRange m C V \<and> C \<noteq> {})))"

definition sse_inv :: "sse_state \<Rightarrow> bool" where
  "sse_inv s \<longleftrightarrow>
     (\<forall>c. c \<in> sse_clients s \<longleftrightarrow> sse_at s c = SseSelect \<or> (\<exists>m. sse_at s c = SseWrite m) \<or> sse_at s c = SseDeleting) \<and>
     (\<forall>c. map_writer s = Some c \<longleftrightarrow> sse_at s c = SseInserting \<or> sse_at s c = SseDeleting) \<and>
     (\<forall>c. sse_closed s c \<longleftrightarrow> sse_at s c = SseDone) \<and>
     (\<forall>m. current (sim_at s) = Some m \<longrightarrow> ticks s \<noteq> [] \<and> last (ticks s) = m) \<and>
     (\<forall>m C V c. sim_at s = SimSend m C V c \<longrightarrow> c \<notin> V) \<and>
     (\<forall>c. \<exists>ms. received s c ms) \<and> sse_end s"

lemma subseq_snoc_last: "subseq ms (butlast ts) \<Longrightarrow> ts \<noteq> [] \<Longrightarrow> last ts = m \<Longrightarrow> subseq (ms @ [m]) ts"
  by (metis append_butlast_last_id subseq_append)

lemma received_weaken: "received s c ms \<Longrightarrow> subseq ms (ticks s)"
  by (simp add: received_def)

lemma received_tick:
  "received s c ms \<Longrightarrow> received (sim_tick now s) c ms"
  by (auto simp: received_def sim_tick_def intro: subseq_order.trans [OF _ prefix_imp_subseq])

lemma sse_inv_init: "sse_inv NewSseHandler"
  by (auto simp: sse_inv_def NewSseHandler_def received_def sse_end_def)

text \<open>The part of the invariant about what clients received, step by step.\<close>

lemma received_step:
  assumes "sse_step s t" "sse_inv s"
  shows "\<exists>ms. received t c ms"
proof -
  obtain ms where ms: "received s c ms" using assms(2) unfolding sse_inv_def by blast
  from assms(1) show ?thesis
  proof cases
    case (connect d)
    with ms show ?thesis by (intro exI [of _ ms]) (auto simp: received_def sse_defs)
  next
    case (inserted d)
    with ms show ?thesis by (intro exI [of _ ms]) (auto simp: received_def sse_defs)
  next
    case (write_event d m)
    with ms show ?thesis by (intro exI [of _ ms]) (auto simp: received_def sse_defs)
  next
    case (disconnect d)
    with ms show ?thesis by (intro exI [of _ ms]) (auto simp: received_def sse_defs)
  next
    case (deleted d)
    with ms show ?thesis by (intro exI [of _ ms]) (auto simp: received_def sse_defs)
  next
    case (close_chan d)
    with ms show ?thesis by (intro exI [of _ ms]) (auto simp: received_def sse_defs)
  next
    case (tick now)
    with ms show ?thesis by (auto intro: received_tick)
  next
    case (range_next m C V d)
    with ms show ?thesis by (intro exI [of _ ms]) (auto simp: received_def sse_defs)
  next
    case (range_stop m C V)
    with ms show ?thesis by (intro exI [of _ ms]) (auto simp: received_def sse_defs)
  next
    case (send_event m C V d ready)
    show ?thesis
    proof (cases "c = d \<and> \<not> sse_closed s d \<and> ready \<and> sse_at s d = SseSelect")
      case True
      have "ticks s \<noteq> []" "last (ticks s) = m" using assms(2) send_event(3) by (auto simp: sse_inv_def)
      moreover have "subseq ms (butlast (ticks s))" using ms True send_event(3) by (simp add: received_def)
      ultimately have "subseq (ms @ [m]) (ticks s)" by (rule subseq_snoc_last [rotated])
      with ms True send_event show ?thesis
        by (intro exI [of _ "ms @ [m]"]) (simp add: received_def sim_send_def)
    next
      case False
      with ms send_event show ?thesis
        by (intro exI [of _ ms]) (auto simp: received_def sim_send_def)
    qed
  qed
qed

lemma sse_end_step: "sse_inv s \<Longrightarrow> sse_step s t \<Longrightarrow> sse_end t"
  by (erule sse_step.cases) (auto simp: sse_inv_def sse_end_def sse_running_def sse_defs)

lemma sse_inv_step: "sse_inv s \<Longrightarrow> sse_step s t \<Longrightarrow> sse_inv t"
proof -
  assume inv: "sse_inv s" and st: "sse_step s t"
  have rec: "\<forall>c. \<exists>ms. received t c ms" using received_step [OF st inv] by blast
  have w: "\<forall>c. map_writer s = Some c \<longleftrightarrow> sse_at s c = SseInserting \<or> sse_at s c = SseDeleting" using inv unfolding sse_inv_def by blast
  then have one: "\<And>c d. sse_at s c = SseInserting \<or> sse_at s c = SseDeleting \<Longrightarrow> sse_at s d = SseInserting \<or> sse_at s d = SseDeleting \<Longrightarrow> c = d"
    by (metis option.inject)
  have "(\<forall>c. c \<in> sse_clients t \<longleftrightarrow> sse_at t c = SseSelect \<or> (\<exists>m. sse_at t c = SseWrite m) \<or> sse_at t c = SseDeleting) \<and>
     (\<forall>c. map_writer t = Some c \<longleftrightarrow> sse_at t c = SseInserting \<or> sse_at t c = SseDeleting) \<and>
     (\<forall>c. sse_closed t c \<longleftrightarrow> sse_at t c = SseDone) \<and>
     (\<forall>m. current (sim_at t) = Some m \<longrightarrow> ticks t \<noteq> [] \<and> last (ticks t) = m) \<and>
     (\<forall>m C V c. sim_at t = SimSend m C V c \<longrightarrow> c \<notin> V)"
    using st inv by cases (auto simp: sse_inv_def sse_defs split: if_splits, (metis one)+)
  with rec sse_end_step [OF inv st] show ?thesis by (simp add: sse_inv_def)
qed

interpretation sse: machine "\<lambda>s. s = NewSseHandler" sse_step sse_inv
  by unfold_locales (auto intro: sse_inv_init sse_inv_step)

abbreviation sse_reachable :: "sse_state \<Rightarrow> bool" where
  "sse_reachable s \<equiv> sse_step\<^sup>*\<^sup>* NewSseHandler s"

lemma sse_reachable_inv: "sse_reachable s \<Longrightarrow> sse_inv s"
  by (rule sse.inv_reachable) auto

section \<open>A run with one client\<close>

definition sse0 :: sse_state where "sse0 = sse_connect 3 NewSseHandler"
definition sse1 :: sse_state where "sse1 = sse_insert 3 sse0"
definition sse2 :: sse_state where "sse2 = sim_tick ''noon'' sse1"
definition sse3 :: sse_state where "sse3 = sim_next (sim_message ''noon'') {3} {} 3 sse2"
definition sse4 :: sse_state where "sse4 = sim_send True (sim_message ''noon'') {3} {} 3 sse3"
definition sse5 :: sse_state where "sse5 = sse_write 3 (sim_message ''noon'') sse4"

lemmas sse_run_defs = sse0_def sse1_def sse2_def sse3_def sse4_def sse5_def NewSseHandler_def sse_running_def sse_defs

lemma sse2_reachable: "sse_reachable sse0" "sse_reachable sse2"
proof -
  have 0: "sse_step NewSseHandler sse0" unfolding sse0_def by (rule sse_step.connect) (simp_all add: sse_run_defs)
  moreover have "sse_step sse0 sse1" unfolding sse1_def by (rule sse_step.inserted) (simp_all add: sse_run_defs)
  moreover have "sse_step sse1 sse2" unfolding sse2_def by (rule sse_step.tick) (simp_all add: sse_run_defs)
  ultimately show "sse_reachable sse2" by (meson rtranclp.rtrancl_into_rtrancl rtranclp.rtrancl_refl)
  show "sse_reachable sse0" using 0 by (rule r_into_rtranclp)
qed

lemma sse3_reachable: "sse_reachable sse3"
proof -
  have "sse_step sse2 sse3" unfolding sse3_def by (rule sse_step.range_next) (simp_all add: sse_run_defs)
  with sse2_reachable(2) show ?thesis by (rule rtranclp.rtrancl_into_rtrancl)
qed

lemma sse5_reachable: "sse_reachable sse5"
proof -
  have "sse_step sse3 sse4" unfolding sse4_def by (rule sse_step.send_event) (simp_all add: sse_run_defs)
  moreover have "sse_step sse4 sse5" unfolding sse5_def by (rule sse_step.write_event) (simp_all add: sse_run_defs)
  ultimately show ?thesis using sse3_reachable by (meson rtranclp.rtrancl_into_rtrancl)
qed

text \<open>Two connections at once, and a disconnect while the range loop runs.\<close>

lemma sse_map_races:
  "\<exists>s. sse_reachable s \<and> sse_fatal s = Some ''concurrent map writes''"
  "\<exists>s. sse_reachable s \<and> sse_fatal s = Some ''concurrent map iteration and map write''"
proof -
  have "sse_step sse0 (sse_connect 4 sse0)" by (rule sse_step.connect) (simp_all add: sse_run_defs)
  with sse2_reachable(1) have "sse_reachable (sse_connect 4 sse0)" by (rule rtranclp.rtrancl_into_rtrancl)
  moreover have "sse_fatal (sse_connect 4 sse0) = Some ''concurrent map writes''" by (simp add: sse_run_defs)
  ultimately show "\<exists>s. sse_reachable s \<and> sse_fatal s = Some ''concurrent map writes''" by blast
  let ?a = "sse_disconnect 3 sse2"
  let ?b = "sim_next (sim_message ''noon'') {3} {} 3 ?a"
  have "sse_step sse2 ?a" by (rule sse_step.disconnect) (simp_all add: sse_run_defs)
  moreover have "sse_step ?a ?b" by (rule sse_step.range_next) (simp_all add: sse_run_defs)
  ultimately have "sse_reachable ?b" using sse2_reachable(2) by (meson rtranclp.rtrancl_into_rtrancl)
  moreover have "sse_fatal ?b = Some ''concurrent map iteration and map write''" by (simp add: sse_run_defs)
  ultimately show "\<exists>s. sse_reachable s \<and> sse_fatal s = Some ''concurrent map iteration and map write''" by blast
qed

section \<open>Properties of the event server\<close>

text \<open>
  C6. In every reachable state each client's response consists of whole events, one for each message
  of a subsequence of the ticks simulated so far: no event is torn, repeated or out of order.
\<close>

theorem sse_client_sees_subsequence:
  assumes "sse_reachable s"
  shows "\<exists>ms. sse_out s c = map sse_event ms \<and> subseq ms (ticks s)"
proof -
  obtain ms where ms: "received s c ms"
    using sse_reachable_inv [OF assms] unfolding sse_inv_def by blast
  let ?n = "length (sse_out s c)"
  have "sse_out s c = map sse_event (take ?n ms)"
    using ms by (metis append_eq_conv_conj received_def take_map)
  moreover have "subseq (take ?n ms) (ticks s)"
    using received_weaken [OF ms] prefix_imp_subseq [OF take_is_prefix] subseq_order.trans by blast
  ultimately show ?thesis by blast
qed

theorem sse_client_sees_subsequence_witness:
  "sse_reachable sse5 \<and> (\<exists>ms. sse_out sse5 3 = map sse_event ms \<and> subseq ms (ticks sse5)) \<and>
   sse_out sse5 3 \<noteq> []"
  using sse5_reachable sse_client_sees_subsequence [OF sse5_reachable, of 3]
  by (simp add: sse5_def sse_write_def)

text \<open>
  C7. The map without a lock. In every reachable state the map holds exactly the clients that are being served or whose deletion has begun,
  a channel is closed exactly when its client's handler is done, so never while the client is in the map and never twice, and at most one goroutine is inside
  a write of the map. With every overlap of map operations found by the runtime, the process can end in three ways only: a send on the channel of a client whose
  handler is done (C8 is such a run), a second write of the map while one is in progress, and a step of the range loop over a map that was not
  empty while a write is in progress; runs with each of the two errors of the map exist.
\<close>

theorem sse_map_and_channels:
  assumes "sse_reachable s"
  shows "(c \<in> sse_clients s \<longleftrightarrow> sse_at s c = SseSelect \<or> (\<exists>m. sse_at s c = SseWrite m) \<or> sse_at s c = SseDeleting) \<and>
    (sse_closed s c \<longleftrightarrow> sse_at s c = SseDone) \<and>
    (sse_at s c \<in> {SseInserting, SseDeleting} \<and> sse_at s d \<in> {SseInserting, SseDeleting} \<longrightarrow> c = d) \<and>
    (sse_crashed s \<noteq> None \<longrightarrow> sse_crashed s = Some SendOnClosedChannel \<and>
       (\<exists>m C V e. sim_at s = SimSend m C V e \<and> sse_at s e = SseDone)) \<and>
    (sse_fatal s \<noteq> None \<longrightarrow> (\<exists>e. sse_at s e \<in> {SseInserting, SseDeleting}) \<and>
       (sse_fatal s = Some ''concurrent map writes'' \<or>
        sse_fatal s = Some ''concurrent map iteration and map write'' \<and> (\<exists>m C V. sim_at s = SimRange m C V \<and> C \<noteq> {}))) \<and>
    (\<forall>e \<in> {''concurrent map writes'', ''concurrent map iteration and map write''}. \<exists>t. sse_reachable t \<and> sse_fatal t = Some e)"
proof -
  note inv = sse_reachable_inv [OF assms]
  have w: "map_writer s = Some e \<longleftrightarrow> sse_at s e = SseInserting \<or> sse_at s e = SseDeleting" for e
    using inv unfolding sse_inv_def by blast
  have "sse_at s c \<in> {SseInserting, SseDeleting} \<and> sse_at s d \<in> {SseInserting, SseDeleting} \<longrightarrow> c = d"
    using w [of c] w [of d] by auto
  moreover have "map_writer s \<noteq> None \<longrightarrow> (\<exists>e. sse_at s e \<in> {SseInserting, SseDeleting})" using w by auto
  ultimately show ?thesis using inv sse_map_races by (auto simp: sse_inv_def sse_end_def split: option.splits)
qed

theorem sse_map_and_channels_witness:
  "sse_reachable sse5 \<and> 3 \<in> sse_clients sse5 \<and> sse_at sse5 3 = SseSelect \<and> \<not> sse_closed sse5 3 \<and>
   sse_fatal sse5 = None \<and> sse_crashed sse5 = None"
proof -
  have "sse_at sse5 3 = SseSelect" "sse_fatal sse5 = None" "sse_crashed sse5 = None" by (simp_all add: sse_run_defs)
  then show ?thesis using sse5_reachable sse_map_and_channels [OF sse5_reachable, of 3] by simp
qed

text \<open>
  C8. The unsynchronised clean-up is a race: there is a run in which the range loop yields a client's
  channel, the client disconnects and its handler deletes and closes the channel, and the send then
  panics with \<^verbatim>\<open>send on closed channel\<close>, which ends the server.
\<close>

theorem sse_disconnect_race: "\<exists>s. sse_reachable s \<and> sse_crashed s = Some SendOnClosedChannel"
proof -
  let ?d = "sse_disconnect 3 sse3"
  let ?a = "sse_delete 3 ?d"
  let ?b = "sse_close 3 ?a"
  let ?c = "sim_send True (sim_message ''noon'') {3} {} 3 ?b"
  have "sse_step sse3 ?d" by (rule sse_step.disconnect) (simp_all add: sse_run_defs)
  moreover have "sse_step ?d ?a" by (rule sse_step.deleted) (simp_all add: sse_run_defs)
  moreover have "sse_step ?a ?b" by (rule sse_step.close_chan) (simp_all add: sse_run_defs)
  moreover have "sse_step ?b ?c" by (rule sse_step.send_event) (simp_all add: sse_run_defs)
  ultimately have "sse_reachable ?c" using sse3_reachable by (meson rtranclp.rtrancl_into_rtrancl)
  moreover have "sse_crashed ?c = Some SendOnClosedChannel" by (simp add: sse_run_defs)
  ultimately show ?thesis by blast
qed

end
