(* ===== verification/Small_Programs.thy ===== *)
theory Small_Programs
  imports Chat_Hub Sse_Server File_Server
begin

text \<open>
  Programs of a page: the static file server (\<^verbatim>\<open>http/static\<close>), the mains of the chat and event-stream servers (\<^verbatim>\<open>chat/main.go\<close>,
  \<^verbatim>\<open>http/sse/main.go\<close>), the servers that are put under load (\<^verbatim>\<open>load/simulate/server\<close>, \<^verbatim>\<open>http/shedding\<close>), documents with times
  (\<^verbatim>\<open>mon\<close>), the Bloom filter (\<^verbatim>\<open>bloom\<close>), sharding (\<^verbatim>\<open>siphash\<close>), the publisher (\<^verbatim>\<open>etcd/pub\<close>) and parallel sleeping
  (\<^verbatim>\<open>mapreduce/finishvoid\<close>). Each program's library is a parameter with what the program relies on.
\<close>

section \<open>Static files\<close>

text \<open>
  \<^verbatim>\<open>http.StripPrefix\<close> answers 404 for a path without the prefix; \<^verbatim>\<open>http.FileServer\<close> cleans the rest as a rooted path and opens it
  under the directory. The route matches one segment below \<^verbatim>\<open>/static/\<close>.
\<close>

datatype static_answer = OpensFile string | StaticNotFound

definition StripPrefix :: "string \<Rightarrow> (string \<Rightarrow> static_answer) \<Rightarrow> string \<Rightarrow> static_answer" where
  "StripPrefix pre h p = (if prefix pre p then h (drop (length pre) p) else StaticNotFound)"

definition FileServer :: "string \<Rightarrow> string \<Rightarrow> static_answer" where
  "FileServer dir p = OpensFile (path_Join [dir, path_Clean (if prefix ''/'' p then p else ''/'' @ p)])"

definition static_main :: "(string \<times> string \<times> (string \<Rightarrow> static_answer)) list" where
  "static_main = [(''GET'', ''/static/:file'', StripPrefix ''/static/'' (FileServer ''assets''))]"

lemma rooted_names: "normal True cs \<Longrightarrow> x \<in> set cs \<Longrightarrow> proper_name x"
  by (induction cs) (auto simp: plain_comp_def proper_name_def)

lemma fold_names: "\<forall>x \<in> set xs. proper_name x \<Longrightarrow> fold (clean_comp b) xs acc = rev xs @ acc"
  by (induction xs arbitrary: acc) (simp_all add: clean_comp_proper del: clean_comp.simps)

text \<open>A rooted path, cleaned and joined to a directory's name, stays inside the directory.\<close>

lemma join_rooted:
  assumes "proper_name d" "rooted p"
  shows "path_Join [d, path_Clean p] = join ''/'' (d # rev (clean_comps p))"
proof -
  have names: "\<forall>x \<in> set (rev (clean_comps p)). proper_name x"
    using clean_comps_normal [of p] rooted_names assms(2) by auto
  have d: "d \<noteq> []" "\<not> rooted d" "clean_comps d = [d]"
    using assms(1) clean_comp_proper [OF assms(1), of _ "[]"]
    by (auto simp: proper_name_def rooted_def prefix_def clean_comps_def split_on_absent)
  have "fold (clean_comp False) (split_on (CHR ''/'') (path_Clean p)) [d] = clean_comps p @ [d]"
  proof (cases "clean_comps p = []")
    case True
    then show ?thesis using assms(2) by (simp add: path_Clean_def)
  next
    case False
    have "split_on (CHR ''/'') (join ''/'' (rev (clean_comps p))) = rev (clean_comps p)"
      using False clean_comps_set [of _ p] by (intro split_on_join) (auto simp: plain_comp_def)
    then have "split_on (CHR ''/'') (path_Clean p) = [] # rev (clean_comps p)" using assms(2) by (simp add: path_Clean_def)
    then show ?thesis using fold_names [OF names, of False "[d]"] by simp
  qed
  then have c: "clean_comps (d @ ''/'' @ path_Clean p) = clean_comps p @ [d]"
    using clean_comps_append [OF d(1), of "path_Clean p"] d by simp
  have "path_Clean p \<noteq> []" using assms(2) by (simp add: path_Clean_def)
  then have "path_Join [d, path_Clean p] = path_Clean (d @ ''/'' @ path_Clean p)" using d(1) by (simp add: path_Join_def)
  moreover have "join ''/'' (d # rev (clean_comps p)) \<noteq> []" using d(1) by (cases "clean_comps p = []") (simp_all add: join_Cons2)
  ultimately show ?thesis using d c by (simp add: path_Clean_def [of "d @ _"] rooted_append)
qed

text \<open>
  Whatever the path of the request, with encoded separators and steps upwards or not, the file opened is the directory
  \<^verbatim>\<open>assets\<close> or lies in it.
\<close>

lemma static_confined:
  assumes "(m, pat, h) \<in> set static_main" "h p = OpensFile q"
  shows "q = ''assets'' \<or> prefix ''assets/'' q"
proof -
  have a: "proper_name ''assets''" by (simp add: proper_name_def)
  have r: "rooted (if prefix ''/'' s then s else ''/'' @ s)" for s by (simp add: rooted_def)
  obtain s where "q = join ''/'' (''assets'' # rev (clean_comps s))"
    using assms join_rooted [OF a r] by (auto simp: static_main_def StripPrefix_def FileServer_def split: if_splits)
  then show ?thesis by (cases "clean_comps s = []") (simp_all add: join_Cons2)
qed

section \<open>The mains of the chat and event-stream servers\<close>

record engine_conf =
  ec_Host :: string
  ec_Port :: int
  ec_Timeout :: int
  ec_CpuThreshold :: int

datatype chat_page = HomePage | WebSocket

definition chat_main :: "int \<Rightarrow> int \<Rightarrow> int \<Rightarrow> engine_conf \<times> chat_state \<times> (string \<times> string \<times> chat_page) list" where
  "chat_main port timeout cpu =
     (\<lparr>ec_Host = ''localhost'', ec_Port = port, ec_Timeout = timeout, ec_CpuThreshold = cpu\<rparr>, NewHub,
      [(''GET'', ''/'', HomePage), (''GET'', ''/ws'', WebSocket)])"

text \<open>The home page's own checks of path and method never fail behind the router.\<close>

lemma chat_home: "(meth, path, HomePage) \<in> set (snd (snd (chat_main port timeout cpu))) \<Longrightarrow> homeHandler path meth = ServeFile ''home.html''"
  by (simp add: chat_main_def homeHandler_def)

datatype sse_route = SseServe nat | StaticDir string

definition sse_main :: "engine_conf \<times> sse_state \<times> (string \<times> sse_route) list" where
  "sse_main = (\<lparr>ec_Host = ''0.0.0.0'', ec_Port = 8080, ec_Timeout = 0, ec_CpuThreshold = 0\<rparr>, NewSseHandler,
     [(''/static'', StaticDir ''static''), (''/sse'', SseServe 0)])"

section \<open>Servers under load\<close>

text \<open>
  \<^verbatim>\<open>fx.DoWithTimeout\<close>: the function's error when it returns within the time, otherwise the deadline's. Times in milliseconds; the job
  sleeps for one and takes \<open>elapsed\<close> when the machine is busy.
\<close>

definition DeadlineExceeded :: go_error where "DeadlineExceeded = Sentinel ''context deadline exceeded''"

definition DoWithTimeout :: "nat \<times> unit result \<Rightarrow> nat \<Rightarrow> unit result" where
  "DoWithTimeout fn timeout = (if fst fn \<le> timeout then snd fn else Inl DeadlineExceeded)"

definition simulate_job :: "(nat \<Rightarrow> nat) \<Rightarrow> nat \<times> unit result" where
  "simulate_job elapsed = (elapsed 1, Inr ())"

definition simulate_handler :: "(nat \<Rightarrow> nat) \<Rightarrow> http_write list" where
  "simulate_handler elapsed =
     (case DoWithTimeout (simulate_job elapsed) 100 of Inl err \<Rightarrow> [HttpStatus 503] | Inr _ \<Rightarrow> [])"

definition simulate_main :: "(nat \<Rightarrow> nat) \<Rightarrow> engine_conf \<times> (string \<times> string \<times> http_write list) list" where
  "simulate_main elapsed =
     (\<lparr>ec_Host = ''0.0.0.0'', ec_Port = 3333, ec_Timeout = 0, ec_CpuThreshold = 800\<rparr>, [(''GET'', ''/'', simulate_handler elapsed)])"

lemma simulate_status: "simulate_handler elapsed = (if elapsed 1 \<le> 100 then [] else [HttpStatus 503])"
  by (simp add: simulate_handler_def DoWithTimeout_def simulate_job_def)

text \<open>The shedding demo's handler: \<open>sum_of_roots\<close> is the sum of the square roots of the numbers below its argument.\<close>

definition shedding_handle :: "('q, 'c) http_lib \<Rightarrow> (nat \<Rightarrow> string) \<Rightarrow> 'q \<Rightarrow> http_write list" where
  "shedding_handle H sum_of_roots r =
     (case Parse H r [(FormField, ''user,optional'', JStr [])] of
        Inl err \<Rightarrow> [HttpErrorText 400 (err_text err)]
      | Inr _ \<Rightarrow> [HttpJsonStr (sum_of_roots 30000)])"

definition shedding_main ::
  "('q, 'c) http_lib \<Rightarrow> (nat \<Rightarrow> string) \<Rightarrow> int \<Rightarrow> int \<Rightarrow> int \<Rightarrow> engine_conf \<times> (string \<times> string \<times> ('q \<Rightarrow> http_write list)) list" where
  "shedding_main H sum_of_roots port timeout cpu =
     (\<lparr>ec_Host = [], ec_Port = port, ec_Timeout = timeout, ec_CpuThreshold = cpu\<rparr>,
      [(''GET'', ''/'', shedding_handle H sum_of_roots)])"

section \<open>Documents\<close>

record ('i, 't) Roster =
  ro_Id :: 'i
  ro_CreateTime :: 't
  ro_DisplayName :: string

record ('i, 't, 'w) mon_model =
  InsertOne :: "('i, 't) Roster \<Rightarrow> 'w \<Rightarrow> 'w \<times> unit result"
  UpdateByID :: "'i \<Rightarrow> string \<Rightarrow> 't \<Rightarrow> 'w \<Rightarrow> 'w \<times> unit result"
  ReplaceOne :: "'i \<Rightarrow> ('i, 't) Roster \<Rightarrow> 'w \<Rightarrow> 'w \<times> unit result"
  FindOne :: "'i \<Rightarrow> 'w \<Rightarrow> 'w \<times> ('i, 't) Roster result"

text \<open>An error of any call is a panic of the program, \<open>now1\<close> and \<open>now2\<close> are the two readings of the clock.\<close>

definition mon_main :: "('i, 't, 'w) mon_model \<Rightarrow> 'i \<Rightarrow> 't \<Rightarrow> 't \<Rightarrow> 'w \<Rightarrow> 'w \<times> ('i, 't) Roster result" where
  "mon_main model newId now1 now2 =
     (let r = \<lparr>ro_Id = newId, ro_CreateTime = now1, ro_DisplayName = ''Hello''\<rparr>
      in try_do (InsertOne model r) (\<lambda>_.
         try_do (UpdateByID model (ro_Id r) ''Hello world'' now2) (\<lambda>_.
         let r = r\<lparr>ro_DisplayName := ''Hello world!''\<rparr>
         in try_do (ReplaceOne model (ro_Id r) r) (\<lambda>_. FindOne model (ro_Id r)))))"

text \<open>What the collection promises, over the documents it holds; times are kept as \<open>kept\<close> (to the millisecond).\<close>

definition mon_ok :: "('i, 't, 'w) mon_model \<Rightarrow> ('w \<Rightarrow> 'i \<rightharpoonup> ('i, 't) Roster) \<Rightarrow> ('t \<Rightarrow> 't) \<Rightarrow> bool" where
  "mon_ok M docs kept \<longleftrightarrow>
     (\<forall>r w. docs w (ro_Id r) = None \<longrightarrow> (\<exists>w'. InsertOne M r w = (w', Inr ()) \<and>
        docs w' = (docs w)(ro_Id r \<mapsto> r\<lparr>ro_CreateTime := kept (ro_CreateTime r)\<rparr>))) \<and>
     (\<forall>i n t w d. docs w i = Some d \<longrightarrow> (\<exists>w'. UpdateByID M i n t w = (w', Inr ()) \<and>
        docs w' = (docs w)(i \<mapsto> d\<lparr>ro_DisplayName := n, ro_CreateTime := kept t\<rparr>))) \<and>
     (\<forall>i r w d. docs w i = Some d \<and> ro_Id r = i \<longrightarrow> (\<exists>w'. ReplaceOne M i r w = (w', Inr ()) \<and>
        docs w' = (docs w)(i \<mapsto> r\<lparr>ro_CreateTime := kept (ro_CreateTime r)\<rparr>))) \<and>
     (\<forall>i w d. docs w i = Some d \<longrightarrow> FindOne M i w = (w, Inr d))"

lemma mon_okD:
  assumes "mon_ok M docs kept"
  shows "docs w (ro_Id r) = None \<Longrightarrow> \<exists>w'. InsertOne M r w = (w', Inr ()) \<and>
      docs w' = (docs w)(ro_Id r \<mapsto> r\<lparr>ro_CreateTime := kept (ro_CreateTime r)\<rparr>)"
    "docs w i = Some d \<Longrightarrow> \<exists>w'. UpdateByID M i n t w = (w', Inr ()) \<and>
      docs w' = (docs w)(i \<mapsto> d\<lparr>ro_DisplayName := n, ro_CreateTime := kept t\<rparr>)"
    "docs w (ro_Id r) = Some d \<Longrightarrow> \<exists>w'. ReplaceOne M (ro_Id r) r w = (w', Inr ()) \<and>
      docs w' = (docs w)(ro_Id r \<mapsto> r\<lparr>ro_CreateTime := kept (ro_CreateTime r)\<rparr>)"
    "docs w i = Some d \<Longrightarrow> FindOne M i w = (w, Inr d)"
  using assms unfolding mon_ok_def by blast+

text \<open>The program's last document has the first time again: the replacement puts back what the update had changed.\<close>

lemma mon_main_restores:
  assumes "mon_ok M docs kept" "docs w i = None"
  shows "snd (mon_main M i t1 t2 w) = Inr \<lparr>ro_Id = i, ro_CreateTime = kept t1, ro_DisplayName = ''Hello world!''\<rparr>"
proof -
  let ?r = "\<lparr>ro_Id = i, ro_CreateTime = t1, ro_DisplayName = ''Hello''\<rparr>"
    and ?r' = "\<lparr>ro_Id = i, ro_CreateTime = t1, ro_DisplayName = ''Hello world!''\<rparr>"
  obtain w1 d1 where w1: "InsertOne M ?r w = (w1, Inr ())" "docs w1 i = Some d1"
    using mon_okD(1) [OF assms(1), of w ?r] assms(2) by auto
  obtain w2 d2 where w2: "UpdateByID M i ''Hello world'' t2 w1 = (w2, Inr ())" "docs w2 i = Some d2"
    using mon_okD(2) [OF assms(1) w1(2), of "''Hello world''" t2] by auto
  obtain w3 where w3: "ReplaceOne M i ?r' w2 = (w3, Inr ())" "docs w3 i = Some (?r'\<lparr>ro_CreateTime := kept t1\<rparr>)"
    using mon_okD(3) [OF assms(1), of w2 ?r' d2] w2(2) by auto
  show ?thesis using w1 w2 w3 mon_okD(4) [OF assms(1) w3(2)] by (simp add: mon_main_def try_do_def Let_def)
qed

section \<open>Filters, shards, hosts\<close>

text \<open>The errors of \<^verbatim>\<open>Add\<close> are not looked at; each \<^verbatim>\<open>Exists\<close> is printed.\<close>

definition bloom_main :: "(string \<Rightarrow> 'w \<Rightarrow> 'w) \<Rightarrow> (string \<Rightarrow> 'w \<Rightarrow> bool result) \<Rightarrow> 'w \<Rightarrow> bool result list" where
  "bloom_main Add Exists w =
     (let w = Add ''kevin'' w; w = Add ''wan'' w in [Exists ''kevin'' w, Exists ''wan'' w, Exists ''nothing'' w])"

text \<open>No false negatives: with a filter that keeps what was added, both names are found.\<close>

lemma bloom_main_finds:
  assumes "\<And>k w. Exists k (Add k w) = Inr True" "\<And>k k' w. Exists k w = Inr True \<Longrightarrow> Exists k (Add k' w) = Inr True"
  shows "take 2 (bloom_main Add Exists w) = [Inr True, Inr True]"
  using assms(1) assms(2) [OF assms(1)] by (simp add: bloom_main_def Let_def numeral_2_eq_2)

definition sharding :: "(64 word \<Rightarrow> 64 word \<Rightarrow> string \<Rightarrow> 64 word) \<Rightarrow> string \<Rightarrow> 64 word" where
  "sharding Hash token = Hash 0 0 token mod 3"

lemma sharding_bound: "sharding Hash token < 3"
  by (simp add: sharding_def word_mod_less_divisor word_gt_0)

definition pub_hosts :: "string \<Rightarrow> string \<Rightarrow> string list" where
  "pub_hosts etcdHosts envHosts = split_on (CHR '','') (if envHosts \<noteq> [] then envHosts else etcdHosts)"

text \<open>The environment wins over the flag, and a list of hosts without commas comes apart as it was joined.\<close>

lemma pub_hosts_env:
  assumes "hs \<noteq> []" "\<forall>h \<in> set hs. CHR '','' \<notin> set h \<and> h \<noteq> []"
  shows "pub_hosts fl (join '','' hs) = hs" "pub_hosts (join '','' hs) [] = hs"
proof -
  have "join '','' hs \<noteq> []" using assms by (cases "tl hs = []"; cases hs) (auto simp: join_Cons2)
  then show "pub_hosts fl (join '','' hs) = hs" "pub_hosts (join '','' hs) [] = hs"
    using split_on_join [OF assms(1), of "CHR '',''"] assms(2) by (simp_all add: pub_hosts_def)
qed

section \<open>Parallel sleeping\<close>

text \<open>\<open>par\<close> is how long \<^verbatim>\<open>mr.FinishVoid\<close> and \<^verbatim>\<open>mr.Finish\<close> take for functions that take the given seconds and do not fail.\<close>

definition finishvoid_main :: "(nat list \<Rightarrow> nat) \<Rightarrow> nat" where
  "finishvoid_main par = par [1, 5, 10, 6, par [1, 10]]"

lemma finishvoid_elapsed: "(\<And>ts. ts \<noteq> [] \<Longrightarrow> par ts = Max (set ts)) \<Longrightarrow> finishvoid_main par = 10"
  by (simp add: finishvoid_main_def)

end
