(* ===== verification/Worker_Pool.thy ===== *)
theory Worker_Pool
  imports Go_Prelude "HOL-Library.Multiset"
begin

text \<open>
  The resource pool under a hundred workers (\<^verbatim>\<open>pool/pool.go\<close>). The pool itself is the library's; the two functions it is
  given, which create and destroy a resource and print how many there are, and the goroutines that take resources and
  put them back are the program's.
\<close>

section \<open>The pool and its callbacks\<close>

text \<open>An interface value: what \<^verbatim>\<open>Get\<close> returns is one, and the workers assert that it is an \<^verbatim>\<open>int\<close>.\<close>

datatype pool_item = Item_nil | Item_int "64 word" | Item_other string

datatype pool_line = PlusLine int | MinusLine int | RoutineQuit | Quitted | ConsumedLine int

record pool_world =
  pw_count :: "32 word"
  pw_out :: "pool_line list"

definition pool_create :: "pool_world \<Rightarrow> pool_world \<times> pool_item" where
  "pool_create w =
     (let n = pw_count w + 1
      in (w\<lparr>pw_count := n, pw_out := pw_out w @ [PlusLine (sint n)]\<rparr>, Item_int 1))"

definition pool_destroy :: "pool_item \<Rightarrow> pool_world \<Rightarrow> pool_world" where
  "pool_destroy x w =
     (let n = pw_count w - 1
      in w\<lparr>pw_count := n, pw_out := pw_out w @ [MinusLine (sint n)]\<rparr>)"

text \<open>
  The library: \<^verbatim>\<open>NewPool\<close> takes the limit and the maximal age in seconds; \<^verbatim>\<open>Get\<close> and \<^verbatim>\<open>Put\<close> read the clock; \<^verbatim>\<open>Get\<close> may call the two
  functions and is \<open>None\<close> when it has to wait. It hands out an idle resource or, when none is left, a new one within
  the limit, after destroying idle resources that are too old; it waits only when all resources it may make are out.
\<close>

record ('p, 'w) pool_lib =
  NewPool :: "nat \<Rightarrow> nat \<Rightarrow> 'p"
  PoolGet :: "nat \<Rightarrow> ('w \<Rightarrow> 'w \<times> pool_item) \<Rightarrow> (pool_item \<Rightarrow> 'w \<Rightarrow> 'w) \<Rightarrow> 'p \<Rightarrow> 'w \<Rightarrow> ('p \<times> 'w \<times> pool_item) option"
  PoolPut :: "nat \<Rightarrow> pool_item \<Rightarrow> 'p \<Rightarrow> 'p"

record 'p pool_view =
  idle :: "'p \<Rightarrow> pool_item multiset"
  created :: "'p \<Rightarrow> nat"
  limit :: "'p \<Rightarrow> nat"

definition get_reuses :: "'p pool_view \<Rightarrow> (pool_item \<Rightarrow> 'w \<Rightarrow> 'w) \<Rightarrow> 'p \<Rightarrow> 'w \<Rightarrow> 'p \<Rightarrow> 'w \<Rightarrow> pool_item \<Rightarrow> bool" where
  "get_reuses V de p w p' w' x \<longleftrightarrow> (\<exists>ds. idle V p = mset ds + {#x#} + idle V p' \<and>
     w' = fold de ds w \<and> created V p' = created V p - length ds)"

definition get_creates :: "'p pool_view \<Rightarrow> ('w \<Rightarrow> 'w \<times> pool_item) \<Rightarrow> (pool_item \<Rightarrow> 'w \<Rightarrow> 'w) \<Rightarrow> 'p \<Rightarrow> 'w \<Rightarrow> 'p \<Rightarrow> 'w \<Rightarrow> pool_item \<Rightarrow> bool" where
  "get_creates V cr de p w p' w' x \<longleftrightarrow> (\<exists>ds. idle V p = mset ds \<and> idle V p' = {#} \<and>
     (w', x) = cr (fold de ds w) \<and> created V p - length ds < limit V p \<and> created V p' = created V p - length ds + 1)"

definition pool_ok :: "('p, 'w) pool_lib \<Rightarrow> 'p pool_view \<Rightarrow> bool" where
  "pool_ok P V \<longleftrightarrow>
     (\<forall>n a. idle V (NewPool P n a) = {#} \<and> created V (NewPool P n a) = 0 \<and> limit V (NewPool P n a) = n) \<and>
     (\<forall>t cr de p w. PoolGet P t cr de p w = None \<and> size (idle V p) \<le> created V p \<and> created V p \<le> limit V p \<longrightarrow>
        idle V p = {#} \<and> limit V p \<le> created V p) \<and>
     (\<forall>t cr de p w p' w' x. PoolGet P t cr de p w = Some (p', w', x) \<longrightarrow> limit V p' = limit V p \<and>
        (get_reuses V de p w p' w' x \<or> get_creates V cr de p w p' w' x)) \<and>
     (\<forall>t x p. x \<noteq> Item_nil \<longrightarrow> idle V (PoolPut P t x p) = add_mset x (idle V p) \<and>
        created V (PoolPut P t x p) = created V p \<and> limit V (PoolPut P t x p) = limit V p)"

lemma pool_okD:
  assumes "pool_ok P V"
  shows "idle V (NewPool P n a) = {#}" "created V (NewPool P n a) = 0" "limit V (NewPool P n a) = n"
    "PoolGet P t cr de p w = None \<Longrightarrow> size (idle V p) \<le> created V p \<Longrightarrow> created V p \<le> limit V p \<Longrightarrow>
        idle V p = {#} \<and> limit V p \<le> created V p"
    "PoolGet P t cr de p w = Some (p', w', x) \<Longrightarrow> limit V p' = limit V p \<and>
        (get_reuses V de p w p' w' x \<or> get_creates V cr de p w p' w' x)"
    "x \<noteq> Item_nil \<Longrightarrow> idle V (PoolPut P t x p) = add_mset x (idle V p)"
    "x \<noteq> Item_nil \<Longrightarrow> created V (PoolPut P t x p) = created V p"
    "x \<noteq> Item_nil \<Longrightarrow> limit V (PoolPut P t x p) = limit V p"
  using assms unfolding pool_ok_def by blast+

section \<open>The process\<close>

text \<open>
  A worker is at its \<^verbatim>\<open>select\<close>, in \<^verbatim>\<open>Get\<close>, holds a resource before and after counting it, runs its deferred function up to
  \<^verbatim>\<open>Done\<close> and up to its line, or is gone. The main goroutine starts workers, reads a line, closes the channel, says so,
  waits, prints the total and exits; a worker that has called \<^verbatim>\<open>Done\<close> may print its line until then. \<open>pl_gets\<close> is the number of resources taken so far.
\<close>

datatype pool_pc = PoolSelect | PoolGetting | PoolGot "64 word" | PoolPutting "64 word" | PoolLeaving | PoolDone | PoolGone

datatype pool_main_pc = PoolSpawning nat | PoolReading | PoolClosing | PoolSaying | PoolWaiting | PoolReported | PoolExit

record 'p pool_state =
  pl_main :: pool_main_pc
  pl_workers :: "pool_pc list"
  pl_wait :: nat
  pl_quit :: bool
  pl_pool :: 'p
  pl_world :: pool_world
  pl_consumed :: "32 word"
  pl_panic :: "go_panic option"
  pl_gets :: nat

definition pool_start :: "('p, pool_world) pool_lib \<Rightarrow> 'p pool_state" where
  "pool_start P = \<lparr>pl_main = PoolSpawning 0, pl_workers = [], pl_wait = 100, pl_quit = False, pl_pool = NewPool P 80 1,
     pl_world = \<lparr>pw_count = 0, pw_out = []\<rparr>, pl_consumed = 0, pl_panic = None, pl_gets = 0\<rparr>"

definition pool_alive :: "'p pool_state \<Rightarrow> bool" where
  "pool_alive s \<longleftrightarrow> pl_panic s = None \<and> pl_main s \<noteq> PoolExit"

definition pool_move :: "nat \<Rightarrow> pool_pc \<Rightarrow> 'p pool_state \<Rightarrow> 'p pool_state" where
  "pool_move i q s = s\<lparr>pl_workers := (pl_workers s)[i := q]\<rparr>"

definition pool_say :: "pool_line \<Rightarrow> 'p pool_state \<Rightarrow> 'p pool_state" where
  "pool_say l s = s\<lparr>pl_world := (pl_world s)\<lparr>pw_out := pw_out (pl_world s) @ [l]\<rparr>\<rparr>"

text \<open>\<^verbatim>\<open>x := pool.Get().(int)\<close> at time \<open>t\<close>, when it does not have to wait.\<close>

definition worker_get :: "('p, pool_world) pool_lib \<Rightarrow> nat \<Rightarrow> nat \<Rightarrow> 'p pool_state \<Rightarrow> 'p pool_state option" where
  "worker_get P t i s =
     (case PoolGet P t pool_create pool_destroy (pl_pool s) (pl_world s) of
        None \<Rightarrow> None
      | Some (p, w, v) \<Rightarrow>
          let s = s\<lparr>pl_pool := p, pl_world := w\<rparr>
          in Some (case v of
               Item_int x \<Rightarrow> pool_move i (PoolGot x) (s\<lparr>pl_gets := Suc (pl_gets s)\<rparr>)
             | _ \<Rightarrow> s\<lparr>pl_panic := Some TypeAssertion\<rparr>))"

definition worker_consume :: "nat \<Rightarrow> 64 word \<Rightarrow> 'p pool_state \<Rightarrow> 'p pool_state" where
  "worker_consume i x s = pool_move i (PoolPutting x) (s\<lparr>pl_consumed := pl_consumed s + 1\<rparr>)"

definition worker_put :: "('p, pool_world) pool_lib \<Rightarrow> nat \<Rightarrow> nat \<Rightarrow> 64 word \<Rightarrow> 'p pool_state \<Rightarrow> 'p pool_state" where
  "worker_put P t i x s = pool_move i PoolSelect (s\<lparr>pl_pool := PoolPut P t (Item_int x) (pl_pool s)\<rparr>)"

definition worker_done :: "nat \<Rightarrow> 'p pool_state \<Rightarrow> 'p pool_state" where
  "worker_done i s =
     (if pl_wait s = 0 then s\<lparr>pl_panic := Some (PanicValue ''sync: negative WaitGroup counter'')\<rparr>
      else pool_move i PoolDone (s\<lparr>pl_wait := pl_wait s - 1\<rparr>))"

definition pool_close :: "'p pool_state \<Rightarrow> 'p pool_state" where
  "pool_close s =
     (if pl_quit s then s\<lparr>pl_panic := Some CloseOfClosedChannel\<rparr> else s\<lparr>pl_quit := True, pl_main := PoolSaying\<rparr>)"

definition pool_report :: "'p pool_state \<Rightarrow> 'p pool_state" where
  "pool_report s = pool_say (ConsumedLine (sint (pl_consumed s))) (s\<lparr>pl_main := PoolReported\<rparr>)"

text \<open>The end of \<^verbatim>\<open>main\<close> ends the process, whatever the workers are at.\<close>

definition pool_exit :: "'p pool_state \<Rightarrow> 'p pool_state" where
  "pool_exit s = s\<lparr>pl_main := PoolExit\<rparr>"

inductive pool_step :: "('p, pool_world) pool_lib \<Rightarrow> 'p pool_state \<Rightarrow> 'p pool_state \<Rightarrow> bool" for P where
  spawn: "pool_alive s \<Longrightarrow> pl_main s = PoolSpawning i \<Longrightarrow> i < 100 \<Longrightarrow>
    pool_step P s (s\<lparr>pl_main := PoolSpawning (Suc i), pl_workers := pl_workers s @ [PoolSelect]\<rparr>)"
| spawned: "pool_alive s \<Longrightarrow> pl_main s = PoolSpawning i \<Longrightarrow> \<not> i < 100 \<Longrightarrow> pool_step P s (s\<lparr>pl_main := PoolReading\<rparr>)"
| entered: "pool_alive s \<Longrightarrow> pl_main s = PoolReading \<Longrightarrow> pool_step P s (s\<lparr>pl_main := PoolClosing\<rparr>)"
| close_quit: "pool_alive s \<Longrightarrow> pl_main s = PoolClosing \<Longrightarrow> pool_step P s (pool_close s)"
| say: "pool_alive s \<Longrightarrow> pl_main s = PoolSaying \<Longrightarrow> pool_step P s (pool_say Quitted (s\<lparr>pl_main := PoolWaiting\<rparr>))"
| report: "pool_alive s \<Longrightarrow> pl_main s = PoolWaiting \<Longrightarrow> pl_wait s = 0 \<Longrightarrow> pool_step P s (pool_report s)"
| exit: "pool_alive s \<Longrightarrow> pl_main s = PoolReported \<Longrightarrow> pool_step P s (pool_exit s)"
| choose_default: "pool_alive s \<Longrightarrow> i < length (pl_workers s) \<Longrightarrow> pl_workers s ! i = PoolSelect \<Longrightarrow> \<not> pl_quit s \<Longrightarrow>
    pool_step P s (pool_move i PoolGetting s)"
| choose_quit: "pool_alive s \<Longrightarrow> i < length (pl_workers s) \<Longrightarrow> pl_workers s ! i = PoolSelect \<Longrightarrow> pl_quit s \<Longrightarrow>
    pool_step P s (pool_move i PoolLeaving s)"
| get: "pool_alive s \<Longrightarrow> i < length (pl_workers s) \<Longrightarrow> pl_workers s ! i = PoolGetting \<Longrightarrow> worker_get P t i s = Some u \<Longrightarrow>
    pool_step P s u"
| consume: "pool_alive s \<Longrightarrow> i < length (pl_workers s) \<Longrightarrow> pl_workers s ! i = PoolGot x \<Longrightarrow> pool_step P s (worker_consume i x s)"
| put: "pool_alive s \<Longrightarrow> i < length (pl_workers s) \<Longrightarrow> pl_workers s ! i = PoolPutting x \<Longrightarrow> pool_step P s (worker_put P t i x s)"
| wg_done: "pool_alive s \<Longrightarrow> i < length (pl_workers s) \<Longrightarrow> pl_workers s ! i = PoolLeaving \<Longrightarrow> pool_step P s (worker_done i s)"
| say_gone: "pool_alive s \<Longrightarrow> i < length (pl_workers s) \<Longrightarrow> pl_workers s ! i = PoolDone \<Longrightarrow>
    pool_step P s (pool_say RoutineQuit (pool_move i PoolGone s))"

inductive_cases pool_stepE: "pool_step P s u"

section \<open>The invariant\<close>

fun unfinished :: "pool_pc \<Rightarrow> nat" where
  "unfinished PoolDone = 0"
| "unfinished PoolGone = 0"
| "unfinished _ = 1"

fun holding :: "pool_pc \<Rightarrow> nat" where
  "holding (PoolGot x) = 1"
| "holding (PoolPutting x) = 1"
| "holding _ = 0"

fun uncounted :: "pool_pc \<Rightarrow> nat" where
  "uncounted (PoolGot x) = 1"
| "uncounted _ = 0"

fun holds_one :: "pool_pc \<Rightarrow> bool" where
  "holds_one (PoolGot x) = (x = 1)"
| "holds_one (PoolPutting x) = (x = 1)"
| "holds_one _ = True"

fun started :: "pool_main_pc \<Rightarrow> nat" where
  "started (PoolSpawning i) = i"
| "started _ = 100"

abbreviation total :: "(pool_pc \<Rightarrow> nat) \<Rightarrow> 'p pool_state \<Rightarrow> nat" where
  "total f s \<equiv> \<Sum>w\<leftarrow>pl_workers s. f w"

text \<open>The numbers that may be printed with a resource.\<close>

fun line_ok :: "pool_line \<Rightarrow> bool" where
  "line_ok (PlusLine n) = (1 \<le> n \<and> n \<le> 80)"
| "line_ok (MinusLine n) = (0 \<le> n \<and> n < 80)"
| "line_ok _ = True"

definition pool_inv :: "'p pool_view \<Rightarrow> 'p pool_state \<Rightarrow> bool" where
  "pool_inv V s \<longleftrightarrow> pl_panic s = None \<and> started (pl_main s) \<le> 100 \<and> length (pl_workers s) = started (pl_main s) \<and>
     pl_wait s = 100 - length (pl_workers s) + total unfinished s \<and>
     (\<forall>x \<in># idle V (pl_pool s). x = Item_int 1) \<and> list_all holds_one (pl_workers s) \<and>
     limit V (pl_pool s) = 80 \<and> created V (pl_pool s) \<le> 80 \<and>
     created V (pl_pool s) = size (idle V (pl_pool s)) + total holding s \<and>
     pw_count (pl_world s) = of_nat (created V (pl_pool s)) \<and> list_all line_ok (pw_out (pl_world s)) \<and>
     pl_consumed s + of_nat (total uncounted s) = of_nat (pl_gets s) \<and>
     (pl_quit s \<longleftrightarrow> pl_main s \<in> {PoolSaying, PoolWaiting, PoolReported, PoolExit}) \<and>
     (pl_main s \<in> {PoolReported, PoolExit} \<longrightarrow> total unfinished s = 0)"

lemma pool_inv_start: "pool_ok P V \<Longrightarrow> pool_inv V (pool_start P)"
  by (simp add: pool_inv_def pool_start_def pool_okD)

text \<open>What destroying resources does to the counter and the output.\<close>

lemma sint_small32: "n \<le> 80 \<Longrightarrow> sint (of_nat n :: 32 word) = int n"
  by (simp add: signed_of_nat take_bit_nat_def signed_take_bit_int_eq_self)

lemma fold_destroy:
  "length ds \<le> c \<Longrightarrow> c \<le> 80 \<Longrightarrow> pw_count w = of_nat c \<Longrightarrow> list_all line_ok (pw_out w) \<Longrightarrow>
   pw_count (fold pool_destroy ds w) = of_nat (c - length ds) \<and> list_all line_ok (pw_out (fold pool_destroy ds w))"
proof (induction ds arbitrary: c w)
  case (Cons d ds)
  then obtain k where c: "c = Suc k" by (cases c) auto
  then have n: "pw_count w - 1 = of_nat k" using Cons.prems(3) by simp
  have "list_all line_ok (pw_out (pool_destroy d w))"
    using Cons.prems c sint_small32 [of k] by (simp add: pool_destroy_def Let_def n)
  then show ?case using Cons.IH [of k "pool_destroy d w"] Cons.prems c by (simp add: pool_destroy_def Let_def n)
qed simp

text \<open>A successful \<^verbatim>\<open>Get\<close>: an integer comes out, and the counter goes with the number of resources.\<close>

lemma get_result:
  assumes ok: "pool_ok P V" and g: "PoolGet P t pool_create pool_destroy p w = Some (p', w', x)"
    and one: "\<forall>x \<in># idle V p. x = Item_int 1" and l: "limit V p = 80" and c: "created V p = size (idle V p) + h"
    and b: "created V p \<le> 80" and n: "pw_count w = of_nat (created V p)" and out: "list_all line_ok (pw_out w)"
  shows "x = Item_int 1 \<and> (\<forall>x \<in># idle V p'. x = Item_int 1) \<and> limit V p' = 80 \<and>
    created V p' = size (idle V p') + Suc h \<and> created V p' \<le> 80 \<and> pw_count w' = of_nat (created V p') \<and>
    list_all line_ok (pw_out w')"
  using pool_okD(5) [OF ok g]
proof (elim conjE disjE)
  assume lim: "limit V p' = limit V p" and "get_reuses V pool_destroy p w p' w' x"
  then obtain ds where ds: "idle V p = mset ds + {#x#} + idle V p'" "w' = fold pool_destroy ds w"
      "created V p' = created V p - length ds"
    unfolding get_reuses_def by blast
  then have "length ds \<le> created V p" using c by simp
  from fold_destroy [OF this b n out] show ?thesis using ds c b l lim one by simp
next
  assume lim: "limit V p' = limit V p" and "get_creates V pool_create pool_destroy p w p' w' x"
  then obtain ds where ds: "idle V p = mset ds" "idle V p' = {#}" "(w', x) = pool_create (fold pool_destroy ds w)"
      "created V p - length ds < limit V p" "created V p' = created V p - length ds + 1"
    unfolding get_creates_def by blast
  then have "length ds \<le> created V p" using c by simp
  from fold_destroy [OF this b n out] have f: "pw_count (fold pool_destroy ds w) = of_nat (created V p - length ds)"
    "list_all line_ok (pw_out (fold pool_destroy ds w))" by simp_all
  have "pw_count (fold pool_destroy ds w) + 1 = of_nat (created V p')" using f(1) ds(5) by simp
  moreover have "1 \<le> created V p'" "created V p' \<le> 80" using ds(4,5) l by simp_all
  ultimately show ?thesis
    using ds c l lim f(2) sint_small32 [of "created V p'"] by (simp add: pool_create_def Let_def add.commute)
qed

declare sum_list_eq_0_iff [simp del]

lemmas pool_defs = pool_alive_def pool_move_def pool_say_def worker_consume_def worker_put_def worker_done_def
  pool_close_def pool_report_def pool_exit_def

lemma list_all_update: "list_all Q xs \<Longrightarrow> Q y \<Longrightarrow> list_all Q (xs[i := y])"
  using set_update_subset_insert [of xs i y] by (auto simp: list_all_iff)

lemma moved:
  assumes "i < length (pl_workers s)" "pl_workers s ! i = q"
  shows "total f (pool_move i q' s) + f q = total f s + f q'"
  using weight_update [OF assms(1), of f q'] assms(2) by (simp add: pool_move_def)

lemma held_total: "i < length (pl_workers s) \<Longrightarrow> f (pl_workers s ! i) \<le> total f s"
  using elem_le_sum_list [of i "map f (pl_workers s)"] by simp

lemma pool_inv_get:
  assumes ok: "pool_ok P V" and inv: "pool_inv V s" and i: "i < length (pl_workers s)" "pl_workers s ! i = PoolGetting"
    and g: "worker_get P t i s = Some u"
  shows "pool_inv V u"
proof -
  obtain p w v where get: "PoolGet P t pool_create pool_destroy (pl_pool s) (pl_world s) = Some (p, w, v)"
    using g by (auto simp: worker_get_def split: option.splits prod.splits)
  have r: "v = Item_int 1 \<and> (\<forall>x \<in># idle V p. x = Item_int 1) \<and> limit V p = 80 \<and>
    created V p = size (idle V p) + Suc (total holding s) \<and> created V p \<le> 80 \<and> pw_count w = of_nat (created V p) \<and>
    list_all line_ok (pw_out w)"
    by (rule get_result [OF ok get]) (use inv in \<open>simp_all add: pool_inv_def\<close>)
  then have u: "u = pool_move i (PoolGot 1) (s\<lparr>pl_pool := p, pl_world := w, pl_gets := Suc (pl_gets s)\<rparr>)"
    using g get by (simp add: worker_get_def)
  note m = moved [OF i, of _ "PoolGot 1", unfolded pool_move_def, simplified]
  have "total holding u = Suc (total holding s)" "total unfinished u = total unfinished s"
    "total uncounted u = Suc (total uncounted s)"
    using m [of holding] m [of unfinished] m [of uncounted] by (simp_all add: u pool_move_def)
  moreover have "list_all holds_one (pl_workers u)" using inv by (simp add: u pool_move_def pool_inv_def list_all_update)
  ultimately show ?thesis using inv r by (auto simp: pool_inv_def u pool_move_def)
qed

lemma pool_inv_put:
  assumes ok: "pool_ok P V" and inv: "pool_inv V s" and i: "i < length (pl_workers s)" "pl_workers s ! i = PoolPutting x"
  shows "pool_inv V (worker_put P t i x s)"
proof -
  have "holds_one (pl_workers s ! i)" using inv i(1) by (simp add: pool_inv_def list_all_length)
  then have x: "x = 1" using i(2) by simp
  let ?u = "worker_put P t i x s"
  note m = moved [OF i, of _ PoolSelect, unfolded pool_move_def, simplified]
  have "Suc (total holding ?u) = total holding s" "total unfinished ?u = total unfinished s" "total uncounted ?u = total uncounted s"
    using m [of holding] m [of unfinished] m [of uncounted] by (simp_all add: worker_put_def pool_move_def)
  moreover have "list_all holds_one (pl_workers ?u)"
    using inv by (simp add: worker_put_def pool_move_def pool_inv_def list_all_update)
  ultimately show ?thesis using inv x by (auto simp: pool_inv_def worker_put_def pool_move_def pool_okD(6-8) [OF ok])
qed

text \<open>A move of a worker between points at which it holds nothing, or the same.\<close>

lemma pool_inv_move:
  assumes "pool_inv V s" "i < length (pl_workers s)" "holding q = holding (pl_workers s ! i)"
    "unfinished q = unfinished (pl_workers s ! i)" "uncounted q = uncounted (pl_workers s ! i)" "holds_one q"
  shows "pool_inv V (pool_move i q s)"
proof -
  note m = moved [OF assms(2) refl, of _ q]
  have "total holding (pool_move i q s) = total holding s" "total unfinished (pool_move i q s) = total unfinished s"
    "total uncounted (pool_move i q s) = total uncounted s"
    using m [of holding] m [of unfinished] m [of uncounted] assms by simp_all
  then show ?thesis using assms by (simp add: pool_inv_def pool_move_def list_all_update)
qed

lemma pool_inv_consume:
  assumes inv: "pool_inv V s" and i: "i < length (pl_workers s)" "pl_workers s ! i = PoolGot x"
  shows "pool_inv V (worker_consume i x s)"
proof -
  have "holds_one (pl_workers s ! i)" using inv i(1) by (simp add: pool_inv_def list_all_length)
  then have x: "x = 1" using i(2) by simp
  let ?u = "worker_consume i x s"
  note m = moved [OF i, of _ "PoolPutting x", unfolded pool_move_def, simplified]
  have "total holding ?u = total holding s" "total unfinished ?u = total unfinished s" "Suc (total uncounted ?u) = total uncounted s"
    using m [of holding] m [of unfinished] m [of uncounted] by (simp_all add: worker_consume_def pool_move_def)
  moreover from this(3) have "pl_consumed s + 1 + of_nat (total uncounted ?u) = pl_consumed s + of_nat (total uncounted s)"
    by (metis add.assoc of_nat_Suc)
  moreover have "list_all holds_one (pl_workers ?u)"
    using inv x by (simp add: worker_consume_def pool_move_def pool_inv_def list_all_update)
  ultimately show ?thesis using inv by (simp add: pool_inv_def worker_consume_def pool_move_def add.assoc)
qed

lemma pool_inv_done:
  assumes inv: "pool_inv V s" and i: "i < length (pl_workers s)" "pl_workers s ! i = PoolLeaving"
  shows "pool_inv V (worker_done i s)"
proof -
  have "0 < total unfinished s" using held_total [OF i(1), of unfinished] i(2) by simp
  then have w: "pl_wait s \<noteq> 0" using inv by (simp add: pool_inv_def)
  let ?u = "pool_move i PoolDone (s\<lparr>pl_wait := pl_wait s - 1\<rparr>)"
  note m = moved [OF i, of _ PoolDone, unfolded pool_move_def, simplified]
  have "total holding ?u = total holding s" "Suc (total unfinished ?u) = total unfinished s" "total uncounted ?u = total uncounted s"
    using m [of holding] m [of unfinished] m [of uncounted] by (simp_all add: pool_move_def)
  then have "pool_inv V ?u" using inv by (auto simp: pool_inv_def pool_move_def list_all_update)
  then show ?thesis using w by (simp add: worker_done_def)
qed

lemma pool_inv_say: "pool_inv V s \<Longrightarrow> line_ok l \<Longrightarrow> pool_inv V (pool_say l s)"
  by (simp add: pool_inv_def pool_say_def)

lemma pool_inv_step:
  assumes ok: "pool_ok P V" and inv: "pool_inv V s" and st: "pool_step P s u"
  shows "pool_inv V u"
  using st
proof cases
  case (choose_default i) with inv show ?thesis by (simp add: pool_inv_move)
next
  case (choose_quit i) with inv show ?thesis by (simp add: pool_inv_move)
next
  case (get i t) with ok inv show ?thesis by (blast intro: pool_inv_get)
next
  case (put i x t) with ok inv show ?thesis by (blast intro: pool_inv_put)
next
  case (consume i x) with inv show ?thesis by (simp add: pool_inv_consume)
next
  case (wg_done i) with inv show ?thesis by (simp add: pool_inv_done)
next
  case (say_gone i) with inv show ?thesis by (simp add: pool_inv_say pool_inv_move)
next
  case report
  with inv have "pool_inv V (s\<lparr>pl_main := PoolReported\<rparr>)" by (simp add: pool_inv_def)
  then show ?thesis unfolding report pool_report_def by (rule pool_inv_say) simp
next
  case say
  with inv have "pool_inv V (s\<lparr>pl_main := PoolWaiting\<rparr>)" by (simp add: pool_inv_def)
  then show ?thesis unfolding say by (rule pool_inv_say) simp
qed (use inv in \<open>auto simp: pool_inv_def pool_close_def pool_exit_def pool_alive_def\<close>)

section \<open>The end of the process\<close>

fun pool_left :: "pool_pc \<Rightarrow> nat" where
  "pool_left PoolGetting = 6"
| "pool_left (PoolGot x) = 5"
| "pool_left (PoolPutting x) = 4"
| "pool_left PoolSelect = 3"
| "pool_left PoolLeaving = 2"
| "pool_left PoolDone = 1"
| "pool_left PoolGone = 0"

fun pool_main_left :: "pool_main_pc \<Rightarrow> nat" where
  "pool_main_left PoolSaying = 3"
| "pool_main_left PoolWaiting = 2"
| "pool_main_left PoolReported = 1"
| "pool_main_left _ = 0"

definition pool_work :: "'p pool_state \<Rightarrow> nat" where
  "pool_work s = (if pool_alive s then pool_main_left (pl_main s) + total pool_left s else 0)"


lemma pool_left_moved:
  assumes "i < length (pl_workers s)" "pl_workers s ! i = q" "pool_left q' < pool_left q" "pl_workers u = (pl_workers s)[i := q']"
    "pool_main_left (pl_main u) = pool_main_left (pl_main s)" "pool_alive s"
  shows "pool_work u < pool_work s"
proof -
  have "total pool_left u + pool_left q = total pool_left s + pool_left q'"
    using moved [OF assms(1,2), of pool_left q'] assms(4) by (simp add: pool_move_def)
  then have "total pool_left u < total pool_left s" using assms(3) by linarith
  then show ?thesis using assms(5,6) by (simp add: pool_work_def)
qed

lemma pool_work_decreases:
  assumes ok: "pool_ok P V" and inv: "pool_inv V s" and q: "pl_quit s" and st: "pool_step P s u"
  shows "pool_work u < pool_work s \<and> pl_quit u"
  using st
proof cases
  case (get i t)
  have "pl_panic u = None" using pool_inv_step [OF ok inv st] by (simp add: pool_inv_def)
  then obtain x where "pl_workers u = (pl_workers s)[i := PoolGot x]" "pl_main u = pl_main s" "pl_quit u"
    using get(4) q by (auto simp: worker_get_def pool_move_def Let_def split: option.splits prod.splits pool_item.splits)
  then show ?thesis using pool_left_moved [OF get(2,3), of "PoolGot x" u] get(1) by simp
next
  case (consume i x)
  then show ?thesis using q pool_left_moved [OF consume(3,4), of "PoolPutting x" u] by (simp add: worker_consume_def pool_move_def)
next
  case (put i x t)
  then show ?thesis using q pool_left_moved [OF put(3,4), of PoolSelect u] by (simp add: worker_put_def pool_move_def)
next
  case (choose_quit i)
  then show ?thesis using q pool_left_moved [OF choose_quit(3,4), of PoolLeaving u] by (simp add: pool_move_def)
next
  case (wg_done i)
  have "0 < total unfinished s" using held_total [OF wg_done(3), of unfinished] wg_done(4) by simp
  then have "pl_wait s \<noteq> 0" using inv by (simp add: pool_inv_def)
  then show ?thesis using wg_done q pool_left_moved [OF wg_done(3,4), of PoolDone u] by (simp add: worker_done_def pool_move_def)
next
  case (say_gone i)
  then show ?thesis using q pool_left_moved [OF say_gone(3,4), of PoolGone u] by (simp add: pool_say_def pool_move_def)
qed (use inv q in \<open>auto simp: pool_inv_def pool_work_def pool_defs\<close>)

interpretation pool: bounded_machine "\<lambda>s. pool_ok P V \<and> s = pool_start P" "pool_step P" "\<lambda>s. pool_ok P V \<and> pool_inv V s" pl_quit pool_work
  for P V
proof unfold_locales
  show "pool_ok P V \<and> s = pool_start P \<Longrightarrow> pool_ok P V \<and> pool_inv V s" for s by (auto simp: pool_inv_start)
  show "pool_ok P V \<and> pool_inv V s \<Longrightarrow> pool_step P s u \<Longrightarrow> pool_ok P V \<and> pool_inv V u" for s u
    by (blast intro: pool_inv_step)
  show "pool_ok P V \<and> pool_inv V s \<Longrightarrow> pl_quit s \<Longrightarrow> pool_step P s u \<Longrightarrow> pool_work u < pool_work s \<and> pl_quit u" for s u
    by (blast dest: pool_work_decreases)
qed

lemma pool_work_le:
  assumes "pool_inv V s"
  shows "pool_work s \<le> 603"
proof -
  have "(\<Sum>w\<leftarrow>ws. pool_left w) \<le> 6 * length ws" for ws
  proof (induction ws)
    case (Cons w ws)
    then show ?case by (cases w) auto
  qed simp
  from this [of "pl_workers s"] show ?thesis using assms by (cases "pl_main s") (auto simp: pool_inv_def pool_work_def)
qed

text \<open>No deadlock: while \<^verbatim>\<open>Get\<close> has to wait, all eighty resources are held, and whoever holds one can go on.\<close>

lemma total_pos: "0 < total f s \<Longrightarrow> \<exists>i < length (pl_workers s). 0 < f (pl_workers s ! i)"
  using sum_list_eq_0_iff [of "map f (pl_workers s)"] by (auto simp: in_set_conv_nth)

lemma holder_moves:
  assumes "pool_alive s" "0 < total holding s"
  shows "\<exists>u. pool_step P s u"
proof -
  obtain i where i: "i < length (pl_workers s)" "0 < holding (pl_workers s ! i)" using total_pos [OF assms(2)] by blast
  show ?thesis
  proof (cases "pl_workers s ! i")
    case (PoolGot x) then show ?thesis using pool_step.consume [OF assms(1) i(1)] by blast
  next
    case (PoolPutting x) then show ?thesis using pool_step.put [OF assms(1) i(1)] by blast
  qed (use i(2) in simp_all)
qed

lemma unfinished_moves:
  assumes ok: "pool_ok P V" and inv: "pool_inv V s" and a: "pool_alive s" and i: "i < length (pl_workers s)"
    and u: "0 < unfinished (pl_workers s ! i)"
  shows "\<exists>u. pool_step P s u"
proof (cases "pl_workers s ! i")
  case PoolSelect
  then show ?thesis using pool_step.choose_default [OF a i] pool_step.choose_quit [OF a i] by blast
next
  case PoolGetting
  show ?thesis
  proof (cases "PoolGet P 0 pool_create pool_destroy (pl_pool s) (pl_world s)")
    case None
    then have "0 < total holding s" using pool_okD(4) [OF ok None] inv by (auto simp: pool_inv_def)
    then show ?thesis by (rule holder_moves [OF a])
  next
    case (Some r)
    then have "worker_get P 0 i s \<noteq> None" by (simp add: worker_get_def Let_def split: prod.splits)
    then show ?thesis using pool_step.get [OF a i PoolGetting] by blast
  qed
next
  case (PoolGot x) then show ?thesis using pool_step.consume [OF a i] by blast
next
  case (PoolPutting x) then show ?thesis using pool_step.put [OF a i] by blast
next
  case PoolLeaving then show ?thesis using pool_step.wg_done [OF a i] by blast
qed (use u in simp_all)

lemma pool_progress:
  assumes "pool_ok P V" "pool_inv V s" "pl_main s \<noteq> PoolExit"
  shows "\<exists>u. pool_step P s u"
proof -
  have a: "pool_alive s" using assms(2,3) by (simp add: pool_alive_def pool_inv_def)
  show ?thesis
  proof (cases "pl_main s")
    case (PoolSpawning i) then show ?thesis using pool_step.spawn [OF a] pool_step.spawned [OF a] by blast
  next
    case PoolReading then show ?thesis using pool_step.entered [OF a] by blast
  next
    case PoolClosing then show ?thesis using pool_step.close_quit [OF a] by blast
  next
    case PoolSaying then show ?thesis using pool_step.say [OF a] by blast
  next
    case PoolWaiting
    show ?thesis
    proof (cases "pl_wait s = 0")
      case True then show ?thesis using pool_step.report [OF a PoolWaiting] by blast
    next
      case False
      then have "0 < total unfinished s" using assms(2) PoolWaiting by (simp add: pool_inv_def)
      then show ?thesis using total_pos unfinished_moves [OF assms(1,2) a] by blast
    qed
  next
    case PoolReported then show ?thesis using pool_step.exit [OF a] by blast
  qed (use assms(3) in simp)
qed

section \<open>A pool with ages\<close>

text \<open>The pool the library documents, as one function of the state: the idle resources with the time of their return.\<close>

record aged_pool =
  ap_limit :: nat
  ap_age :: nat
  ap_created :: nat
  ap_idle :: "(pool_item \<times> nat) list"

fun aged_get ::
  "nat \<Rightarrow> ('w \<Rightarrow> 'w \<times> pool_item) \<Rightarrow> (pool_item \<Rightarrow> 'w \<Rightarrow> 'w) \<Rightarrow> nat \<Rightarrow> nat \<Rightarrow> (pool_item \<times> nat) list \<Rightarrow> nat \<Rightarrow> 'w
     \<Rightarrow> ((nat \<times> (pool_item \<times> nat) list) \<times> 'w \<times> pool_item) option" where
  "aged_get t cr de lim age [] n w = (if n < lim then Some ((n + 1, []), cr w) else None)"
| "aged_get t cr de lim age ((x, l) # xs) n w =
     (if l + age < t then aged_get t cr de lim age xs (n - 1) (de x w) else Some ((n, xs), w, x))"

definition aged_lib :: "(aged_pool, 'w) pool_lib" where
  "aged_lib = \<lparr>NewPool = (\<lambda>n a. \<lparr>ap_limit = n, ap_age = a, ap_created = 0, ap_idle = []\<rparr>),
     PoolGet = (\<lambda>t cr de p w. case aged_get t cr de (ap_limit p) (ap_age p) (ap_idle p) (ap_created p) w of
        None \<Rightarrow> None | Some ((n, xs), w, x) \<Rightarrow> Some (p\<lparr>ap_created := n, ap_idle := xs\<rparr>, w, x)),
     PoolPut = (\<lambda>t x p. if x = Item_nil then p else p\<lparr>ap_idle := (x, t) # ap_idle p\<rparr>)\<rparr>"

definition aged_view :: "aged_pool pool_view" where
  "aged_view = \<lparr>idle = (\<lambda>p. image_mset fst (mset (ap_idle p))), created = ap_created, limit = ap_limit\<rparr>"

lemma aged_get_None: "aged_get t cr de lim age xs n w = None \<Longrightarrow> lim \<le> n - length xs"
  by (induction t cr de lim age xs n w rule: aged_get.induct) (auto split: if_splits)

lemma aged_get_Some:
  "aged_get t cr de lim age xs n w = Some ((m, ys), w', x) \<Longrightarrow> (\<exists>ds.
     image_mset fst (mset xs) = mset ds + {#x#} + image_mset fst (mset ys) \<and> w' = fold de ds w \<and> m = n - length ds \<or>
     image_mset fst (mset xs) = mset ds \<and> ys = [] \<and> (w', x) = cr (fold de ds w) \<and> n - length ds < lim \<and> m = n - length ds + 1)"
proof (induction t cr de lim age xs n w rule: aged_get.induct)
  case (1 t cr de lim age n w)
  then show ?case by (intro exI [of _ "[]"]) (auto split: if_splits)
next
  case (2 t cr de lim age x' l xs n w)
  show ?case
  proof (cases "l + age < t")
    case True
    then obtain ds where "image_mset fst (mset xs) = mset ds + {#x#} + image_mset fst (mset ys) \<and> w' = fold de ds (de x' w) \<and> m = n - 1 - length ds \<or>
     image_mset fst (mset xs) = mset ds \<and> ys = [] \<and> (w', x) = cr (fold de ds (de x' w)) \<and> n - 1 - length ds < lim \<and> m = n - 1 - length ds + 1"
      using 2 by auto
    then show ?thesis by (intro exI [of _ "x' # ds"]) auto
  next
    case False
    then show ?thesis using 2 by (intro exI [of _ "[]"]) auto
  qed
qed

lemma aged_pool_ok: "pool_ok (aged_lib :: (aged_pool, 'w) pool_lib) aged_view"
proof -
  let ?P = "aged_lib :: (aged_pool, 'w) pool_lib" and ?V = aged_view
  have n: "idle ?V p = {#} \<and> limit ?V p \<le> created ?V p"
    if "PoolGet ?P t cr de p w = None" "size (idle ?V p) \<le> created ?V p" "created ?V p \<le> limit ?V p" for t cr de p w
  proof -
    have "ap_limit p \<le> ap_created p - length (ap_idle p)"
      using that(1) aged_get_None by (auto simp: aged_lib_def split: option.splits prod.splits)
    moreover have "length (ap_idle p) \<le> ap_created p" "ap_created p \<le> ap_limit p" using that(2,3) by (simp_all add: aged_view_def)
    ultimately have "length (ap_idle p) = 0" "ap_limit p \<le> ap_created p" by linarith+
    then show ?thesis by (simp add: aged_view_def)
  qed
  have g: "limit ?V p' = limit ?V p \<and> (get_reuses ?V de p w p' w' x \<or> get_creates ?V cr de p w p' w' x)"
    if "PoolGet ?P t cr de p w = Some (p', w', x)" for t cr de p w p' w' x
  proof -
    from that obtain m ys where r: "aged_get t cr de (ap_limit p) (ap_age p) (ap_idle p) (ap_created p) w = Some ((m, ys), w', x)"
      "p' = p\<lparr>ap_created := m, ap_idle := ys\<rparr>"
      by (auto simp: aged_lib_def split: option.splits prod.splits)
    from aged_get_Some [OF r(1)] r(2) show ?thesis
      unfolding get_reuses_def get_creates_def by (auto simp: aged_view_def)
  qed
  show ?thesis unfolding pool_ok_def
  proof (intro conjI allI impI, goal_cases)
    case (4 t cr de p w) then show ?case using n by blast
  next
    case (5 t cr de p w) then show ?case using n by blast
  next
    case (6 t cr de p w p' w' x) then show ?case using g by blast
  next
    case (7 t cr de p w p' w' x) then show ?case using g by blast
  qed (simp_all add: aged_lib_def aged_view_def)
qed

section \<open>Properties\<close>

text \<open>What is printed: no total before the main goroutine prints it; then the total, and after it only lines of leaving workers.\<close>

definition no_total :: "pool_line list \<Rightarrow> bool" where
  "no_total ls \<longleftrightarrow> (\<forall>n. ConsumedLine n \<notin> set ls)"

lemma no_total_simps [simp]:
  "no_total []" "no_total (xs @ ys) \<longleftrightarrow> no_total xs \<and> no_total ys" "no_total (l # ls) \<longleftrightarrow> (\<forall>n. l \<noteq> ConsumedLine n) \<and> no_total ls"
  by (auto simp: no_total_def)

definition pool_out_ok :: "'p pool_state \<Rightarrow> bool" where
  "pool_out_ok s \<longleftrightarrow>
     (if pl_main s \<in> {PoolReported, PoolExit}
      then \<exists>out k. pw_out (pl_world s) = out @ ConsumedLine (sint (pl_consumed s)) # replicate k RoutineQuit \<and> no_total out
      else no_total (pw_out (pl_world s)))"

lemma fold_destroy_no_total: "no_total (pw_out w) \<Longrightarrow> no_total (pw_out (fold pool_destroy ds w))"
  by (induction ds arbitrary: w) (simp_all add: pool_destroy_def Let_def)

lemma get_no_total:
  assumes "pool_ok P V" "PoolGet P t pool_create pool_destroy p w = Some (p', w', x)" "no_total (pw_out w)"
  shows "no_total (pw_out w')"
  using pool_okD(5) [OF assms(1,2)] fold_destroy_no_total [OF assms(3)]
  by (auto simp: get_reuses_def get_creates_def pool_create_def Let_def)

lemma pool_out_step:
  assumes ok: "pool_ok P V" and inv: "pool_inv V s" and out: "pool_out_ok s" and st: "pool_step P s u"
  shows "pool_out_ok u"
proof -
  have busy: "pl_main s \<notin> {PoolReported, PoolExit}" if "i < length (pl_workers s)" "0 < unfinished (pl_workers s ! i)" for i
    using held_total [OF that(1), of unfinished] that(2) inv by (auto simp: pool_inv_def)
  from st show ?thesis
  proof cases
    case (get i t)
    obtain p w v where g: "PoolGet P t pool_create pool_destroy (pl_pool s) (pl_world s) = Some (p, w, v)"
      using get(4) by (auto simp: worker_get_def split: option.splits prod.splits)
    have b: "pl_main s \<notin> {PoolReported, PoolExit}" using busy [of i] get by simp
    then have "no_total (pw_out w)" using get_no_total [OF ok g] out by (simp add: pool_out_ok_def)
    then show ?thesis using get(4) g b by (auto simp: worker_get_def pool_move_def pool_out_ok_def Let_def split: pool_item.splits)
  next
    case (consume i x)
    then show ?thesis using busy [of i] out by (simp add: pool_out_ok_def pool_defs)
  next
    case (say_gone i)
    show ?thesis
    proof (cases "pl_main s \<in> {PoolReported, PoolExit}")
      case True
      then obtain ls k where "pw_out (pl_world s) = ls @ ConsumedLine (sint (pl_consumed s)) # replicate k RoutineQuit" "no_total ls"
        using out by (auto simp: pool_out_ok_def)
      then show ?thesis using True say_gone
        by (auto simp: pool_out_ok_def pool_defs replicate_append_same intro!: exI [of _ ls] exI [of _ "Suc k"])
    next
      case False
      then show ?thesis using out say_gone by (auto simp: pool_out_ok_def pool_defs)
    qed
  next
    case report
    have "no_total (pw_out (pl_world s))" using out report by (simp add: pool_out_ok_def)
    then show ?thesis using report by (auto simp: pool_out_ok_def pool_defs intro!: exI [of _ "pw_out (pl_world s)"] exI [of _ 0])
  qed (use out in \<open>auto simp: pool_out_ok_def pool_defs\<close>)
qed

lemma pool_out_reachable:
  assumes ok: "pool_ok P V" and run: "(pool_step P)\<^sup>*\<^sup>* (pool_start P) s"
  shows "pool_out_ok s"
  using run
proof (induction rule: rtranclp_induct)
  case base
  then show ?case by (simp add: pool_out_ok_def pool_start_def)
next
  case (step s u)
  then show ?case using pool_out_step [OF ok] pool.inv_reachable ok by blast
qed

lemma uncounted_unfinished: "total uncounted s \<le> total unfinished s"
proof (rule sum_list_mono)
  show "uncounted w \<le> unfinished w" for w by (cases w) simp_all
qed

text \<open>
  C35. The workers' type assertion never fails and the counts printed are right. In every reachable state, whatever the
  interleaving and whichever resources the pool finds too old: no goroutine has panicked; every resource in the pool and
  in a worker's hands is the integer one; the 32-bit counter of the two callbacks is the number of resources in
  existence, idle or held, and is at most eighty; and a printed number is between one and eighty after a creation and
  between zero and seventy-nine after a destruction. The wait group counts the workers that have not reached their end.
\<close>

theorem pool_typed_and_counted:
  assumes "pool_ok P V" "(pool_step P)\<^sup>*\<^sup>* (pool_start P) s"
  shows "pl_panic s = None \<and> (\<forall>x \<in># idle V (pl_pool s). x = Item_int 1) \<and> list_all holds_one (pl_workers s) \<and>
    unat (pw_count (pl_world s)) = size (idle V (pl_pool s)) + (\<Sum>w\<leftarrow>pl_workers s. holding w) \<and>
    unat (pw_count (pl_world s)) \<le> 80 \<and> list_all line_ok (pw_out (pl_world s)) \<and>
    pl_wait s = 100 - length (pl_workers s) + (\<Sum>w\<leftarrow>pl_workers s. unfinished w)"
proof -
  have i: "pool_inv V s" using pool.inv_reachable assms by blast
  then have "created V (pl_pool s) < 2 ^ 32" by (simp add: pool_inv_def)
  then have "unat (of_nat (created V (pl_pool s)) :: 32 word) = created V (pl_pool s)" by (simp add: unat_of_nat)
  then have "unat (pw_count (pl_world s)) = created V (pl_pool s)" using i unfolding pool_inv_def by metis
  then show ?thesis using i by (simp add: pool_inv_def)
qed

text \<open>
  C12. The pool program does not deadlock, although a hundred workers share eighty resources, and it ends. In every reachable
  state some goroutine can move until the process has exited; once the channel is closed no run has more than 603 steps, and
  some run leads to the exit; and at the exit the total has been printed exactly once, it is the number of resources taken, as a 32-bit integer,
  and what follows it are only the lines of leaving workers that were late.
\<close>

theorem pool_drains:
  assumes "pool_ok P V" "(pool_step P)\<^sup>*\<^sup>* (pool_start P) s"
  shows "(pl_main s \<noteq> PoolExit \<longrightarrow> (\<exists>u. pool_step P s u)) \<and>
    (pl_quit s \<longrightarrow> (\<forall>k u. (pool_step P ^^ k) s u \<longrightarrow> k \<le> 603) \<and> (\<exists>u. (pool_step P)\<^sup>*\<^sup>* s u \<and> pl_main u = PoolExit)) \<and>
    (pl_main s = PoolExit \<longrightarrow>
      (\<exists>out k. pw_out (pl_world s) = out @ [ConsumedLine (sint (of_nat (pl_gets s) :: 32 word))] @ replicate k RoutineQuit \<and>
        (\<forall>n. ConsumedLine n \<notin> set out)))"
proof -
  have i: "pool_inv V s" using pool.inv_reachable assms by blast
  have e: "\<exists>out k. pw_out (pl_world s) = out @ [ConsumedLine (sint (of_nat (pl_gets s) :: 32 word))] @ replicate k RoutineQuit \<and>
      (\<forall>n. ConsumedLine n \<notin> set out)" if x: "pl_main s = PoolExit"
  proof -
    have "total unfinished s = 0" using i x by (simp add: pool_inv_def)
    then have "total uncounted s = 0" using uncounted_unfinished [of s] by simp
    then have "pl_consumed s = of_nat (pl_gets s)" using i by (simp add: pool_inv_def)
    then show ?thesis using pool_out_reachable [OF assms] x by (simp add: pool_out_ok_def no_total_def)
  qed
  have "k \<le> 603" if "pl_quit s" "(pool_step P ^^ k) s u" for k u
    using pool.run_bounded [OF that(2), of V] assms(1) i that(1) pool_work_le [OF i] by simp
  moreover have "\<exists>u. (pool_step P)\<^sup>*\<^sup>* s u \<and> pl_main u = PoolExit" if "pl_quit s"
    by (rule pool.run_ends [where V = V]) (use pool_progress assms(1) i that in blast)+
  ultimately show ?thesis using e pool_progress [OF assms(1) i] by blast
qed

text \<open>All workers started and the channel closed at once.\<close>

definition pool_quit_state :: "aged_pool pool_state" where
  "pool_quit_state = (pool_start aged_lib)\<lparr>pl_main := PoolSaying, pl_workers := replicate 100 PoolSelect, pl_quit := True\<rparr>"

lemma pool_spawns:
  "i \<le> 100 \<Longrightarrow> (pool_step P)\<^sup>*\<^sup>* (pool_start P) ((pool_start P)\<lparr>pl_main := PoolSpawning i, pl_workers := replicate i PoolSelect\<rparr>)"
proof (induction i)
  case 0
  then show ?case by (simp add: pool_start_def)
next
  case (Suc i)
  let ?s = "(pool_start P)\<lparr>pl_main := PoolSpawning i, pl_workers := replicate i PoolSelect\<rparr>"
  have "pool_step P ?s (?s\<lparr>pl_main := PoolSpawning (Suc i), pl_workers := pl_workers ?s @ [PoolSelect]\<rparr>)"
    by (rule pool_step.spawn [of _ i]) (use Suc.prems in \<open>simp_all add: pool_start_def pool_alive_def\<close>)
  then show ?case using Suc by (simp add: replicate_append_same [symmetric])
qed

lemma pool_quit_reached: "(pool_step aged_lib)\<^sup>*\<^sup>* (pool_start aged_lib) pool_quit_state"
proof -
  let ?R = "pool_step aged_lib" and ?s = "(pool_start aged_lib)\<lparr>pl_main := PoolSpawning 100, pl_workers := replicate 100 PoolSelect\<rparr>"
  let ?r = "?s\<lparr>pl_main := PoolReading\<rparr>"
  let ?c = "?r\<lparr>pl_main := PoolClosing\<rparr>"
  have "?R ?s ?r" by (rule pool_step.spawned [of _ 100]) (simp_all add: pool_alive_def pool_start_def)
  moreover have "?R ?r ?c" by (rule pool_step.entered) (simp_all add: pool_alive_def pool_start_def)
  moreover have "?R ?c (pool_close ?c)" by (rule pool_step.close_quit) (simp_all add: pool_alive_def pool_start_def)
  moreover have "pool_close ?c = pool_quit_state" by (simp add: pool_close_def pool_quit_state_def pool_start_def)
  ultimately show ?thesis using pool_spawns [of 100 aged_lib] by (metis (no_types, lifting) order_refl rtranclp.rtrancl_into_rtrancl)
qed

theorem pool_typed_and_counted_witness:
  "pl_panic pool_quit_state = None \<and> pl_wait pool_quit_state = (\<Sum>w\<leftarrow>replicate 100 PoolSelect. unfinished w)"
  using pool_typed_and_counted [OF aged_pool_ok pool_quit_reached] by (simp add: pool_quit_state_def)

theorem pool_drains_witness:
  "\<exists>u. (pool_step aged_lib)\<^sup>*\<^sup>* pool_quit_state u \<and> pl_main u = PoolExit"
  using pool_drains [OF aged_pool_ok pool_quit_reached] by (simp add: pool_quit_state_def)

end
