(* ===== verification/Greet_Mains.thy ===== *)
theory Greet_Mains
  imports Greet_Services Stream_Greeter Service_Mains
begin

text \<open>
  The programs around the greeting clients (\<^verbatim>\<open>rpc/client\<close>, \<^verbatim>\<open>discovery\<close>) and the streaming pair: loading of the configuration,
  dialling, and the loop over a ticker. Loading and dialling are parameters; a failure of either ends the
  process. \<open>nows\<close> are the formatted times of the ticks so far, one for every tick.
\<close>

section \<open>The clients\<close>

type_synonym ('k, 'c, 'w) greet_client_main =
  "(string \<Rightarrow> 'k result) \<Rightarrow> ('k \<Rightarrow> ('c, greeter_msg, 'w logged) grpc_conn result) \<Rightarrow> string \<Rightarrow> 'c \<Rightarrow> string list \<Rightarrow> 'w logged \<Rightarrow> 'w logged result"

definition direct_client_main :: "('k, 'c, 'w) greet_client_main" where
  "direct_client_main MustLoad MustNewClient configFile ctx nows w =
     and_then (MustLoad configFile) (\<lambda>c. and_then (MustNewClient c) (\<lambda>client. Inr (fold (direct_tick client ctx) nows w)))"

definition unary_client_main :: "('k, 'c, 'w) greet_client_main" where
  "unary_client_main MustLoad MustNewClient configFile ctx nows w =
     and_then (MustLoad configFile) (\<lambda>c. and_then (MustNewClient c) (\<lambda>client. Inr (fold (\<lambda>_. unary_tick client ctx) nows w)))"

definition k8s_client_main :: "('k, 'c, 'w) greet_client_main" where
  "k8s_client_main MustLoad MustNewClient config ctx nows w =
     and_then (MustLoad config) (\<lambda>c. and_then (MustNewClient c) (\<lambda>client. Inr (fold (k8s_tick client ctx) nows w)))"

definition consul_client_main :: "('k, 'c, 'w) greet_client_main" where
  "consul_client_main MustLoad MustNewClient config ctx nows w =
     and_then (MustLoad config) (\<lambda>c. and_then (MustNewClient c) (\<lambda>client. Inr (fold (consul_tick client ctx) nows w)))"

definition polaris_client_main :: "('k, 'c, 'w) greet_client_main" where
  "polaris_client_main MustLoad MustNewClient config ctx nows w =
     and_then (MustLoad config) (\<lambda>c. and_then (MustNewClient c) (\<lambda>client. Inr (fold (polaris_tick client ctx) nows w)))"

definition nacos_client_main :: "('k, 'c, 'w) greet_client_main" where
  "nacos_client_main MustLoad MustNewClient config ctx nows w =
     and_then (MustLoad config) (\<lambda>c. and_then (MustNewClient c) (\<lambda>client. Inr (fold (nacos_tick client ctx) nows w)))"

text \<open>All six are one loop around their ticks.\<close>

locale ticking_main = ticker lead tick
  for lead :: "string \<Rightarrow> string" and tick :: "('c, greeter_msg, 'w logged) grpc_conn \<Rightarrow> 'c \<Rightarrow> string \<Rightarrow> 'w logged \<Rightarrow> 'w logged" +
  fixes prog :: "('k, 'c, 'w) greet_client_main"
  assumes prog_law: "prog MustLoad MustNewClient f ctx nows w =
    and_then (MustLoad f) (\<lambda>c. and_then (MustNewClient c) (\<lambda>client. Inr (fold (tick client ctx) nows w)))"
begin

lemma ticks_lines:
  assumes "\<And>w. greeterClient_Greet I ctx \<lparr>greeter_Request_Name = ''kevin''\<rparr> w =
    map_err status_of (greet_outcome text hostname elapsed \<lparr>greeter_Request_Name = ''kevin''\<rparr> w)"
  shows "fold (tick I ctx) nows w = (fst w @ concat (map (\<lambda>now. greet_lines text hostname elapsed (lead now)) nows), snd w)"
  by (induction nows arbitrary: w) (simp_all add: tick_lines [OF assms])

lemma prog_lines:
  assumes "\<And>w. greeterClient_Greet I ctx \<lparr>greeter_Request_Name = ''kevin''\<rparr> w =
      map_err status_of (greet_outcome text hostname elapsed \<lparr>greeter_Request_Name = ''kevin''\<rparr> w)"
    and "MustLoad f = Inr c" "MustNewClient c = Inr I"
  shows "prog MustLoad MustNewClient f ctx nows w =
    Inr (fst w @ concat (map (\<lambda>now. greet_lines text hostname elapsed (lead now)) nows), snd w)"
  by (simp add: prog_law and_then_def assms(2,3) ticks_lines [OF assms(1)])

lemma prog_fails:
  "prog MustLoad MustNewClient f ctx nows w = Inl err \<longleftrightarrow>
     MustLoad f = Inl err \<or> (\<exists>c. MustLoad f = Inr c \<and> MustNewClient c = Inl err)"
  by (auto simp: prog_law and_then_err)

end

interpretation direct_prog: ticking_main "\<lambda>now. now @ '' ''" direct_tick direct_client_main
  by unfold_locales (simp add: direct_client_main_def)

interpretation unary_prog: ticking_main "\<lambda>_. []" "\<lambda>conn ctx _. unary_tick conn ctx" unary_client_main
  by unfold_locales (simp add: unary_client_main_def)

interpretation k8s_prog: ticking_main "\<lambda>now. now @ '' ''" k8s_tick k8s_client_main
  by unfold_locales (simp add: k8s_client_main_def)

interpretation consul_prog: ticking_main "\<lambda>now. now @ '' ''" consul_tick consul_client_main
  by unfold_locales (simp add: consul_client_main_def)

interpretation polaris_prog: ticking_main "\<lambda>now. now @ '' ''" polaris_tick polaris_client_main
  by unfold_locales (simp add: polaris_client_main_def)

interpretation nacos_prog: ticking_main "\<lambda>now. now @ '' ''" nacos_tick nacos_client_main
  by unfold_locales (simp add: nacos_client_main_def)

definition greet_programs :: "((string \<Rightarrow> string) \<times> ('k, 'c, 'w) greet_client_main) list" where
  "greet_programs = [(\<lambda>_. [], unary_client_main), (\<lambda>now. now @ '' '', direct_client_main), (\<lambda>now. now @ '' '', k8s_client_main),
     (\<lambda>now. now @ '' '', consul_client_main), (\<lambda>now. now @ '' '', polaris_client_main), (\<lambda>now. now @ '' '', nacos_client_main)]"

lemma greet_programs_law:
  assumes "(lead, prog) \<in> set greet_programs"
    and "\<And>w. greeterClient_Greet I ctx \<lparr>greeter_Request_Name = ''kevin''\<rparr> w =
      map_err status_of (greet_outcome text hostname elapsed \<lparr>greeter_Request_Name = ''kevin''\<rparr> w)"
    and "MustLoad f = Inr c" "MustNewClient c = Inr I"
  shows "prog MustLoad MustNewClient f ctx nows w =
    Inr (fst w @ concat (map (\<lambda>now. greet_lines text hostname elapsed (lead now)) nows), snd w)"
  using assms(1) unfolding greet_programs_def list.set insert_iff empty_iff prod.inject
  by (elim disjE conjE)
    (simp_all only: unary_prog.prog_lines [of I ctx "text" hostname elapsed MustLoad f c MustNewClient, OF assms(2-4)] direct_prog.prog_lines [of I ctx "text" hostname elapsed MustLoad f c MustNewClient, OF assms(2-4)] k8s_prog.prog_lines [of I ctx "text" hostname elapsed MustLoad f c MustNewClient, OF assms(2-4)]
      consul_prog.prog_lines [of I ctx "text" hostname elapsed MustLoad f c MustNewClient, OF assms(2-4)] polaris_prog.prog_lines [of I ctx "text" hostname elapsed MustLoad f c MustNewClient, OF assms(2-4)] nacos_prog.prog_lines [of I ctx "text" hostname elapsed MustLoad f c MustNewClient, OF assms(2-4)])

lemma greet_programs_fail:
  assumes "(lead, prog) \<in> set greet_programs"
  shows "prog MustLoad MustNewClient f ctx nows w = Inl err \<longleftrightarrow>
    MustLoad f = Inl err \<or> (\<exists>c. MustLoad f = Inr c \<and> MustNewClient c = Inl err)"
  using assms unfolding greet_programs_def list.set insert_iff empty_iff prod.inject
  by (elim disjE conjE)
    (simp_all only: unary_prog.prog_fails direct_prog.prog_fails k8s_prog.prog_fails
      consul_prog.prog_fails polaris_prog.prog_fails nacos_prog.prog_fails)

section \<open>The streaming pair\<close>

text \<open>The client finds the server through etcd, opens the stream and begins the session; any error ends it at once.\<close>

definition stream_client_main ::
  "(RpcClientConf \<Rightarrow> 'cl result) \<Rightarrow> ('cl \<Rightarrow> string \<times> bool \<times> bool \<Rightarrow> string \<Rightarrow> 's msg_stream result) \<Rightarrow> string \<Rightarrow>
   ('s msg_stream \<times> session) result" where
  "stream_client_main NewClient Conn key =
     and_then (NewClient (Etcd [''localhost:2379''] key)) (\<lambda>client.
     and_then (streamGreeterClient_Greet (Conn client)) (\<lambda>stm. Inr (stm, session_start)))"

definition stream_server_main ::
  "(string \<Rightarrow> RpcServerConf result) \<Rightarrow> (RpcServerConf \<Rightarrow> unit result) \<Rightarrow>
   ((go_error option \<Rightarrow> srv_pc \<times> string list) \<times> (recv_out \<Rightarrow> srv_pc \<times> string list \<times> StreamResp list)) rpc_program result" where
  "stream_server_main MustLoad MustNewServer =
     and_then (MustLoad ''etc/config.json'') (\<lambda>c.
     and_then (MustNewServer c) (\<lambda>_.
       Inr \<lparr>rp_listen = rs_ListenOn c, rp_impl = (greet_select, greet_recv), rp_lines = []\<rparr>))"

section \<open>Properties\<close>

text \<open>
  C32. Every greeting program works with every greeting server. Each of the six client programs ends before its first tick
  exactly when its configuration cannot be loaded or the connection cannot be made, with that error. Once connected to
  any of the five servers, whatever registry connects them, every tick leaves exactly three lines: the server's
  print of the request, its interceptor's line, which names the method \<^verbatim>\<open>/unary.Greeter/Greet\<close> although the
  client called \<^verbatim>\<open>/unary.Greeter/greet\<close>, and the client's line with the greeting or the error's text.
\<close>

theorem greet_every_program:
  assumes "(greet, intercept) \<in> set greet_servers" "(lead, prog) \<in> set greet_programs"
    and "grpc_serves I Greeter_serviceDesc \<lparr>greeter_Greet = greet text hostname gs\<rparr> (Some (intercept elapsed))
      greeter_type_name greeter_msg_wf sc"
  shows "(MustLoad f = Inr c \<and> MustNewClient c = Inr I \<longrightarrow> prog MustLoad MustNewClient f ctx nows w =
      Inr (fst w @ concat (map (\<lambda>now. greet_lines text hostname elapsed (lead now)) nows), snd w)) \<and>
    (prog MustLoad MustNewClient f ctx nows w = Inl err \<longleftrightarrow>
      MustLoad f = Inl err \<or> (\<exists>c. MustLoad f = Inr c \<and> MustNewClient c = Inl err))"
proof -
  have "greeterClient_Greet I ctx \<lparr>greeter_Request_Name = ''kevin''\<rparr> w =
      map_err status_of (greet_outcome text hostname elapsed \<lparr>greeter_Request_Name = ''kevin''\<rparr> w)" for w
    by (rule greet_servers_law [OF assms(1,3)]) (simp only: greeter_Request.simps utf8_kevin)
  then show ?thesis
    using greet_programs_law [OF assms(2), of I ctx "text" hostname elapsed MustLoad f c MustNewClient nows w] greet_programs_fail [OF assms(2)]
    by blast
qed

theorem greet_every_program_witness:
  "consul_client_main Inr (\<lambda>_. Inr (local_conn Greeter_serviceDesc \<lparr>greeter_Greet = nacos_Greet (\<lambda>_. ''req'') (Inr ''h1'') nacos_NewGreetServer\<rparr>
      (Some (nacos_interceptor ''1ms'')) greeter_type_name)) ''etc/consul.yaml'' () [''12:00:00'', ''12:00:01''] ([], ()) =
    Inr ([(LInfo, ''=> req''), (LInfo, ''method: /unary.Greeter/Greet time: 1ms''), (LInfo, ''12:00:00 => hello from h1''),
      (LInfo, ''=> req''), (LInfo, ''method: /unary.Greeter/Greet time: 1ms''), (LInfo, ''12:00:01 => hello from h1'')], ())"
proof -
  let ?I = "local_conn Greeter_serviceDesc \<lparr>greeter_Greet = nacos_Greet (\<lambda>_. ''req'') (Inr ''h1'') nacos_NewGreetServer\<rparr>
      (Some (nacos_interceptor ''1ms'')) greeter_type_name :: (unit, greeter_msg, unit logged) grpc_conn"
  have "(nacos_Greet, nacos_interceptor) \<in> set greet_servers" "(\<lambda>now. now @ '' '', consul_client_main) \<in> set greet_programs"
    by (simp_all add: greet_servers_def greet_programs_def)
  from greet_every_program [OF this local_conn_serves, of Inr "''etc/consul.yaml''" "''etc/consul.yaml''" "\<lambda>_. Inr ?I"
      "\<lambda>_. ''req''" "Inr ''h1''" nacos_NewGreetServer "''1ms''" "()" "[''12:00:00'', ''12:00:01'']" "([], ())"]
  show ?thesis by (simp add: greet_lines_def)
qed

text \<open>
  The streaming client either ends with the error of dialling or opening the stream, or begins the session; a session it
  began that exits with code 0 has printed all three greetings.
\<close>

lemma stream_program:
  fixes stm :: "'s msg_stream"
  assumes "stream_client_main NewClient Conn key = Inr (stm, s)" "session_step\<^sup>*\<^sup>* s t"
  shows "session_step\<^sup>*\<^sup>* session_start t \<and> (\<exists>cl. NewClient (Etcd [''localhost:2379''] key) = Inr cl \<and>
    Conn cl (''greet'', True, True) ''/stream.StreamGreeter/greet'' = Inr stm)"
proof -
  have "streamGreeterClient_Greet N = N (''greet'', True, True) ''/stream.StreamGreeter/greet''"
    for N :: "string \<times> bool \<times> bool \<Rightarrow> string \<Rightarrow> 's msg_stream result"
    by (simp add: streamGreeterClient_Greet_def StreamGreeter_streams_def split: sum.splits)
  with assms show ?thesis by (auto simp: stream_client_main_def and_then_ok)
qed

end
