(* ===== verification/Timer_Demos.thy ===== *)
theory Timer_Demos
  imports Process_Demos "HOL-Library.Multiset"
begin

text \<open>
  Timers (\<^verbatim>\<open>timingwheel/main.go\<close>, \<^verbatim>\<open>timingwheel/leak\<close>): the two modes of the timer test, a goroutine for every timer
  or one timing wheel for all of them, and the program that fills wheels. The timing wheel is the library's and a
  parameter; the loops, the job and the counting are the program's. Times are in microseconds.
\<close>

section \<open>The job\<close>

text \<open>
  A job runs in a goroutine of its own. It is waiting (for its timer, or to be scheduled), between the atomic increment and
  the print, or has ended. A finished goroutine remembers the value it had.
\<close>

datatype job_pc = JobWaiting nat | JobCounted "64 word" | JobEnded "64 word"

record job_state =
  jb_routines :: "job_pc list"
  jb_count :: "64 word"
  jb_printed :: "64 word list"

definition job_start :: "nat \<Rightarrow> 'a job_state_scheme \<Rightarrow> 'a job_state_scheme" where
  "job_start due s = s\<lparr>jb_routines := jb_routines s @ [JobWaiting due]\<rparr>"

text \<open>\<^verbatim>\<open>v := atomic.AddUint64(count, 1)\<close>, and the rest of \<^verbatim>\<open>job\<close>.\<close>

definition job_count :: "nat \<Rightarrow> 'a job_state_scheme \<Rightarrow> 'a job_state_scheme" where
  "job_count i s = (let v = jb_count s + 1 in s\<lparr>jb_count := v, jb_routines := (jb_routines s)[i := JobCounted v]\<rparr>)"

definition job_print :: "nat \<Rightarrow> 64 word \<Rightarrow> 'a job_state_scheme \<Rightarrow> 'a job_state_scheme" where
  "job_print i v s =
     s\<lparr>jb_printed := jb_printed s @ (if v mod 10000 = 0 then [v] else []), jb_routines := (jb_routines s)[i := JobEnded v]\<rparr>"

definition no_jobs :: job_state where
  "no_jobs = \<lparr>jb_routines = [], jb_count = 0, jb_printed = []\<rparr>"

text \<open>What jobs may do, whoever starts them: the specification that both modes implement.\<close>

inductive job_step :: "job_state \<Rightarrow> job_state \<Rightarrow> bool" where
  start: "job_step s (job_start due s)"
| count: "i < length (jb_routines s) \<Longrightarrow> jb_routines s ! i = JobWaiting due \<Longrightarrow> job_step s (job_count i s)"
| print: "i < length (jb_routines s) \<Longrightarrow> jb_routines s ! i = JobCounted v \<Longrightarrow> job_step s (job_print i v s)"

fun job_counted :: "job_pc \<Rightarrow> nat" where
  "job_counted (JobWaiting due) = 0"
| "job_counted _ = 1"

fun job_value :: "job_pc \<Rightarrow> 64 word multiset" where
  "job_value (JobWaiting due) = {#}"
| "job_value (JobCounted v) = {#v#}"
| "job_value (JobEnded v) = {#v#}"

fun job_shown :: "job_pc \<Rightarrow> 64 word multiset" where
  "job_shown (JobEnded v) = (if v mod 10000 = 0 then {#v#} else {#})"
| "job_shown _ = {#}"

definition jobs_counted :: "'a job_state_scheme \<Rightarrow> nat" where
  "jobs_counted s = (\<Sum>r\<leftarrow>jb_routines s. job_counted r)"

text \<open>
  The counter is the number of jobs run, each has had its own value of it, and the multiples of ten thousand among the
  values of the ended jobs are what was printed, in some order.
\<close>

definition jobs_inv :: "'a job_state_scheme \<Rightarrow> bool" where
  "jobs_inv s \<longleftrightarrow> jb_count s = of_nat (jobs_counted s) \<and>
     (\<Sum>r\<leftarrow>jb_routines s. job_value r) = mset (map of_nat [1..<Suc (jobs_counted s)]) \<and>
     mset (jb_printed s) = (\<Sum>r\<leftarrow>jb_routines s. job_shown r)"

lemma jobs_inv_step:
  assumes "jobs_inv s" "job_step s t"
  shows "jobs_inv t"
  using assms(2)
proof cases
  case (start due)
  with assms(1) show ?thesis by (simp add: jobs_inv_def job_start_def jobs_counted_def)
next
  case (count i due)
  let ?v = "jb_count s + 1"
  note u = weight_update [OF count(2), of _ "JobCounted ?v"]
  have n: "jobs_counted t = Suc (jobs_counted s)"
    using u [of job_counted] count by (simp add: jobs_counted_def job_count_def Let_def)
  have "(\<Sum>r\<leftarrow>jb_routines t. job_value r) = add_mset ?v (\<Sum>r\<leftarrow>jb_routines s. job_value r)"
    "(\<Sum>r\<leftarrow>jb_routines t. job_shown r) = (\<Sum>r\<leftarrow>jb_routines s. job_shown r)"
    using u [of job_value] u [of job_shown] count by (simp_all add: job_count_def Let_def)
  moreover have "jb_count t = of_nat (jobs_counted t)" "?v = of_nat (Suc (jobs_counted s))" "jb_printed t = jb_printed s"
    using assms(1) count n by (simp_all add: jobs_inv_def job_count_def Let_def)
  ultimately show ?thesis using assms(1) n by (simp add: jobs_inv_def)
next
  case (print i v)
  note u = weight_update [OF print(2), of _ "JobEnded v"]
  have "jobs_counted t = jobs_counted s" "(\<Sum>r\<leftarrow>jb_routines t. job_value r) = (\<Sum>r\<leftarrow>jb_routines s. job_value r)"
    "(\<Sum>r\<leftarrow>jb_routines t. job_shown r) = (\<Sum>r\<leftarrow>jb_routines s. job_shown r) + job_shown (JobEnded v)"
    using u [of job_counted] u [of job_value] u [of job_shown] print by (simp_all add: jobs_counted_def job_print_def)
  with assms(1) print show ?thesis by (simp add: jobs_inv_def job_print_def)
qed

interpretation jobs: machine "\<lambda>s. s = no_jobs" job_step "jobs_inv :: job_state \<Rightarrow> bool"
proof unfold_locales
  show "s = no_jobs \<Longrightarrow> jobs_inv s" for s :: job_state by (simp add: jobs_inv_def no_jobs_def jobs_counted_def)
  show "jobs_inv s \<Longrightarrow> job_step s t \<Longrightarrow> jobs_inv t" for s t :: job_state by (rule jobs_inv_step)
qed

text \<open>
  The interface of a program that runs jobs: it begins without any, and each of its steps does to them nothing or what the
  specification allows. Then all that holds of the specification holds of the program.
\<close>

locale job_runner =
  fixes init :: "'s \<Rightarrow> bool" and step :: "'s \<Rightarrow> 's \<Rightarrow> bool" and jobs_of :: "'s \<Rightarrow> job_state"
  assumes runner_init: "init s \<Longrightarrow> jobs_of s = no_jobs"
    and runner_step: "step s t \<Longrightarrow> job_step\<^sup>*\<^sup>* (jobs_of s) (jobs_of t)"
begin

lemma runner_simulates: "step\<^sup>*\<^sup>* s t \<Longrightarrow> init s \<Longrightarrow> job_step\<^sup>*\<^sup>* no_jobs (jobs_of t)"
proof (induction rule: rtranclp_induct)
  case base
  then show ?case by (simp add: runner_init)
next
  case (step t u)
  then show ?case using runner_step by (meson rtranclp_trans)
qed

lemma runner_inv: "init s \<Longrightarrow> step\<^sup>*\<^sup>* s t \<Longrightarrow> jobs_inv (jobs_of t)"
  by (rule jobs.inv_reachable [OF refl]) (rule runner_simulates)

end

section \<open>A goroutine for every timer\<close>

definition interval :: nat where "interval = 60000000"

record trad_state = job_state +
  td_now :: nat
  td_wake :: nat
  td_lines :: "nat list"

definition trad_start :: trad_state where
  "trad_start = \<lparr>jb_routines = [], jb_count = 0, jb_printed = [], td_now = 0, td_wake = 0, td_lines = []\<rparr>"

text \<open>The program's goroutines: main, the reporter, and those that have not ended.\<close>

fun job_live :: "job_pc \<Rightarrow> nat" where
  "job_live (JobEnded v) = 0"
| "job_live _ = 1"

definition trad_goroutines :: "trad_state \<Rightarrow> nat" where
  "trad_goroutines s = 2 + (\<Sum>r\<leftarrow>jb_routines s. job_live r)"

text \<open>One turn of the loop: start a goroutine with a timer, then sleep for a millisecond.\<close>

definition trad_turn :: "trad_state \<Rightarrow> trad_state" where
  "trad_turn s = (job_start (td_now s + interval) s)\<lparr>td_wake := td_now s + 1000\<rparr>"

inductive trad_step :: "trad_state \<Rightarrow> trad_state \<Rightarrow> bool" where
  turn: "td_wake s \<le> td_now s \<Longrightarrow> trad_step s (trad_turn s)"
| fire: "i < length (jb_routines s) \<Longrightarrow> jb_routines s ! i = JobWaiting due \<Longrightarrow> due \<le> td_now s \<Longrightarrow> trad_step s (job_count i s)"
| print: "i < length (jb_routines s) \<Longrightarrow> jb_routines s ! i = JobCounted v \<Longrightarrow> trad_step s (job_print i v s)"
| report: "trad_step s (s\<lparr>td_lines := td_lines s @ [trad_goroutines s]\<rparr>)"
| pass: "trad_step s (s\<lparr>td_now := td_now s + d\<rparr>)"

inductive_cases trad_stepE: "trad_step s t"

lemmas job_defs = job_start_def job_count_def job_print_def Let_def

lemma truncate_jobs:
  "job_state.truncate (job_start due s) = job_start due (job_state.truncate s)"
  "job_state.truncate (job_count i s) = job_count i (job_state.truncate s)"
  "job_state.truncate (job_print i v s) = job_print i v (job_state.truncate s)"
  "jb_routines (job_state.truncate s) = jb_routines s"
  by (simp_all add: job_state.truncate_def job_defs)

interpretation trad: job_runner "\<lambda>s. s = trad_start" trad_step job_state.truncate
proof unfold_locales
  show "s = trad_start \<Longrightarrow> job_state.truncate s = no_jobs" for s by (simp add: trad_start_def no_jobs_def job_state.truncate_def)
  show "job_step\<^sup>*\<^sup>* (job_state.truncate s) (job_state.truncate t)" if "trad_step s t" for s t
    using that
  proof cases
    case turn
    have "job_state.truncate t = job_start (td_now s + interval) (job_state.truncate s)"
      by (simp add: turn trad_turn_def job_state.truncate_def job_defs)
    then show ?thesis by (auto intro: job_step.start)
  next
    case (fire i due)
    then show ?thesis by (auto simp: truncate_jobs intro!: r_into_rtranclp job_step.count)
  next
    case (print i v)
    then show ?thesis by (auto simp: truncate_jobs intro!: r_into_rtranclp job_step.print)
  qed (simp_all add: job_state.truncate_def)
qed

text \<open>When goroutines were started, and when their timers may fire.\<close>

definition trad_inv :: "trad_state \<Rightarrow> bool" where
  "trad_inv s \<longleftrightarrow> 1000 * length (jb_routines s) \<le> td_wake s \<and> td_wake s \<le> td_now s + 1000 \<and>
     (\<forall>j < length (jb_routines s). 1000 * j + interval \<le>
        (case jb_routines s ! j of JobWaiting due \<Rightarrow> due | _ \<Rightarrow> td_now s))"

lemma trad_inv_step:
  assumes "trad_inv s" "trad_step s t"
  shows "trad_inv t"
  using assms(2)
proof cases
  case turn
  with assms(1) show ?thesis by (auto simp: trad_inv_def trad_turn_def job_start_def nth_append less_Suc_eq split: job_pc.splits)
next
  case (fire i due)
  have "1000 * j + interval \<le> (case (jb_routines s)[i := JobCounted (jb_count s + 1)] ! j of JobWaiting due \<Rightarrow> due | _ \<Rightarrow> td_now s)"
    if "j < length (jb_routines s)" for j
    using assms(1) that fire by (cases "j = i") (fastforce simp: trad_inv_def)+
  then show ?thesis using assms(1) fire by (simp add: trad_inv_def job_count_def Let_def cong del: job_pc.case_cong_weak)
next
  case (print i v)
  have "1000 * j + interval \<le> (case (jb_routines s)[i := JobEnded v] ! j of JobWaiting due \<Rightarrow> due | _ \<Rightarrow> td_now s)"
    if "j < length (jb_routines s)" for j
    using assms(1) that print by (cases "j = i") (fastforce simp: trad_inv_def)+
  then show ?thesis using assms(1) print by (simp add: trad_inv_def job_print_def cong del: job_pc.case_cong_weak)
next
  case (pass d)
  with assms(1) show ?thesis by (fastforce simp: trad_inv_def split: job_pc.splits)
qed (use assms(1) in \<open>simp add: trad_inv_def cong del: job_pc.case_cong_weak\<close>)

interpretation trad_times: machine "\<lambda>s. s = trad_start" trad_step trad_inv
proof unfold_locales
  show "s = trad_start \<Longrightarrow> trad_inv s" for s by (simp add: trad_inv_def trad_start_def)
  show "trad_inv s \<Longrightarrow> trad_step s t \<Longrightarrow> trad_inv t" for s t by (rule trad_inv_step)
qed

lemma counted_prefix:
  assumes "\<forall>j < length rs. job_counted (rs ! j) \<noteq> 0 \<longrightarrow> j < n"
  shows "(\<Sum>r\<leftarrow>rs. job_counted r) \<le> n"
proof -
  have le: "(\<Sum>r\<leftarrow>xs. job_counted r) \<le> length xs" for xs
  proof (induction xs)
    case (Cons x xs)
    then show ?case by (cases x) auto
  qed simp
  have "job_counted x = 0" if "x \<in> set (drop n rs)" for x
  proof -
    from that obtain i where i: "i < length rs - n" "x = rs ! (n + i)" by (auto simp: in_set_conv_nth)
    then have "n + i < length rs" "\<not> n + i < n" by linarith+
    with assms i(2) show ?thesis by blast
  qed
  then have "(\<Sum>r\<leftarrow>drop n rs. job_counted r) = 0" by (auto simp: sum_list_eq_0_iff)
  then have "(\<Sum>r\<leftarrow>rs. job_counted r) = (\<Sum>r\<leftarrow>take n rs. job_counted r)"
    by (metis add.right_neutral append_take_drop_id map_append sum_list_append)
  also have "\<dots> \<le> length (take n rs)" by (rule le)
  finally show ?thesis by simp
qed

text \<open>
  With a goroutine for every timer, timers are started at most once a millisecond and none fires before its minute is over, so
  the number of goroutines grows with the time: after \<open>m\<close> started timers and before the first minute is over, all
  \<open>m\<close> of them are waiting.
\<close>

lemma trad_bounds:
  assumes "trad_step\<^sup>*\<^sup>* trad_start s"
  shows "1000 * length (jb_routines s) \<le> td_now s + 1000 \<and> 1000 * jobs_counted s + interval \<le> max (td_now s + 1000) interval"
proof -
  have i: "trad_inv s" using trad_times.inv_reachable assms by blast
  have "1000 * jobs_counted s + interval \<le> max (td_now s + 1000) interval"
  proof (cases "interval \<le> td_now s")
    case True
    have "jobs_counted s \<le> (td_now s - interval) div 1000 + 1" unfolding jobs_counted_def
    proof (rule counted_prefix, intro allI impI)
      fix j assume j: "j < length (jb_routines s)" "job_counted (jb_routines s ! j) \<noteq> 0"
      then have "1000 * j + interval \<le> td_now s" using i unfolding trad_inv_def by (cases "jb_routines s ! j") fastforce+
      then have "1000 * j \<le> td_now s - interval" by linarith
      then show "j < (td_now s - interval) div 1000 + 1" by linarith
    qed
    then show ?thesis using True by linarith
  next
    case False
    have "jobs_counted s \<le> 0" unfolding jobs_counted_def
    proof (rule counted_prefix, intro allI impI)
      fix j assume j: "j < length (jb_routines s)" "job_counted (jb_routines s ! j) \<noteq> 0"
      then have "1000 * j + interval \<le> td_now s" using i unfolding trad_inv_def by (cases "jb_routines s ! j") fastforce+
      with False show "j < 0" by linarith
    qed
    then show ?thesis by simp
  qed
  then show ?thesis using i by (auto simp: trad_inv_def)
qed

lemma live_counted: "length rs \<le> (\<Sum>r\<leftarrow>rs. job_live r) + (\<Sum>r\<leftarrow>rs. job_counted r)"
proof (induction rs)
  case (Cons r rs)
  then show ?case by (cases r) auto
qed simp

lemma live_le: "(\<Sum>r\<leftarrow>rs. job_live r) \<le> length rs"
proof (induction rs)
  case (Cons r rs)
  then show ?case by (cases r) auto
qed simp

lemma trad_goroutines_grow:
  assumes "trad_step\<^sup>*\<^sup>* trad_start s" "td_now s < interval"
  shows "trad_goroutines s = 2 + length (jb_routines s)"
proof -
  have "jobs_counted s = 0" using trad_bounds [OF assms(1)] assms(2) by (auto simp: interval_def max_def split: if_splits)
  then have "length (jb_routines s) \<le> (\<Sum>r\<leftarrow>jb_routines s. job_live r)" using live_counted [of "jb_routines s"] unfolding jobs_counted_def by linarith
  then show ?thesis using live_le [of "jb_routines s"] by (simp add: trad_goroutines_def)
qed

section \<open>One wheel for all timers\<close>

text \<open>
  The library: a wheel is made for a tick and a number of slots; setting a timer under a key replaces one that is pending under
  it; on a tick the wheel takes out some of the pending timers and runs the function it was made with on each.
\<close>

record ('k, 'v, 'w) wheel_lib =
  NewTimingWheel :: "nat \<Rightarrow> nat \<Rightarrow> 'w result"
  SetTimer :: "'k \<Rightarrow> 'v \<Rightarrow> nat \<Rightarrow> 'w \<Rightarrow> 'w"
  WheelTick :: "'w \<Rightarrow> 'w \<times> ('k \<times> 'v) list"

definition wheel_ok :: "('k, 'v, 'w) wheel_lib \<Rightarrow> ('w \<Rightarrow> 'k \<rightharpoonup> 'v) \<Rightarrow> bool" where
  "wheel_ok W pending \<longleftrightarrow>
     (\<forall>d n w. NewTimingWheel W d n = Inr w \<longrightarrow> pending w = Map.empty) \<and>
     (\<forall>k v d w. pending (SetTimer W k v d w) = (pending w)(k \<mapsto> v)) \<and>
     (\<forall>w w' ts. WheelTick W w = (w', ts) \<longrightarrow> distinct (map fst ts) \<and> fst ` set ts \<subseteq> dom (pending w) \<and>
        pending w' = pending w |` (- fst ` set ts))"

record 'w wheel_state = job_state +
  wh_wheel :: 'w
  wh_next :: nat
  wh_now :: nat
  wh_wake :: nat
  wh_lines :: "nat list"

definition wheel_start :: "'w \<Rightarrow> 'w wheel_state" where
  "wheel_start tw = \<lparr>jb_routines = [], jb_count = 0, jb_printed = [], wh_wheel = tw, wh_next = 0, wh_now = 0, wh_wake = 0, wh_lines = []\<rparr>"

definition wheel_goroutines :: "nat \<Rightarrow> 'w wheel_state \<Rightarrow> nat" where
  "wheel_goroutines own s = 2 + own + (\<Sum>r\<leftarrow>jb_routines s. job_live r)"

text \<open>One turn of the loop: set the next timer, then sleep for a microsecond. The library's own goroutines are \<open>own\<close>.\<close>

definition wheel_turn :: "(nat, nat, 'w) wheel_lib \<Rightarrow> 'w wheel_state \<Rightarrow> 'w wheel_state" where
  "wheel_turn W s =
     (let i = wh_next s in s\<lparr>wh_wheel := SetTimer W i i interval (wh_wheel s), wh_next := Suc i, wh_wake := wh_now s + 1\<rparr>)"

definition wheel_run :: "(nat, nat, 'w) wheel_lib \<Rightarrow> 'w wheel_state \<Rightarrow> 'w wheel_state" where
  "wheel_run W s =
     (case WheelTick W (wh_wheel s) of (w, ts) \<Rightarrow> fold (\<lambda>_. job_start (wh_now s)) ts (s\<lparr>wh_wheel := w\<rparr>))"

inductive wheel_step :: "(nat, nat, 'w) wheel_lib \<Rightarrow> nat \<Rightarrow> 'w wheel_state \<Rightarrow> 'w wheel_state \<Rightarrow> bool" for W own where
  turn: "wh_wake s \<le> wh_now s \<Longrightarrow> wheel_step W own s (wheel_turn W s)"
| run: "wheel_step W own s (wheel_run W s)"
| fire: "i < length (jb_routines s) \<Longrightarrow> jb_routines s ! i = JobWaiting due \<Longrightarrow> wheel_step W own s (job_count i s)"
| print: "i < length (jb_routines s) \<Longrightarrow> jb_routines s ! i = JobCounted v \<Longrightarrow> wheel_step W own s (job_print i v s)"
| report: "wheel_step W own s (s\<lparr>wh_lines := wh_lines s @ [wheel_goroutines own s]\<rparr>)"
| pass: "wheel_step W own s (s\<lparr>wh_now := wh_now s + d\<rparr>)"

lemma fold_job_start:
  "jb_routines (fold (\<lambda>_. job_start due) ts s) = jb_routines s @ replicate (length ts) (JobWaiting due)"
  "wh_wheel (fold (\<lambda>_. job_start due) ts s) = wh_wheel s" "wh_next (fold (\<lambda>_. job_start due) ts s) = wh_next s"
  "job_step\<^sup>*\<^sup>* (job_state.truncate s) (job_state.truncate (fold (\<lambda>_. job_start due) ts s))"
proof (induction ts arbitrary: s)
  case (Cons t ts)
  { case 1 show ?case using Cons(1) [of "job_start due s"] by (simp add: job_start_def)
  next case 2 show ?case using Cons(2) [of "job_start due s"] by (simp add: job_start_def)
  next case 3 show ?case using Cons(3) [of "job_start due s"] by (simp add: job_start_def)
  next case 4
    have "job_step (job_state.truncate s) (job_state.truncate (job_start due s))" by (simp add: truncate_jobs job_step.start)
    with Cons(4) [of "job_start due s"] show ?case by (simp add: converse_rtranclp_into_rtranclp)
  }
qed simp_all

interpretation wheel: job_runner "\<lambda>s. \<exists>tw. s = wheel_start tw" "wheel_step W own" job_state.truncate for W own
proof unfold_locales
  show "\<exists>tw. s = wheel_start tw \<Longrightarrow> job_state.truncate s = no_jobs" for s :: "'a wheel_state"
    by (auto simp: wheel_start_def no_jobs_def job_state.truncate_def)
  show "job_step\<^sup>*\<^sup>* (job_state.truncate s) (job_state.truncate t)" if "wheel_step W own s t" for s t
    using that
  proof cases
    case run
    obtain w ts where w: "WheelTick W (wh_wheel s) = (w, ts)" by fastforce
    have "job_state.truncate (s\<lparr>wh_wheel := w\<rparr>) = job_state.truncate s" by (simp add: job_state.truncate_def)
    then show ?thesis using fold_job_start(4) [of "s\<lparr>wh_wheel := w\<rparr>" "wh_now s" ts] w run by (simp add: wheel_run_def)
  next
    case (fire i due)
    then show ?thesis by (auto simp: truncate_jobs intro!: r_into_rtranclp job_step.count)
  next
    case (print i v)
    then show ?thesis by (auto simp: truncate_jobs intro!: r_into_rtranclp job_step.print)
  qed (simp_all add: job_state.truncate_def wheel_turn_def Let_def)
qed

text \<open>Every timer set is pending or has had its job started, and keys do not collide.\<close>

definition wheel_inv :: "('w \<Rightarrow> nat \<rightharpoonup> nat) \<Rightarrow> 'w wheel_state \<Rightarrow> bool" where
  "wheel_inv pending s \<longleftrightarrow> dom (pending (wh_wheel s)) \<subseteq> {..<wh_next s} \<and>
     card (dom (pending (wh_wheel s))) + length (jb_routines s) = wh_next s"

lemma wheel_inv_step:
  assumes ok: "wheel_ok W pending" and i: "wheel_inv pending s" and st: "wheel_step W own s t"
  shows "wheel_inv pending t"
  using st
proof cases
  case turn
  have "finite (dom (pending (wh_wheel s)))" using i finite_subset unfolding wheel_inv_def by blast
  moreover have "wh_next s \<notin> dom (pending (wh_wheel s))" using i by (auto simp: wheel_inv_def)
  ultimately show ?thesis using i ok turn by (auto simp: wheel_inv_def wheel_turn_def wheel_ok_def Let_def)
next
  case run
  obtain w ts where w: "WheelTick W (wh_wheel s) = (w, ts)" by fastforce
  then have p: "distinct (map fst ts)" "fst ` set ts \<subseteq> dom (pending (wh_wheel s))" "pending w = pending (wh_wheel s) |` (- fst ` set ts)"
    using ok unfolding wheel_ok_def by blast+
  have f: "finite (dom (pending (wh_wheel s)))" using i finite_subset unfolding wheel_inv_def by blast
  have "dom (pending w) = dom (pending (wh_wheel s)) - fst ` set ts" using p(3) by auto
  moreover have "card (fst ` set ts) = length ts" using p(1) by (metis distinct_card length_map set_map)
  moreover have "card (fst ` set ts) \<le> card (dom (pending (wh_wheel s)))" using card_mono [OF f p(2)] .
  ultimately have "card (dom (pending w)) + length ts = card (dom (pending (wh_wheel s)))" "dom (pending w) \<subseteq> dom (pending (wh_wheel s))"
    using card_Diff_subset [OF finite_subset [OF p(2) f] p(2)] by auto
  moreover from this(2) have "dom (pending w) \<subseteq> {..<wh_next s}" using i unfolding wheel_inv_def by blast
  ultimately show ?thesis using i run w by (simp add: wheel_inv_def wheel_run_def fold_job_start)
qed (use i in \<open>simp_all add: wheel_inv_def job_defs\<close>)


interpretation wheel_timers: machine "\<lambda>s. wheel_ok W pending \<and> (\<exists>d n tw. NewTimingWheel W d n = Inr tw \<and> s = wheel_start tw)" "wheel_step W own"
    "\<lambda>s. wheel_ok W pending \<and> wheel_inv pending s" for W pending own
proof unfold_locales
  show "wheel_ok W pending \<and> (\<exists>d n tw. NewTimingWheel W d n = Inr tw \<and> s = wheel_start tw) \<Longrightarrow> wheel_ok W pending \<and> wheel_inv pending s" for s
    by (auto simp: wheel_ok_def wheel_inv_def wheel_start_def)
  show "wheel_ok W pending \<and> wheel_inv pending s \<Longrightarrow> wheel_step W own s t \<Longrightarrow> wheel_ok W pending \<and> wheel_inv pending t" for s t
    by (blast intro: wheel_inv_step)
qed

section \<open>The timer test\<close>

datatype 'w timer_mode = Traditional trad_state | OnWheel "'w wheel_state"

definition timingWheelMode :: "(nat, nat, 'w) wheel_lib \<Rightarrow> 'w timer_mode result" where
  "timingWheelMode W =
     (case NewTimingWheel W 1000000 600 of Inl err \<Rightarrow> Inl err | Inr tw \<Rightarrow> Inr (OnWheel (wheel_start tw)))"

definition traditionalMode :: "'w timer_mode" where "traditionalMode = Traditional trad_start"

definition timer_main :: "(nat, nat, 'w) wheel_lib \<Rightarrow> bool \<Rightarrow> 'w timer_mode result" where
  "timer_main W traditional = (if traditional then Inr traditionalMode else timingWheelMode W)"

fun timer_step :: "(nat, nat, 'w) wheel_lib \<Rightarrow> nat \<Rightarrow> 'w timer_mode \<Rightarrow> 'w timer_mode \<Rightarrow> bool" where
  "timer_step W own (Traditional s) (Traditional t) = trad_step s t"
| "timer_step W own (OnWheel s) (OnWheel t) = wheel_step W own s t"
| "timer_step W own _ _ = False"

fun timer_jobs :: "'w timer_mode \<Rightarrow> job_state" where
  "timer_jobs (Traditional s) = job_state.truncate s"
| "timer_jobs (OnWheel s) = job_state.truncate s"

interpretation timers: job_runner "\<lambda>m. \<exists>b. timer_main W b = Inr m" "timer_step W own" timer_jobs for W own
proof unfold_locales
  show "\<exists>b. timer_main W b = Inr m \<Longrightarrow> timer_jobs m = no_jobs" for m :: "'a timer_mode"
    by (auto simp: timer_main_def traditionalMode_def timingWheelMode_def trad_start_def wheel_start_def no_jobs_def job_state.truncate_def
        split: if_splits sum.splits)
  show "timer_step W own m n \<Longrightarrow> job_step\<^sup>*\<^sup>* (timer_jobs m) (timer_jobs n)" for m n
    by (cases "(W, own, m, n)" rule: timer_step.cases) (auto intro: trad.runner_step wheel.runner_step)
qed

text \<open>
  In both modes, whatever the interleaving: the counter is the number of jobs run so far modulo \<open>2 ^ 64\<close>; no value of it is
  seen by two jobs; and once no job is about to print, the lines printed are the multiples of ten thousand up to the number of
  jobs, each as often as it was passed.
\<close>

lemma shown_value:
  "\<forall>r \<in> set rs. job_live r = 0 \<or> (\<exists>due. r = JobWaiting due) \<Longrightarrow>
   (\<Sum>r\<leftarrow>rs. job_shown r) = filter_mset (\<lambda>v. v mod 10000 = 0) (\<Sum>r\<leftarrow>rs. job_value r)"
proof (induction rs)
  case (Cons r rs)
  then show ?case by (cases r) auto
qed simp

lemma timer_test_counts:
  assumes "timer_main W b = Inr m" "(timer_step W own)\<^sup>*\<^sup>* m n" and j_def: "j = timer_jobs n"
  shows "jb_count j = of_nat (jobs_counted j) \<and>
    ((\<forall>r \<in> set (jb_routines j). job_live r = 0 \<or> (\<exists>due. r = JobWaiting due)) \<longrightarrow>
      mset (jb_printed j) = mset (filter (\<lambda>v. v mod 10000 = 0) (map of_nat [1..<Suc (jobs_counted j)])))"
proof -
  have "jobs_inv j" unfolding j_def using timers.runner_inv assms(1,2) by blast
  then show ?thesis using shown_value [of "jb_routines j"] by (auto simp: jobs_inv_def mset_filter simp del: upt_Suc)
qed

text \<open>On the wheel a pending timer needs no goroutine: the goroutines besides the fixed ones are at most the jobs that were started.\<close>

lemma wheel_goroutines_bound:
  assumes "wheel_ok W pending" "NewTimingWheel W d k = Inr tw" "(wheel_step W own)\<^sup>*\<^sup>* (wheel_start tw) s"
  shows "wheel_goroutines own s + card (dom (pending (wh_wheel s))) \<le> 2 + own + wh_next s"
proof -
  have "wheel_inv pending s" using wheel_timers.inv_reachable [of W pending "wheel_start tw" own s] assms by blast
  then show ?thesis using live_le [of "jb_routines s"] by (simp add: wheel_inv_def wheel_goroutines_def)
qed

section \<open>Filling wheels\<close>

definition numItems :: nat where "numItems = 1000000"

definition getMemUsage :: "64 word \<Rightarrow> string" where
  "getMemUsage heapAlloc = ''Heap Alloc = '' @ nat_digits (unat (toMiB heapAlloc)) @ ''MiB''"

text \<open>\<open>heap\<close> is what the runtime reports after a collection.\<close>

definition leak_do :: "(string, string, 'w) wheel_lib \<Rightarrow> 64 word \<Rightarrow> ('w \<times> string) result" where
  "leak_do W heap =
     (case NewTimingWheel W 1000000 100 of
        Inl err \<Rightarrow> Inl err
      | Inr tw \<Rightarrow>
          let tw = fold (\<lambda>i. let key = nat_digits i in SetTimer W key key 5000000) [0..<numItems] tw
          in Inr (tw, getMemUsage heap))"

fun leak_do_rounds :: "(string, string, 'w) wheel_lib \<Rightarrow> 64 word list \<Rightarrow> ('w list \<times> string list) result" where
  "leak_do_rounds W [] = Inr ([], [])"
| "leak_do_rounds W (h # hs) =
     (case leak_do W h of
        Inl err \<Rightarrow> Inl err
      | Inr (tw, l) \<Rightarrow> (case leak_do_rounds W hs of Inl err \<Rightarrow> Inl err | Inr (ws, ls) \<Rightarrow> Inr (tw # ws, l # ls)))"

text \<open>One reading of the heap for the start and one for each round.\<close>

definition leak_wheel_main :: "(string, string, 'w) wheel_lib \<Rightarrow> (nat \<Rightarrow> 64 word) \<Rightarrow> nat \<Rightarrow> ('w list \<times> string list) result" where
  "leak_wheel_main W heap rounds =
     (case leak_do_rounds W (map (\<lambda>i. heap (Suc i)) [0..<rounds]) of
        Inl err \<Rightarrow> Inl err | Inr (ws, ls) \<Rightarrow> Inr (ws, getMemUsage (heap 0) # ls))"

lemma fold_SetTimer:
  assumes "wheel_ok W pending"
  shows "pending (fold (\<lambda>i. let key = f i in SetTimer W key key d) xs w) =
    (\<lambda>k. if k \<in> f ` set xs then Some k else pending w k)"
  using assms by (induction xs arbitrary: w) (auto simp: wheel_ok_def Let_def)

text \<open>
  Every round leaves a million pending timers in a wheel of its own, which is never stopped; the program prints a line for the
  start and one for each round.
\<close>

lemma leak_rounds_keep:
  assumes "wheel_ok W pending" "leak_do_rounds W hs = Inr (ws, ls)"
  shows "length ws = length hs \<and> ls = map getMemUsage hs \<and> (\<forall>w \<in> set ws. card (dom (pending w)) = numItems)"
  using assms(2)
proof (induction hs arbitrary: ws ls)
  case (Cons h hs)
  then obtain tw l ws' ls' where d: "leak_do W h = Inr (tw, l)" "leak_do_rounds W hs = Inr (ws', ls')" "ws = tw # ws'" "ls = l # ls'"
    by (auto split: sum.splits prod.splits)
  then obtain w where w: "NewTimingWheel W 1000000 100 = Inr w" "l = getMemUsage h"
      "tw = fold (\<lambda>i. let key = nat_digits i in SetTimer W key key 5000000) [0..<numItems] w"
    by (auto simp: leak_do_def Let_def simp del: nat_digits.simps split: sum.splits)
  have "pending w = Map.empty" using assms(1) w(1) unfolding wheel_ok_def by blast
  then have "dom (pending tw) = nat_digits ` {0..<numItems}"
    unfolding w(3) fold_SetTimer [OF assms(1)] by (auto simp: dom_def simp del: nat_digits.simps)
  then have "card (dom (pending tw)) = numItems" using card_image [OF inj_on_subset [OF inj_nat_digits]] by simp
  with Cons.IH [OF d(2)] d w(2) show ?case by simp
qed simp

end
