(* ===== verification/Map_Reduce_Mains.thy ===== *)
theory Map_Reduce_Mains
  imports Map_Reduce_Programs Process_Demos
begin

text \<open>
  The main functions of the map-reduce programs (\<^verbatim>\<open>mapreduce/mr\<close>, \<^verbatim>\<open>mapreduce/countfunc\<close>, \<^verbatim>\<open>mapreduce/irregular\<close>,
  \<^verbatim>\<open>mapreduce/goroutineleak\<close>): what they print, and the goroutines of the leak test. Elapsed times are arguments.
\<close>

section \<open>Product details\<close>

definition mr_main ::
  "(ProductDetail finish_fn list \<Rightarrow> ProductDetail \<Rightarrow> ProductDetail \<times> unit result) \<Rightarrow>
   (64 word, 64 word, 64 word list) map_reduce \<Rightarrow> string \<Rightarrow> (64 word list \<Rightarrow> string) \<Rightarrow> string list" where
  "mr_main Finish MapReduce elapsed print_list =
     (case productDetail Finish 123 345 of
        Inl err \<Rightarrow> [''product detail error: '' @ err_text err]
      | Inr _ \<Rightarrow> (''productDetail time: '' @ elapsed) #
          (case checkLegal MapReduce [1, 2, 3] of
             Inl err \<Rightarrow> [''check error: '' @ err_text err]
           | Inr res \<Rightarrow> [''check res: '' @ print_list res]))"

lemma run_fns_no_error: "\<forall>f \<in> set fs. \<forall>s. \<exists>t. f s = (t, Inr ()) \<Longrightarrow> snd (run_fns fs s) = []"
proof (induction fs arbitrary: s)
  case (Cons f fs)
  then obtain t where "f s = (t, Inr ())" by (meson list.set_intros(1))
  with Cons show ?case by (simp split: prod.splits)
qed simp

text \<open>With libraries that keep their contracts no error branch is ever taken, and the users checked are printed in some order.\<close>

lemma mr_main_prints:
  assumes "finish_ok Finish" "map_reduce_ok MapReduce"
  shows "\<exists>r. mset r = mset [1, 2, 3] \<and>
    mr_main Finish MapReduce elapsed print_list = [''productDetail time: '' @ elapsed, ''check res: '' @ print_list r]"
proof -
  let ?fs = "[set_field (\<lambda>v pd. pd\<lparr>pd_User := v\<rparr>) (user_User 123) Nil_val,
              set_field (\<lambda>v pd. pd\<lparr>pd_Store := v\<rparr>) (store_Store 345) Nil_val,
              set_field (\<lambda>v pd. pd\<lparr>pd_Order := v\<rparr>) (order_Order 345) Nil_val]"
  let ?s = "\<lparr>pd_User = Nil_val, pd_Store = Nil_val, pd_Order = Nil_val\<rparr>"
  obtain gs where gs: "mset gs = mset ?fs"
      "Finish ?fs ?s = (fst (run_fns gs ?s), case snd (run_fns gs ?s) of [] \<Rightarrow> Inr () | e # _ \<Rightarrow> Inl e)"
    using assms(1) unfolding finish_ok_def by blast
  have "\<forall>f \<in> set ?fs. \<forall>s. \<exists>t. f s = (t, Inr ())" by (simp add: set_field_def user_User_def store_Store_def order_Order_def)
  then have "\<forall>f \<in> set gs. \<forall>s. \<exists>t. f s = (t, Inr ())" using mset_eq_setD [OF gs(1)] by simp
  then have "snd (run_fns gs ?s) = []" by (rule run_fns_no_error)
  then have "\<exists>pd. productDetail Finish 123 345 = Inr pd" using gs(2) by (simp add: productDetail_def)
  moreover have "\<forall>x \<in> set [1, 2, 3]. checkLegal_mapper x = [Write (id x)]" by (simp add: checkLegal_mapper_def check_def)
  from collected [OF assms(2) this] obtain r where "checkLegal MapReduce [1, 2, 3] = Inr r" "mset r = mset [1, 2, 3]"
    by (auto simp: checkLegal_def)
  ultimately show ?thesis by (auto simp: mr_main_def)
qed

section \<open>The function counter\<close>

text \<open>
  The end of the program: its lines, \<^verbatim>\<open>log.Fatal\<close>, a panic, or none when a mapper never returns. Without \<^verbatim>\<open>-d\<close> the usage is printed and
  the program goes on. \<open>Walk\<close> is what \<^verbatim>\<open>filepath.Walk\<close> reports: the entries below a path.
\<close>

datatype count_end = CountPrints "string list" | CountFatal string | CountCrash go_panic

definition countfunc_main ::
  "unit result \<Rightarrow> (string \<Rightarrow> (string \<times> bool option) list) \<Rightarrow> (string, 64 word, 64 word) map_reduce \<Rightarrow> (string \<Rightarrow> src_file) \<Rightarrow>
   count_flags \<Rightarrow> string \<Rightarrow> string \<Rightarrow> string \<Rightarrow> count_end option" where
  "countfunc_main Listen Walk MapReduce files fl dir usage elapsed =
     (case Listen of
        Inl err \<Rightarrow> Some (CountFatal (err_text err))
      | Inr _ \<Rightarrow>
          let out = (if length dir = 0 then [usage] else []) @ [''Processing, please wait...'']
          in case count_main MapReduce files fl (Walk dir) of
               None \<Rightarrow> None
             | Some (Inl (Panicked p)) \<Rightarrow> Some (CountCrash p)
             | Some (Inl err) \<Rightarrow> Some (CountPrints (out @ [err_text err]))
             | Some (Inr result) \<Rightarrow> Some (CountPrints (out @ [itoa result, ''Elapsed: '' @ elapsed, ''Done''])))"

text \<open>
  Without a directory the walk of the empty path reports that path with no file information, which the walk's function
  does not expect: the program ends with a nil dereference.
\<close>

lemma countfunc_no_dir:
  "Walk [] = [([], None)] \<Longrightarrow> countfunc_main (Inr ()) Walk MapReduce files fl [] usage elapsed = Some (CountCrash NilDereference)"
  by (simp add: countfunc_main_def count_main_def)

section \<open>Irregular mappers\<close>

text \<open>\<^verbatim>\<open>mr.MapReduceVoid\<close> gives the reducer every value written, in some order.\<close>

type_synonym ('a, 'b) map_reduce_void = "'a list \<Rightarrow> ('a \<Rightarrow> 'b mr_act list) \<Rightarrow> 'b list"

definition irregular_main :: "(nat, nat) map_reduce_void \<Rightarrow> string list" where
  "irregular_main MapReduceVoid = map nat_digits (MapReduceVoid irregular_items (\<lambda>i. snd (irregular_mapper i)))"

lemma irregular_prints:
  assumes "\<And>items mp. mset (MapReduceVoid items mp) = mset (concat (map (written \<circ> mp) items))"
  shows "mset (irregular_main MapReduceVoid) = mset (map nat_digits [0..<10])"
proof -
  have "concat (map (written \<circ> (\<lambda>i. snd (irregular_mapper i))) xs) = xs" for xs by (induction xs) (simp_all add: irregular_mapper_def)
  then have "mset (MapReduceVoid irregular_items (\<lambda>i. snd (irregular_mapper i))) = mset [0..<10]"
    using assms by (simp add: irregular_items_def)
  then show ?thesis unfolding irregular_main_def by (metis mset_map)
qed

section \<open>The leak test\<close>

text \<open>
  Three goroutines: the main loop, at its \<^verbatim>\<open>select\<close> or in a round; the one that sleeps for a minute, dumps all goroutines and
  closes the channel; and the printer of goroutine counts.
\<close>

datatype dumper_pc = DumpSleeping | DumpClosing | DumpEnded

record leak_proc =
  lk_main :: "bool option"
  lk_dumper :: dumper_pc
  lk_done :: bool
  lk_panicked :: bool
  lk_rounds :: "nat list result list"
  lk_lines :: "nat list"
  lk_fs :: fs
  lk_log :: "(log_level \<times> string) list"

text \<open>\<open>lk_main\<close>: \<open>Some False\<close> at the \<^verbatim>\<open>select\<close>, \<open>Some True\<close> in the default branch, \<open>None\<close> returned.\<close>

definition leak_init :: "fs \<Rightarrow> leak_proc" where
  "leak_init f = \<lparr>lk_main = Some False, lk_dumper = DumpSleeping, lk_done = False, lk_panicked = False, lk_rounds = [], lk_lines = [],
     lk_fs = f, lk_log = []\<rparr>"

definition leak_dumpFile :: string where "leak_dumpFile = ''goroutines.dump''"

definition leak_dumpGoroutines :: "string \<Rightarrow> leak_proc \<Rightarrow> leak_proc" where
  "leak_dumpGoroutines profile s =
     (let s = s\<lparr>lk_log := lk_log s @ [(LInfo, ''Got dump goroutine signal, printing goroutine profile to '' @ leak_dumpFile)]\<rparr>
      in case os_Create leak_dumpFile (lk_fs s) of
           (f, Inl err) \<Rightarrow> s\<lparr>lk_fs := f, lk_log := lk_log s @ [(LError, ''Failed to dump goroutine profile, error: '' @ err_text err)]\<rparr>
         | (f, Inr q) \<Rightarrow> s\<lparr>lk_fs := io_Copy q profile f\<rparr>)"

definition leak_close :: "leak_proc \<Rightarrow> leak_proc" where
  "leak_close s =
     (if lk_done s then s\<lparr>lk_panicked := True\<rparr> else s\<lparr>lk_done := True, lk_dumper := DumpEnded\<rparr>)"

definition leak_alive :: "leak_proc \<Rightarrow> bool" where
  "leak_alive s \<longleftrightarrow> lk_main s \<noteq> None \<and> \<not> lk_panicked s"

inductive leak_step :: "(nat, nat, nat list) map_reduce \<Rightarrow> leak_proc \<Rightarrow> leak_proc \<Rightarrow> bool" for MR where
  leave: "leak_alive s \<Longrightarrow> lk_main s = Some False \<Longrightarrow> lk_done s \<Longrightarrow> leak_step MR s (s\<lparr>lk_main := None\<rparr>)"
| default: "leak_alive s \<Longrightarrow> lk_main s = Some False \<Longrightarrow> \<not> lk_done s \<Longrightarrow> leak_step MR s (s\<lparr>lk_main := Some True\<rparr>)"
| round: "leak_alive s \<Longrightarrow> lk_main s = Some True \<Longrightarrow>
    leak_step MR s (s\<lparr>lk_main := Some False, lk_rounds := lk_rounds s @ [leak_round MR]\<rparr>)"
| dump: "leak_alive s \<Longrightarrow> lk_dumper s = DumpSleeping \<Longrightarrow> leak_step MR s ((leak_dumpGoroutines profile s)\<lparr>lk_dumper := DumpClosing\<rparr>)"
| close: "leak_alive s \<Longrightarrow> lk_dumper s = DumpClosing \<Longrightarrow> leak_step MR s (leak_close s)"
| print: "leak_alive s \<Longrightarrow> leak_step MR s (s\<lparr>lk_lines := lk_lines s @ [n]\<rparr>)"

definition leak_dumped :: "leak_proc \<Rightarrow> bool" where
  "leak_dumped s \<longleftrightarrow> fs_files (lk_fs s) (fs_resolve (lk_fs s) leak_dumpFile) \<noteq> None \<or>
     (\<exists>msg. (LError, ''Failed to dump goroutine profile, error: '' @ msg) \<in> set (lk_log s))"

definition leak_inv :: "(nat, nat, nat list) map_reduce \<Rightarrow> leak_proc \<Rightarrow> bool" where
  "leak_inv MR s \<longleftrightarrow> \<not> lk_panicked s \<and> (lk_done s \<longleftrightarrow> lk_dumper s = DumpEnded) \<and> (lk_main s = None \<longrightarrow> lk_done s) \<and>
     set (lk_rounds s) \<subseteq> {leak_round MR} \<and> (lk_dumper s = DumpSleeping \<longrightarrow> lk_log s = []) \<and>
     (lk_dumper s \<noteq> DumpSleeping \<longrightarrow> leak_dumped s)"

lemma leak_inv_step: "leak_inv MR s \<Longrightarrow> leak_step MR s t \<Longrightarrow> leak_inv MR t"
  by (erule leak_step.cases)
    (auto simp: leak_inv_def leak_dumped_def leak_close_def leak_dumpGoroutines_def leak_alive_def os_Create_def io_Copy_def fs_resolve_def Let_def
      split: if_splits)

interpretation leaking: machine "\<lambda>s. \<exists>f. s = leak_init f" "leak_step MR" "leak_inv MR" for MR
proof unfold_locales
  show "\<exists>f. s = leak_init f \<Longrightarrow> leak_inv MR s" for s by (auto simp: leak_init_def leak_inv_def)
  show "leak_inv MR s \<Longrightarrow> leak_step MR s t \<Longrightarrow> leak_inv MR t" for s t by (rule leak_inv_step)
qed

text \<open>The test never closes its channel twice, and when it has returned the profile is there or the failure was logged.\<close>

lemma leak_test_dumps:
  assumes "(leak_step MR)\<^sup>*\<^sup>* (leak_init f) s"
  shows "\<not> lk_panicked s \<and> (lk_main s = None \<longrightarrow> leak_dumped s)"
proof -
  have "leak_inv MR s" using leaking.inv_reachable assms by blast
  then show ?thesis by (auto simp: leak_inv_def)
qed

end
