(* ===== verification/Process_Mains.thy ===== *)
theory Process_Mains
  imports Process_Demos Small_Programs Breaker_Client Breaker_Simulation Load_Generator Worker_Group
begin

text \<open>
  The main functions around the processes of the other theories: result files (\<^verbatim>\<open>http/breaker/client\<close>, \<^verbatim>\<open>breaker/main.go\<close>,
  \<^verbatim>\<open>load/main.go\<close>), limiters and their store (\<^verbatim>\<open>limit\<close>), the service group's start and stop, the overloaded server's
  configuration and routes (\<^verbatim>\<open>http/breaker/server.go\<close>), and the busy goroutines of \<^verbatim>\<open>load/simulate/server\<close> and \<^verbatim>\<open>stat\<close>.
\<close>

section \<open>Result files\<close>

text \<open>Creating \<^verbatim>\<open>result.csv\<close> and printing its header; \<^verbatim>\<open>logx.Must\<close> ends the process on an error.\<close>

definition create_result :: "string \<Rightarrow> fs \<Rightarrow> fs result" where
  "create_result header f =
     (case os_Create ''result.csv'' f of
        (f, Inl err) \<Rightarrow> Inl err
      | (f, Inr q) \<Rightarrow> Inr (io_Copy q (header @ [newline_char]) f))"

definition client_header :: string where
  "client_header = ''seconds,goodOk,goodFail,goodReject,goodErrs,goodUnknowns,goodDropRatio,'' @
     ''heavyOk,heavyFail,heavyReject,heavyErrs,heavyUnknowns,heavyDropRatio''"

definition simulation_header :: string where
  "simulation_header = ''seconds,state,googleCalls,netflixCalls''"

definition load_header :: string where
  "load_header = ''second,maxFlight,flying,agressiveAvgFlying,lazyAvgFlying,bothAvgFlying''"

text \<open>
  The rows, as \<^verbatim>\<open>Fprintf\<close> formats them. \<open>ratio\<close> prints a quotient of two integers with one decimal, \<open>state_text\<close> the scaled
  state and \<open>avg\<close> an average with two decimals.
\<close>

definition counting_cells :: "(64 word \<Rightarrow> 64 word \<Rightarrow> string) \<Rightarrow> counting \<Rightarrow> string list" where
  "counting_cells ratio c =
     [itoa (ct_ok c), itoa (ct_fail c), itoa (ct_reject c), itoa (ct_errs c), itoa (ct_unknown c),
      ratio (ct_reject c) (ct_ok c + ct_fail c + ct_reject c + ct_unknown c)]"

definition client_row :: "(64 word \<Rightarrow> 64 word \<Rightarrow> string) \<Rightarrow> nat \<times> counting \<times> counting \<Rightarrow> string" where
  "client_row ratio = (\<lambda>(seconds, g, h). join '','' (nat_digits seconds # counting_cells ratio g @ counting_cells ratio h))"

definition simulation_row :: "(32 word \<Rightarrow> string) \<Rightarrow> sim_row \<Rightarrow> string" where
  "simulation_row state_text = (\<lambda>(seconds, state, gcalls, ncalls). join '','' [nat_digits seconds, state_text state, itoa gcalls, itoa ncalls])"

definition load_row :: "('f \<Rightarrow> string) \<Rightarrow> 'f csv_row \<Rightarrow> string" where
  "load_row avg = (\<lambda>(idx, flight, v, af, lf, bf).
     join '','' [(if sint idx < 0 then CHR ''-'' # nat_digits (nat (- sint idx)) else nat_digits (nat (sint idx))), itoa flight,
       nat_digits (unat v), avg af, avg lf, avg bf])"

text \<open>Every row has as many cells as its header, as long as the numbers are printed without commas.\<close>

definition cell :: "string \<Rightarrow> bool" where "cell s \<longleftrightarrow> CHR '','' \<notin> set s"

lemma nat_digits_cell: "cell (nat_digits n)"
proof (induction n rule: less_induct)
  case (less n)
  have d: "char_of (48 + k :: nat) \<noteq> CHR '',''" if "k < 10" for k
  proof
    assume "char_of (48 + k) = CHR '',''"
    then have "(of_char (char_of (48 + k :: nat)) :: nat) = of_char (CHR '','')" by simp
    then show False using that by simp
  qed
  show ?case
  proof (cases "n < 10")
    case True
    then show ?thesis using d [of n] by (simp add: cell_def nat_digits.simps [of n])
  next
    case False
    then show ?thesis using less [of "n div 10"] d [of "n mod 10"]
      by (subst nat_digits.simps) (auto simp: cell_def simp del: nat_digits.simps)
  qed
qed

lemma itoa_cell: "cell (itoa w)"
  using nat_digits_cell by (auto simp: itoa_def cell_def simp del: nat_digits.simps)

lemma row_cells: "xs \<noteq> [] \<Longrightarrow> list_all cell xs \<Longrightarrow> split_on (CHR '','') (join '','' xs) = xs"
  by (rule split_on_join) (auto simp: cell_def list_all_iff)

lemma header_cells:
  "length (split_on (CHR '','') client_header) = 13" "length (split_on (CHR '','') simulation_header) = 4"
  "length (split_on (CHR '','') load_header) = 6"
  by code_simp+

lemma result_rows_fit:
  assumes "\<And>a b. cell (ratio a b)" "\<And>s. cell (state_text s)" "\<And>x. cell (avg x)"
  shows "length (split_on (CHR '','') (client_row ratio r)) = length (split_on (CHR '','') client_header)"
    "length (split_on (CHR '','') (simulation_row state_text r')) = length (split_on (CHR '','') simulation_header)"
    "length (split_on (CHR '','') (load_row avg r'')) = length (split_on (CHR '','') load_header)"
proof -
  have neg: "cell (CHR ''-'' # nat_digits n)" for n using nat_digits_cell [of n] by (simp add: cell_def del: nat_digits.simps)
  obtain n g h where r: "r = (n, g, h)" by (cases r)
  show "length (split_on (CHR '','') (client_row ratio r)) = length (split_on (CHR '','') client_header)"
    unfolding header_cells r client_row_def counting_cells_def prod.case
    by (subst row_cells) (simp_all add: assms(1) nat_digits_cell itoa_cell del: nat_digits.simps)
  obtain n st gc nc where r': "r' = (n, st, gc, nc)" by (cases r')
  show "length (split_on (CHR '','') (simulation_row state_text r')) = length (split_on (CHR '','') simulation_header)"
    unfolding header_cells r' simulation_row_def prod.case
    by (subst row_cells) (simp_all add: assms(2) nat_digits_cell itoa_cell del: nat_digits.simps)
  obtain i fl v af lf bf where r'': "r'' = (i, fl, v, af, lf, bf)" by (cases r'')
  show "length (split_on (CHR '','') (load_row avg r'')) = length (split_on (CHR '','') load_header)"
    unfolding header_cells r'' load_row_def prod.case
    by (subst row_cells) (simp_all add: assms(3) nat_digits_cell itoa_cell neg del: nat_digits.simps)
qed

section \<open>The breaker client, the simulation and the load generator\<close>

text \<open>
  The request loops tick every \<^verbatim>\<open>time.Second / freq\<close> nanoseconds: a frequency of zero divides by zero and one that is negative or beyond
  a nanosecond's makes \<^verbatim>\<open>NewTicker\<close> panic; \<^verbatim>\<open>RunSafe\<close> recovers both panics and the loop is over.
\<close>

definition loop_runs :: "int \<Rightarrow> bool" where "loop_runs freq \<longleftrightarrow> 0 < freq \<and> freq \<le> 1000000000"

definition breaker_client_main :: "int \<Rightarrow> nat result \<Rightarrow> fs \<Rightarrow> (fs \<times> client_proc) result" where
  "breaker_client_main freq duration f =
     (case create_result client_header f of
        Inl err \<Rightarrow> Inl err
      | Inr f \<Rightarrow>
          (case duration of
             Inl err \<Rightarrow> Inl err
           | Inr dur \<Rightarrow> Inr (f, client_start\<lparr>cp_looping := (\<lambda>_. loop_runs freq)\<rparr>)))"

definition breaker_simulation_main :: "fs \<Rightarrow> (fs \<times> sim_proc) result" where
  "breaker_simulation_main f =
     (case create_result simulation_header f of Inl err \<Rightarrow> Inl err | Inr f \<Rightarrow> Inr (f, breaker_start))"

text \<open>The executor that thins the rows has a threshold of four seconds, \<^verbatim>\<open>interval * total / 100\<close>, in nanoseconds.\<close>

definition load_threshold :: int where "load_threshold = tick_interval * 400 div 100"

definition load_generator_main :: "'f floats \<Rightarrow> 'w \<Rightarrow> 'w \<Rightarrow> fs \<Rightarrow> (fs \<times> ('f, 'w) generator) result" where
  "load_generator_main F pass rt f =
     (case create_result load_header f of Inl err \<Rightarrow> Inl err | Inr f \<Rightarrow> Inr (f, gen_start F pass rt))"

lemma client_inv_main: "client_inv (client_start\<lparr>cp_looping := l\<rparr>)"
  by (simp add: client_inv_def client_start_def columns_def rows_numbered_def)

text \<open>A client started with a bad frequency runs its whole duration without a single request.\<close>

lemma idle_client:
  assumes "client_step\<^sup>*\<^sup>* (client_start\<lparr>cp_looping := (\<lambda>_. False)\<rparr>) t"
  shows "\<forall>e. \<not> cp_looping t e \<and> cp_issued t e = 0 \<and> cp_flight t e = 0"
  using assms
proof (induction rule: rtranclp_induct)
  case base
  then show ?case by (simp add: client_start_def)
next
  case (step s t)
  from step(2) step(3) show ?case
    by (elim client_stepE) (auto simp: issue_def answer_def report_turn_def split: report_at.splits prod.splits)
qed

lemma breaker_client_started:
  assumes "breaker_client_main freq duration f = Inr (f', s)" "client_step\<^sup>*\<^sup>* s t"
  shows "client_inv t \<and> (\<not> loop_runs freq \<longrightarrow> (\<forall>e. cp_issued t e = 0))"
proof -
  have s: "s = client_start\<lparr>cp_looping := (\<lambda>_. loop_runs freq)\<rparr>"
    using assms(1) by (auto simp: breaker_client_main_def split: sum.splits)
  have "client_inv t" using breaker_clients.inv_steps [OF assms(2)] client_inv_main s by blast
  moreover have "\<forall>e. cp_issued t e = 0" if "\<not> loop_runs freq" using idle_client [of t] assms(2) that unfolding s by simp
  ultimately show ?thesis by blast
qed

section \<open>The limiter clients\<close>

text \<open>The store is opened with an address and a password; whether it answers is printed, and the workers start either way.\<close>

record 'st redis_lib =
  redis_New :: "string \<Rightarrow> string \<Rightarrow> 'st"
  redis_Ping :: "'st \<Rightarrow> bool"

definition ping_line :: "'st redis_lib \<Rightarrow> 'st \<Rightarrow> string" where
  "ping_line R store = (if redis_Ping R store then ''true'' else ''false'')"

definition period_main ::
  "'st redis_lib \<Rightarrow> (nat \<Rightarrow> nat \<Rightarrow> 'st \<Rightarrow> string \<Rightarrow> 'l) \<Rightarrow> string \<Rightarrow> string \<Rightarrow> string \<Rightarrow> string list \<times> 'l limiting worker_group" where
  "period_main R NewPeriodLimit rdx rdxPass rdxKey =
     (let store = redis_New R rdx rdxPass in ([ping_line R store], limiter_start (NewPeriodLimit 5 5 store rdxKey)))"

definition token_main ::
  "'st redis_lib \<Rightarrow> (nat \<Rightarrow> nat \<Rightarrow> 'st \<Rightarrow> string \<Rightarrow> 'l) \<Rightarrow> string \<Rightarrow> string \<Rightarrow> string \<Rightarrow> string list \<times> 'l limiting worker_group" where
  "token_main R NewTokenLimiter rdx rdxPass rdxKey =
     (let store = redis_New R rdx rdxPass in ([ping_line R store], limiter_start (NewTokenLimiter 100 100 store rdxKey)))"

text \<open>A started client that cannot go on has ended, whatever its limiter does and whether or not the store answered the ping.\<close>

lemma limiter_main_ends:
  assumes "(lines, s) \<in> {period_main R NewPeriodLimit rdx pass key, token_main R NewTokenLimiter rdx pass key}"
    and "(group_step work threads)\<^sup>*\<^sup>* s t" "gr_quit t" "\<nexists>u. group_step work threads t u"
  shows "ended (gr_main t)"
proof -
  obtain l where "s = limiter_start l" using assms(1) by (auto simp: period_main_def token_main_def Let_def)
  then have i: "group_inv threads t" using workers.inv_reachable [of s work threads t] assms(2) by (auto simp: limiter_start_def)
  show ?thesis using group_progress [OF i _ assms(3)] assms(4) i by (auto simp: group_alive_def group_inv_def)
qed

section \<open>The service group\<close>

definition Morning_Stop :: string where "Morning_Stop = ''Stop morning service...''"

definition Evening_Stop :: string where "Evening_Stop = ''Stop evening service...''"

datatype group_service = Morning | Evening

fun service_Start :: "group_service \<Rightarrow> mux_state \<Rightarrow> mux_state option" where
  "service_Start Morning = Morning_Start"
| "service_Start Evening = Evening_Start"

fun service_Stop :: "group_service \<Rightarrow> string" where
  "service_Stop Morning = Morning_Stop"
| "service_Stop Evening = Evening_Stop"

text \<open>
  The two services are added to the group; the library starts all of them, each in a goroutine, and at the end stops all
  of them. \<open>started\<close> and \<open>stopped\<close> are the orders it does so in.
\<close>

definition group_services :: "group_service list" where "group_services = [Morning, Evening]"

fun start_all :: "group_service list \<Rightarrow> mux_state \<Rightarrow> mux_state option" where
  "start_all [] s = Some s"
| "start_all (x # xs) s = Option.bind (service_Start x s) (start_all xs)"

lemma start_all_one [simp]: "start_all [x] = service_Start x"
  by (rule ext) (simp add: bind_eq_Some_conv split: bind_splits)

definition servicegroup_main :: "group_service list \<Rightarrow> group_service list \<Rightarrow> (mux_state \<times> string list) option" where
  "servicegroup_main started stopped =
     map_option (\<lambda>s. (s, map service_Stop stopped)) (start_all started \<lparr>mux = [], listening = []\<rparr>)"

lemma two_orders: "mset xs = mset group_services \<Longrightarrow> xs = [Morning, Evening] \<or> xs = [Evening, Morning]"
proof -
  assume m: "mset xs = mset group_services"
  then have "length xs = 2" by (metis group_services_def length_Cons list.size(3) numeral_2_eq_2 size_mset)
  then obtain a b where "xs = [a, b]" by (auto simp: numeral_2_eq_2 length_Suc_conv)
  with m show ?thesis by (cases a; cases b) (auto simp: group_services_def add_mset_eq_single add_eq_conv_ex)
qed

text \<open>Whatever the orders: both services come up without a clash of paths, each port answers both paths, and both stops are announced.\<close>

lemma servicegroup_runs:
  assumes "mset started = mset group_services" "mset stopped = mset group_services"
  shows "\<exists>s ls. servicegroup_main started stopped = Some (s, ls) \<and> set ls = {Morning_Stop, Evening_Stop} \<and>
    (\<forall>addr \<in> {''localhost:8080'', ''localhost:8081''}.
       group_answer s addr ''/morning'' = Some morning \<and> group_answer s addr ''/evening'' = Some evening)"
proof -
  have ls: "set (map service_Stop stopped) = {Morning_Stop, Evening_Stop}" using two_orders [OF assms(2)] by auto
  have "start_all started = (\<lambda>s. Option.bind (Morning_Start s) Evening_Start) \<or>
      start_all started = (\<lambda>s. Option.bind (Evening_Start s) Morning_Start)"
    using two_orders [OF assms(1)] by (auto simp: fun_eq_iff)
  then have "start_all started \<in> {\<lambda>s. Option.bind (Morning_Start s) Evening_Start, \<lambda>s. Option.bind (Evening_Start s) Morning_Start}" by blast
  from group_shares_mux [OF this] obtain s where "start_all started \<lparr>mux = [], listening = []\<rparr> = Some s"
      "\<forall>addr \<in> {''localhost:8080'', ''localhost:8081''}.
         group_answer s addr ''/morning'' = Some morning \<and> group_answer s addr ''/evening'' = Some evening"
    by blast
  with ls show ?thesis by (simp add: servicegroup_main_def)
qed

section \<open>The overloaded server\<close>

record breaker_conf = engine_conf +
  br_Name :: string
  br_MaxConns :: int

definition heavy_main :: "'l latch_lib \<Rightarrow> breaker_conf \<times> 'l heavy_server \<times> (string \<times> string \<times> heavy_event) list" where
  "heavy_main L =
     (\<lparr>ec_Host = ''0.0.0.0'', ec_Port = 8080, ec_Timeout = 3000, ec_CpuThreshold = 0, br_Name = ''breaker'', br_MaxConns = 1000\<rparr>,
      heavy_start L, [(''GET'', ''/heavy'', HeavyArrives), (''GET'', ''/good'', GoodArrives)])"

text \<open>The client's two addresses are served: each is a route of the server on its port, so a request of either loop is one of the server's events.\<close>

definition client_urls :: "endpoint \<Rightarrow> string" where
  "client_urls e = (case e of Heavy \<Rightarrow> ''http://localhost:8080/heavy'' | Good \<Rightarrow> ''http://localhost:8080/good'')"

lemma client_urls_served:
  "\<exists>path ev. (''GET'', path, ev) \<in> set (snd (snd (heavy_main L))) \<and> client_urls e = ''http://localhost:8080'' @ path \<and>
     ec_Port (fst (heavy_main L)) = 8080 \<and> ev = (case e of Heavy \<Rightarrow> HeavyArrives | Good \<Rightarrow> GoodArrives)"
  by (cases e) (simp_all add: heavy_main_def client_urls_def)

section \<open>Busy goroutines\<close>

text \<open>
  The job of the simulated server: a goroutine for each CPU looks at the channel again and again, until it is closed after the
  duration. \<open>Some n\<close> in \<open>sj_closer\<close> is what the handler's goroutine still has to do: start \<open>n\<close> goroutines, then sleep and close.
\<close>

record spin_job =
  sj_closer :: "nat option"
  sj_spinning :: nat
  sj_done :: bool

definition spin_start :: "nat \<Rightarrow> spin_job" where
  "spin_start ncpu = \<lparr>sj_closer = Some ncpu, sj_spinning = 0, sj_done = False\<rparr>"

inductive spin_step :: "spin_job \<Rightarrow> spin_job \<Rightarrow> bool" where
  launch: "sj_closer s = Some (Suc n) \<Longrightarrow> spin_step s (s\<lparr>sj_closer := Some n, sj_spinning := Suc (sj_spinning s)\<rparr>)"
| close: "sj_closer s = Some 0 \<Longrightarrow> spin_step s (s\<lparr>sj_closer := None, sj_done := True\<rparr>)"
| look: "0 < sj_spinning s \<Longrightarrow> \<not> sj_done s \<Longrightarrow> spin_step s s"
| leave: "0 < sj_spinning s \<Longrightarrow> sj_done s \<Longrightarrow> spin_step s (s\<lparr>sj_spinning := sj_spinning s - 1\<rparr>)"

definition spin_inv :: "nat \<Rightarrow> spin_job \<Rightarrow> bool" where
  "spin_inv ncpu s \<longleftrightarrow> sj_spinning s \<le> ncpu \<and> (case sj_closer s of Some n \<Rightarrow> sj_spinning s + n = ncpu \<and> \<not> sj_done s | None \<Rightarrow> sj_done s)"

interpretation spinners: bounded_machine "\<lambda>s. s = spin_start ncpu" spin_step "spin_inv ncpu" sj_done sj_spinning for ncpu
proof unfold_locales
  show "s = spin_start ncpu \<Longrightarrow> spin_inv ncpu s" for s by (simp add: spin_start_def spin_inv_def)
  show "spin_inv ncpu s \<Longrightarrow> spin_step s t \<Longrightarrow> spin_inv ncpu t" for s t by (erule spin_step.cases) (auto simp: spin_inv_def split: option.splits)
  show "spin_inv ncpu s \<Longrightarrow> sj_done s \<Longrightarrow> spin_step s t \<Longrightarrow> sj_spinning t < sj_spinning s \<and> sj_done t" for s t
    by (erule spin_step.cases) (auto simp: spin_inv_def)
qed

text \<open>The goroutines never outnumber the CPUs, and once the handler has closed the channel all of them end.\<close>

lemma spinners_end:
  assumes "spin_step\<^sup>*\<^sup>* (spin_start ncpu) s"
  shows "sj_spinning s \<le> ncpu \<and> (sj_closer s = None \<longrightarrow> (\<exists>t. spin_step\<^sup>*\<^sup>* s t \<and> sj_spinning t = 0))"
proof -
  have i: "spin_inv ncpu s" using spinners.inv_reachable [OF refl assms] .
  have "\<exists>t. spin_step\<^sup>*\<^sup>* s t \<and> sj_spinning t = 0" if "sj_closer s = None"
  proof (rule spinners.run_ends [where ncpu = ncpu])
    show "spin_inv ncpu u \<Longrightarrow> sj_done u \<Longrightarrow> sj_spinning u \<noteq> 0 \<Longrightarrow> \<exists>t. spin_step u t" for u using spin_step.leave [of u] by blast
    show "spin_inv ncpu s" "sj_done s" using i that by (simp_all add: spin_inv_def)
  qed
  with i show ?thesis by (simp add: spin_inv_def)
qed

text \<open>The CPU statistics: ten more goroutines than CPUs, and a line for each reading.\<close>

definition stat_goroutines :: "nat \<Rightarrow> nat" where "stat_goroutines ncpu = ncpu + 10"

definition stat_main :: "nat \<Rightarrow> (nat \<Rightarrow> int) \<Rightarrow> nat \<Rightarrow> string list" where
  "stat_main ncpu CpuUsage k =
     nat_digits ncpu # map (\<lambda>t. ''cpu: '' @ itoa (word_of_int (CpuUsage t))) [0..<k]"

end
