(* ===== verification/Http_Mains.thy ===== *)
theory Http_Mains
  imports Http_Examples Service_Mains
begin

text \<open>
  The layers between the handlers and the programs of the token, timeout and file services: request types, logic objects with
  the context and service context they are made from, and the mains of \<^verbatim>\<open>http/jwt\<close>, \<^verbatim>\<open>http/timeout\<close> and \<^verbatim>\<open>gateway\<close>. The
  lemmas show that a handler that builds its logic object from the service context does what the handlers of
  \<open>Http_Examples\<close> and \<open>File_Server\<close> do with the configuration's values.
\<close>

section \<open>Logic objects\<close>

text \<open>The generated logic structs: a request's context and the service context (the logger is made from the context).\<close>

record ('c, 's) api_logic =
  al_ctx :: 'c
  al_svcCtx :: 's

section \<open>The token service\<close>

record jwt_api_Config = RestConf +
  jc_JwtAuth :: jwt_config

record jwt_ServiceContext = js_Config :: jwt_api_Config

definition jwt_NewServiceContext :: "jwt_api_Config \<Rightarrow> jwt_ServiceContext" where
  "jwt_NewServiceContext c = \<lparr>js_Config = c\<rparr>"

record GetUserRequest = gu_UserId :: string

record GetUserResponse = gu_Name :: string

definition NewJwtLogic :: "'c \<Rightarrow> jwt_ServiceContext \<Rightarrow> ('c, jwt_ServiceContext) api_logic" where
  "NewJwtLogic ctx svcCtx = \<lparr>al_ctx = ctx, al_svcCtx = svcCtx\<rparr>"

definition NewGetUserLogic :: "'c \<Rightarrow> jwt_ServiceContext \<Rightarrow> ('c, jwt_ServiceContext) api_logic" where
  "NewGetUserLogic ctx svcCtx = \<lparr>al_ctx = ctx, al_svcCtx = svcCtx\<rparr>"

definition JwtLogic_Jwt :: "'q jwt_lib \<Rightarrow> ('c, jwt_ServiceContext) api_logic \<Rightarrow> 64 word \<Rightarrow> JwtTokenResponse result" where
  "JwtLogic_Jwt X l now = Jwt X (jc_JwtAuth (js_Config (al_svcCtx l))) now"

definition GetUserLogic_GetUser :: "('c, jwt_ServiceContext) api_logic \<Rightarrow> GetUserRequest \<Rightarrow> GetUserResponse result" where
  "GetUserLogic_GetUser l req = map_sum id (\<lambda>n. \<lparr>gu_Name = n\<rparr>) (GetUser (gu_UserId req))"

definition jwt_api_handler :: "'q jwt_lib \<Rightarrow> jwt_ServiceContext \<Rightarrow> ('q, 'c) http_lib \<Rightarrow> ('q \<Rightarrow> 'c) \<Rightarrow> 64 word \<Rightarrow> 'q handler_func" where
  "jwt_api_handler X ctx H context now r =
     (case Parse H r [] of
        Inl err \<Rightarrow> at_once [HttpError err]
      | Inr vs \<Rightarrow>
          (case JwtLogic_Jwt X (NewJwtLogic (context r) ctx) now of
             Inl err \<Rightarrow> at_once [HttpError err]
           | Inr resp \<Rightarrow> at_once [HttpJson 200 [(''access_token'', False, JStr (jr_AccessToken resp)),
               (''access_expire'', False, JInt (jr_AccessExpire resp)), (''refresh_after'', False, JInt (jr_RefreshAfter resp))]]))"

definition getuser_api_handler :: "jwt_ServiceContext \<Rightarrow> ('q, 'c) http_lib \<Rightarrow> ('q \<Rightarrow> 'c) \<Rightarrow> 'q handler_func" where
  "getuser_api_handler ctx H context r =
     (case Parse H r [(JsonField, ''userId'', JStr [])] of
        Inl err \<Rightarrow> at_once [HttpError err]
      | Inr vs \<Rightarrow>
          (case GetUserLogic_GetUser (NewGetUserLogic (context r) ctx) \<lparr>gu_UserId = field_str 0 vs\<rparr> of
             Inl err \<Rightarrow> at_once [HttpError err]
           | Inr resp \<Rightarrow> at_once [HttpJson 200 [(''name'', False, JStr (gu_Name resp))]]))"

text \<open>The layers add nothing: with the service context of a configuration the handlers are those of its secret and expiry.\<close>

lemma jwt_layers:
  "jwt_api_handler X (jwt_NewServiceContext c) H context now = JwtHandler X (jc_JwtAuth c) H now"
  "getuser_api_handler (jwt_NewServiceContext c) H context = GetUserHandler H"
  by (simp_all add: fun_eq_iff jwt_api_handler_def JwtHandler_def JwtLogic_Jwt_def NewJwtLogic_def jwt_NewServiceContext_def
      getuser_api_handler_def GetUserHandler_def GetUserLogic_GetUser_def GetUser_def split: sum.splits)

text \<open>A started server: what it listens on, how it answers at a time, and its line.\<close>

record 'q http_started =
  st_conf :: RestConf
  st_server :: "64 word \<Rightarrow> 'q http_server"
  st_lines :: "string list"

definition jwt_main ::
  "(string \<Rightarrow> jwt_api_Config result) \<Rightarrow> (RestConf \<Rightarrow> unit result) \<Rightarrow> nat \<Rightarrow> 'q jwt_lib \<Rightarrow> ('q, 'c) http_lib \<Rightarrow> ('q \<Rightarrow> 'c) \<Rightarrow>
   string \<Rightarrow> 'q http_started result" where
  "jwt_main MustLoad MustNewServer confTimeout X H context configFile =
     and_then (MustLoad configFile) (\<lambda>c.
       let ctx = jwt_NewServiceContext c
       in and_then (MustNewServer (RestConf.truncate c)) (\<lambda>_.
          and_then (WithJwt X (AccessSecret (jc_JwtAuth (js_Config ctx)))) (\<lambda>authorized.
            Inr \<lparr>st_conf = RestConf.truncate c,
              st_server = (\<lambda>now. \<lparr>hs_use = [],
                hs_routes = [post ''/user/token'' (jwt_api_handler X ctx H context now)] @
                  [post ''/user/info'' (authorized now (getuser_api_handler ctx H context))],
                hs_notFound = not_found, hs_timeout = confTimeout, hs_cors = False\<rparr>),
              st_lines = [starting_http (RestConf.truncate c)]\<rparr>)))"

lemma jwt_started:
  assumes "jwt_main MustLoad MustNewServer confTimeout X H context f = Inr p"
  shows "\<exists>c. MustLoad f = Inr c \<and> st_conf p = RestConf.truncate c \<and>
    jwt_server confTimeout X (jc_JwtAuth c) H = Inr (st_server p)"
proof -
  obtain c au where c: "MustLoad f = Inr c" "WithJwt X (AccessSecret (jc_JwtAuth c)) = Inr au" "st_conf p = RestConf.truncate c"
    "st_server p = (\<lambda>now. \<lparr>hs_use = [],
                hs_routes = [post ''/user/token'' (jwt_api_handler X (jwt_NewServiceContext c) H context now)] @
                  [post ''/user/info'' (au now (getuser_api_handler (jwt_NewServiceContext c) H context))],
                hs_notFound = not_found, hs_timeout = confTimeout, hs_cors = False\<rparr>)"
    using assms by (auto simp: jwt_main_def and_then_ok Let_def jwt_NewServiceContext_def)
  then show ?thesis by (simp add: jwt_server_def jwt_routes_def jwt_layers)
qed

section \<open>The timeout service\<close>

record timeout_ServiceContext = ts_Config :: RestConf

definition timeout_NewServiceContext :: "RestConf \<Rightarrow> timeout_ServiceContext" where
  "timeout_NewServiceContext c = \<lparr>ts_Config = c\<rparr>"

record SlowRequest = sl_Name :: string
record FastRequest = fa_Name :: string

definition NewSlowLogic :: "'c \<Rightarrow> timeout_ServiceContext \<Rightarrow> ('c, timeout_ServiceContext) api_logic" where
  "NewSlowLogic ctx svcCtx = \<lparr>al_ctx = ctx, al_svcCtx = svcCtx\<rparr>"

definition NewFastLogic :: "'c \<Rightarrow> timeout_ServiceContext \<Rightarrow> ('c, timeout_ServiceContext) api_logic" where
  "NewFastLogic ctx svcCtx = \<lparr>al_ctx = ctx, al_svcCtx = svcCtx\<rparr>"

definition SlowLogic_Slow :: "('c, timeout_ServiceContext) api_logic \<Rightarrow> SlowRequest \<Rightarrow> nat \<times> go_error option" where
  "SlowLogic_Slow l req = Slow (sl_Name req)"

definition FastLogic_Fast :: "('c, timeout_ServiceContext) api_logic \<Rightarrow> FastRequest \<Rightarrow> nat \<times> go_error option" where
  "FastLogic_Fast l req = Fast (fa_Name req)"

definition slow_api_handler :: "timeout_ServiceContext \<Rightarrow> ('q, 'c) http_lib \<Rightarrow> ('q \<Rightarrow> 'c) \<Rightarrow> 'q handler_func" where
  "slow_api_handler svcCtx H context r =
     (case Parse H r [(PathField, ''name'', JStr [])] of
        Inl err \<Rightarrow> at_once [HttpError err]
      | Inr vs \<Rightarrow>
          (case SlowLogic_Slow (NewSlowLogic (context r) svcCtx) \<lparr>sl_Name = field_str 0 vs\<rparr> of
             (d, Some err) \<Rightarrow> (d, [HttpError err]) | (d, None) \<Rightarrow> (d, [HttpStatus 200])))"

definition fast_api_handler :: "timeout_ServiceContext \<Rightarrow> ('q, 'c) http_lib \<Rightarrow> ('q \<Rightarrow> 'c) \<Rightarrow> 'q handler_func" where
  "fast_api_handler svcCtx H context r =
     (case Parse H r [(PathField, ''name'', JStr [])] of
        Inl err \<Rightarrow> at_once [HttpError err]
      | Inr vs \<Rightarrow>
          (case FastLogic_Fast (NewFastLogic (context r) svcCtx) \<lparr>fa_Name = field_str 0 vs\<rparr> of
             (d, Some err) \<Rightarrow> (d, [HttpError err]) | (d, None) \<Rightarrow> (d, [HttpStatus 200])))"

lemma timeout_layers: "slow_api_handler ctx H context = SlowHandler H" "fast_api_handler ctx H context = FastHandler H"
  by (simp_all add: fun_eq_iff slow_api_handler_def SlowHandler_def SlowLogic_Slow_def
      fast_api_handler_def FastHandler_def FastLogic_Fast_def split: sum.splits)

definition timeout_main ::
  "(string \<Rightarrow> RestConf result) \<Rightarrow> (RestConf \<Rightarrow> unit result) \<Rightarrow> nat \<Rightarrow> ('q, 'c) http_lib \<Rightarrow> ('q \<Rightarrow> 'c) \<Rightarrow> string \<Rightarrow> 'q http_started result" where
  "timeout_main MustLoad MustNewServer confTimeout H context configFile =
     and_then (MustLoad configFile) (\<lambda>c.
       let ctx = timeout_NewServiceContext c
       in and_then (MustNewServer c) (\<lambda>_.
            Inr \<lparr>st_conf = c,
              st_server = (\<lambda>_. \<lparr>hs_use = [],
                hs_routes = with_timeout 5000 [get ''/slow/:name'' (slow_api_handler ctx H context)] @ [get ''/fast/:name'' (fast_api_handler ctx H context)],
                hs_notFound = not_found, hs_timeout = confTimeout, hs_cors = False\<rparr>),
              st_lines = [starting_http c]\<rparr>))"

lemma timeout_started:
  "timeout_main MustLoad MustNewServer confTimeout H context f = Inr p \<Longrightarrow> st_server p now = timeout_server confTimeout H"
  by (auto simp: timeout_main_def and_then_ok Let_def timeout_server_def timeout_routes_def timeout_layers)

section \<open>The file services\<close>

record upload_Response = ur_OK :: int
record mono_UploadResponse = mu_Code :: int
record download_Request = dr_File :: string
record mono_DownloadRequest = md_File :: string

definition NewUploadLogic :: "'c \<Rightarrow> upload_ServiceContext \<Rightarrow> ('c, upload_ServiceContext) api_logic" where
  "NewUploadLogic ctx svcCtx = \<lparr>al_ctx = ctx, al_svcCtx = svcCtx\<rparr>"

definition UploadLogic_Upload ::
  "('c, upload_ServiceContext) api_logic \<Rightarrow> 'q file_request \<Rightarrow> fs logged \<Rightarrow> fs logged \<times> upload_Response result" where
  "UploadLogic_Upload l r w =
     (case upload_Upload (up_Path (us_Config (al_svcCtx l))) r w of
        (w, Inl err) \<Rightarrow> (w, Inl err) | (w, Inr n) \<Rightarrow> (w, Inr \<lparr>ur_OK = n\<rparr>))"

definition upload_api_handler :: "upload_ServiceContext \<Rightarrow> ('q file_request \<Rightarrow> 'c) \<Rightarrow> 'q file_request \<Rightarrow> fs logged \<Rightarrow> fs logged \<times> http_write list" where
  "upload_api_handler ctx context r w =
     (case UploadLogic_Upload (NewUploadLogic (context r) ctx) r w of
        (w, Inl err) \<Rightarrow> (w, [HttpError err])
      | (w, Inr resp) \<Rightarrow> (w, [HttpJson 200 [(''ok'', False, JInt (word_of_int (ur_OK resp)))]]))"

text \<open>The monolithic server's upload logic keeps the request; its context field is never set.\<close>

record 'q mono_upload_logic =
  ml_r :: "'q file_request"
  ml_svcCtx :: mono_ServiceContext

definition mono_NewUploadLogic :: "'q file_request \<Rightarrow> mono_ServiceContext \<Rightarrow> 'q mono_upload_logic" where
  "mono_NewUploadLogic r svcCtx = \<lparr>ml_r = r, ml_svcCtx = svcCtx\<rparr>"

definition mono_UploadLogic_Upload :: "'q mono_upload_logic \<Rightarrow> fs logged \<Rightarrow> fs logged \<times> mono_UploadResponse result" where
  "mono_UploadLogic_Upload l w =
     (case mono_Upload (mo_Path (ms_Config (ml_svcCtx l))) (ml_r l) w of
        (w, Inl err) \<Rightarrow> (w, Inl err) | (w, Inr n) \<Rightarrow> (w, Inr \<lparr>mu_Code = n\<rparr>))"

definition mono_upload_api_handler :: "mono_ServiceContext \<Rightarrow> 'q file_request \<Rightarrow> fs logged \<Rightarrow> fs logged \<times> http_write list" where
  "mono_upload_api_handler ctx r w =
     (case mono_UploadLogic_Upload (mono_NewUploadLogic r ctx) w of
        (w, Inl err) \<Rightarrow> (w, [HttpError err])
      | (w, Inr resp) \<Rightarrow> (w, [HttpJson 200 [(''code'', False, JInt (word_of_int (mu_Code resp)))]]))"

text \<open>The download logic keeps the writer of the response, here the request's connection.\<close>

record ('c, 'q) mono_download_logic =
  dl_ctx :: 'c
  dl_svcCtx :: mono_ServiceContext
  dl_writer :: "'q file_request"

definition mono_NewDownloadLogic :: "'c \<Rightarrow> mono_ServiceContext \<Rightarrow> 'q file_request \<Rightarrow> ('c, 'q) mono_download_logic" where
  "mono_NewDownloadLogic ctx svcCtx writer = \<lparr>dl_ctx = ctx, dl_svcCtx = svcCtx, dl_writer = writer\<rparr>"

definition mono_DownloadLogic_Download ::
  "('c, 'q) mono_download_logic \<Rightarrow> mono_DownloadRequest \<Rightarrow> fs logged \<Rightarrow> fs logged \<times> http_write list \<times> go_error option" where
  "mono_DownloadLogic_Download l req w = mono_Download (dl_writer l) (md_File req) w"

definition mono_download_api_handler ::
  "mono_ServiceContext \<Rightarrow> ('q, 'c) http_lib \<Rightarrow> ('q file_request \<Rightarrow> 'c) \<Rightarrow> 'q file_request \<Rightarrow> fs logged \<Rightarrow> fs logged \<times> http_write list" where
  "mono_download_api_handler ctx H context r w =
     (case Parse H (rq_http r) [(PathField, ''file'', JStr [])] of
        Inl err \<Rightarrow> (w, [HttpError err])
      | Inr vs \<Rightarrow>
          (case mono_DownloadLogic_Download (mono_NewDownloadLogic (context r) ctx r) \<lparr>md_File = field_str 0 vs\<rparr> w of
             (w, out, Some err) \<Rightarrow> (w, out @ [HttpError err])
           | (w, out, None) \<Rightarrow> (w, out @ [HttpStatus 200])))"

lemma file_layers:
  "upload_api_handler (upload_NewServiceContext uc) context = upload_UploadHandler (up_Path uc)"
  "mono_upload_api_handler (mono_NewServiceContext mc) = mono_UploadHandler (mo_Path mc)"
  "mono_download_api_handler ctx H context = mono_DownloadHandler H"
  by (simp_all add: fun_eq_iff upload_api_handler_def upload_UploadHandler_def UploadLogic_Upload_def NewUploadLogic_def
      upload_NewServiceContext_def mono_upload_api_handler_def mono_UploadHandler_def mono_UploadLogic_Upload_def mono_NewUploadLogic_def
      mono_NewServiceContext_def mono_download_api_handler_def mono_DownloadHandler_def mono_DownloadLogic_Download_def
      mono_NewDownloadLogic_def split: sum.splits prod.splits)

text \<open>So the routes of the started file programs are those that go through the layers.\<close>

lemma file_mains_layered:
  "upload_main MustLoad MustNewServer f = Inr p \<Longrightarrow> \<exists>c. MustLoad f = Inr c \<and>
     hp_routes p = [\<lparr>Method = ''POST'', Path = ''/upload'', Handler = upload_api_handler (upload_NewServiceContext c) context\<rparr>]"
  "mono_main MustLoad' MustNewServer' H f' = Inr p' \<Longrightarrow> \<exists>c. MustLoad' f' = Inr c \<and>
     hp_routes p' = [\<lparr>Method = ''GET'', Path = ''/static/:file'', Handler = mono_download_api_handler (mono_NewServiceContext c) H context'\<rparr>,
       \<lparr>Method = ''POST'', Path = ''/upload'', Handler = mono_upload_api_handler (mono_NewServiceContext c)\<rparr>]"
  by (auto simp: upload_main_def mono_main_def and_then_ok Let_def file_layers upload_routes_def mono_routes_def
      upload_NewServiceContext_def [symmetric] mono_NewServiceContext_def [symmetric])
    (simp_all add: upload_NewServiceContext_def mono_NewServiceContext_def)

section \<open>The gateway\<close>

text \<open>The RPC service's context, and the gateway's main: the library serves what the configuration file maps.\<close>

record hello_ServiceContext = hs_Config :: RpcServerConf

definition hello_NewServiceContext :: "RpcServerConf \<Rightarrow> hello_ServiceContext" where
  "hello_NewServiceContext c = \<lparr>hs_Config = c\<rparr>"

definition gateway_main :: "(string \<Rightarrow> 'g result) \<Rightarrow> ('g \<Rightarrow> 'gw result) \<Rightarrow> string \<Rightarrow> 'gw result" where
  "gateway_main MustLoad MustNewServer configFile = and_then (MustLoad configFile) (\<lambda>c. and_then (MustNewServer c) (\<lambda>gw. Inr gw))"

end
