(* ===== verification/Library_Demos.thy ===== *)
theory Library_Demos
  imports Small_Programs Log_Demos "HOL-Library.Multiset"
begin

text \<open>
  Programs that show one library each: publisher and subscriber of a registry (\<^verbatim>\<open>etcd/pub\<close>, \<^verbatim>\<open>etcd/sub\<close>), bulk execution
  (\<^verbatim>\<open>periodicalexecutor\<close>), shared calls (\<^verbatim>\<open>syncx/sharedcalls\<close>), configuration files (\<^verbatim>\<open>config/fromtoml\<close>, \<^verbatim>\<open>config/fromyaml\<close>) and
  logging (\<^verbatim>\<open>logging\<close>). The libraries are parameters, with what the programs rely on as contracts.
\<close>

section \<open>Publisher and subscriber\<close>

text \<open>
  The registry: \<^verbatim>\<open>KeepAlive\<close> registers a value under a key at the given hosts; a subscriber made for hosts and a key lists the values
  registered at one of them. An exclusive subscriber lists no value twice.
\<close>

record ('sub, 'w) discov_lib =
  KeepAlive :: "string list \<Rightarrow> string \<Rightarrow> string \<Rightarrow> 'w \<Rightarrow> 'w \<times> unit result"
  NewSubscriber :: "string list \<Rightarrow> string \<Rightarrow> bool \<Rightarrow> 'w \<Rightarrow> 'w \<times> 'sub result"
  sub_Values :: "'sub \<Rightarrow> 'w \<Rightarrow> string list"

definition discov_ok :: "('sub, 'w) discov_lib \<Rightarrow> ('w \<Rightarrow> string \<Rightarrow> string \<Rightarrow> string set) \<Rightarrow> bool" where
  "discov_ok D stored \<longleftrightarrow>
     (\<forall>hosts key v w w'. KeepAlive D hosts key v w = (w', Inr ()) \<longrightarrow> (\<forall>h \<in> set hosts. v \<in> stored w' h key)) \<and>
     (\<forall>hosts key excl w w' sub. NewSubscriber D hosts key excl w = (w', Inr sub) \<longrightarrow> stored w' = stored w \<and>
        (\<forall>u. set (sub_Values D sub u) = (\<Union>h \<in> set hosts. stored u h key) \<and> (excl \<longrightarrow> distinct (sub_Values D sub u))))"

definition etcd_key :: string where "etcd_key = ''028F2C35852D''"

definition default_hosts :: string where "default_hosts = ''etcd.discovery:2379''"

text \<open>The publisher prints its value once a second, \<open>n\<close> times so far.\<close>

definition pub_main ::
  "('sub, 'w) discov_lib \<Rightarrow> string \<Rightarrow> string \<Rightarrow> string \<Rightarrow> nat \<Rightarrow> 'w \<Rightarrow> 'w \<times> string list result" where
  "pub_main D etcdHosts envHosts value n w =
     (case KeepAlive D (pub_hosts etcdHosts envHosts) etcd_key value w of
        (w, Inl err) \<Rightarrow> (w, Inl err)
      | (w, Inr _) \<Rightarrow> (w, Inr (replicate n value)))"

text \<open>The subscriber prints the values once in three seconds; \<open>us\<close> are the states of the world at its ticks.\<close>

definition sub_main :: "('sub, 'w) discov_lib \<Rightarrow> (string list \<Rightarrow> string) \<Rightarrow> 'w list \<Rightarrow> 'w \<Rightarrow> 'w \<times> string list result" where
  "sub_main D print_list us w =
     (case NewSubscriber D [default_hosts] etcd_key True w of
        (w, Inl err) \<Rightarrow> (w, Inl err)
      | (w, Inr sub) \<Rightarrow> (w, Inr (map (\<lambda>u. ''values: '' @ print_list (sub_Values D sub u)) us)))"

text \<open>
  A publisher with default flags is seen by the subscriber: after its registration every tick in that state prints a list with its
  value, once. The two programs agree on key and host.
\<close>

lemma pub_seen_by_sub:
  assumes ok: "discov_ok D stored" and p: "pub_main D default_hosts [] value n w = (w1, Inr ls)"
    and s: "sub_main D print_list [w1] w0 = (w0', Inr lines)"
  shows "\<exists>vs. lines = [''values: '' @ print_list vs] \<and> value \<in> set vs \<and> distinct vs"
proof -
  have k: "KeepAlive D [default_hosts] etcd_key value w = (w1, Inr ())"
    using p by (auto simp: pub_main_def pub_hosts_def default_hosts_def split: prod.splits sum.splits)
  from s obtain sub where n: "NewSubscriber D [default_hosts] etcd_key True w0 = (w0', Inr sub)"
      "lines = [''values: '' @ print_list (sub_Values D sub w1)]"
    by (auto simp: sub_main_def split: prod.splits sum.splits)
  have "value \<in> stored w1 default_hosts etcd_key" using ok k unfolding discov_ok_def by fastforce
  moreover have "set (sub_Values D sub w1) = stored w1 default_hosts etcd_key \<and> distinct (sub_Values D sub w1)"
    using ok n(1) unfolding discov_ok_def by fastforce
  ultimately show ?thesis using n(2) by blast
qed

section \<open>Bulk execution\<close>

text \<open>
  The executor collects tasks and runs its function on the collected ones, when there are as many as the limit or after a while.
  \<^verbatim>\<open>Add\<close> at a time returns with the batches executed since the call before.
\<close>

record 'e bulk_lib =
  NewBulk :: "nat \<Rightarrow> 'e"
  BulkAdd :: "nat \<Rightarrow> int \<Rightarrow> 'e \<Rightarrow> 'e \<times> int list list \<times> go_error option"

definition bulk_ok :: "'e bulk_lib \<Rightarrow> ('e \<Rightarrow> int list) \<Rightarrow> ('e \<Rightarrow> nat) \<Rightarrow> bool" where
  "bulk_ok B pend lim \<longleftrightarrow> (\<forall>n. pend (NewBulk B n) = [] \<and> lim (NewBulk B n) = n) \<and>
     (\<forall>t x e e' bs. BulkAdd B t x e = (e', bs, None) \<longrightarrow> concat bs @ pend e' = pend e @ [x] \<and> lim e' = lim e \<and>
        (\<forall>b \<in> set bs. b \<noteq> [] \<and> length b \<le> lim e))"

definition pe_print :: "int list list \<Rightarrow> nat list" where "pe_print bs = map length bs"

fun pe_loop :: "'e bulk_lib \<Rightarrow> nat list \<Rightarrow> 'e \<Rightarrow> 'e \<times> nat list \<times> go_error option" where
  "pe_loop B [] e = (e, [], None)"
| "pe_loop B (t # ts) e =
     (case BulkAdd B t 1 e of
        (e, bs, Some err) \<Rightarrow> (e, pe_print bs, Some err)
      | (e, bs, None) \<Rightarrow> (case pe_loop B ts e of (e, ns, r) \<Rightarrow> (e, pe_print bs @ ns, r)))"

definition pe_main :: "'e bulk_lib \<Rightarrow> nat list \<Rightarrow> 'e \<times> nat list \<times> go_error option" where
  "pe_main B at_times = pe_loop B at_times (NewBulk B 10)"

lemma pe_loop_counts:
  assumes "bulk_ok B pend lim" "pe_loop B ts e = (e', ns, None)"
  shows "sum_list ns + length (pend e') = length (pend e) + length ts \<and> (\<forall>n \<in> set ns. 1 \<le> n \<and> n \<le> lim e)"
  using assms(2)
proof (induction ts arbitrary: e e' ns)
  case (Cons t ts)
  obtain e1 bs r where a: "BulkAdd B t 1 e = (e1, bs, r)" by (cases "BulkAdd B t 1 e")
  with Cons.prems have r: "r = None" by (cases r) auto
  with a Cons.prems obtain ns' where l: "pe_loop B ts e1 = (e', ns', None)" "ns = pe_print bs @ ns'"
    by (auto split: prod.splits)
  have b: "concat bs @ pend e1 = pend e @ [1]" "lim e1 = lim e" "\<forall>b \<in> set bs. b \<noteq> [] \<and> length b \<le> lim e"
    using assms(1) a r unfolding bulk_ok_def by blast+
  have "sum_list (pe_print bs) = length (concat bs)" by (simp add: pe_print_def length_concat)
  moreover have "length (concat bs) + length (pend e1) = length (pend e) + 1" using arg_cong [OF b(1), of length] by simp
  moreover have "\<forall>n \<in> set (pe_print bs). 1 \<le> n \<and> n \<le> lim e" using b(3) by (auto simp: pe_print_def Suc_le_eq)
  ultimately show ?case using Cons.IH [OF l(1)] l(2) b(2) by auto
qed simp

text \<open>Every task is executed once or still waiting, and no batch has more than ten.\<close>

lemma pe_main_counts:
  assumes "bulk_ok B pend lim" "pe_main B at_times = (e, ns, None)"
  shows "sum_list ns + length (pend e) = length at_times \<and> (\<forall>n \<in> set ns. 1 \<le> n \<and> n \<le> 10)"
  using pe_loop_counts [OF assms(1), of at_times "NewBulk B 10" e ns] assms unfolding pe_main_def bulk_ok_def by simp

section \<open>Shared calls\<close>

text \<open>
  Five goroutines make the same call. Calls that overlap share one execution: \<open>flights\<close> lists, for each execution, the
  goroutines that got its result; \<open>RandId\<close> gives the value of an execution.
\<close>

definition rounds :: nat where "rounds = 5"

definition shared_fn :: "string \<Rightarrow> string result" where "shared_fn randId = Inr randId"

definition shared_line :: "string result \<Rightarrow> string" where
  "shared_line r = (case r of Inl err \<Rightarrow> err_text err | Inr val \<Rightarrow> val)"

definition sharedcalls_main :: "nat list list \<Rightarrow> (nat \<Rightarrow> string) \<Rightarrow> (nat \<times> string) list" where
  "sharedcalls_main flights RandId =
     concat (map (\<lambda>(f, gs). map (\<lambda>g. (g, shared_line (shared_fn (RandId f)))) gs) (enumerate 0 flights))"

definition flights_ok :: "nat list list \<Rightarrow> bool" where
  "flights_ok flights \<longleftrightarrow> mset (concat flights) = mset [0..<rounds] \<and> [] \<notin> set flights"

lemma shared_goroutines: "map fst (sharedcalls_main flights RandId) = concat flights"
proof -
  have "map fst (concat (map (\<lambda>(f, gs). map (\<lambda>g. (g, h f)) gs) (enumerate n fs))) = concat fs"
    for fs :: "nat list list" and n :: nat and h :: "nat \<Rightarrow> string"
    by (induction fs arbitrary: n) (simp_all add: comp_def)
  then show ?thesis by (simp add: sharedcalls_main_def)
qed

text \<open>Each goroutine prints one line; with at most five executions, and lines are equal exactly within an execution if no two ids are.\<close>

lemma shared_calls:
  assumes "flights_ok flights"
  shows "mset (map fst (sharedcalls_main flights RandId)) = mset [0..<5] \<and> length flights \<le> 5 \<and>
    (inj RandId \<longrightarrow> card (snd ` set (sharedcalls_main flights RandId)) = length flights)"
proof (intro conjI impI)
  show "mset (map fst (sharedcalls_main flights RandId)) = mset [0..<5]"
    unfolding shared_goroutines using assms by (simp add: flights_ok_def rounds_def)
  have ne: "[] \<notin> set flights" and len: "length (concat flights) = 5"
    using assms by (auto simp: flights_ok_def rounds_def dest: arg_cong [of _ _ size])
  have "length fs \<le> length (concat fs)" if "[] \<notin> set fs" for fs :: "nat list list"
    using that
  proof (induction fs)
    case (Cons gs fs)
    then have "1 \<le> length gs" by (cases gs) auto
    with Cons show ?case by simp
  qed simp
  from this [OF ne] show "length flights \<le> 5" using len by simp
  assume inj: "inj RandId"
  have "snd ` set (concat (map (\<lambda>(f, gs). map (\<lambda>g. (g, RandId f)) gs) (enumerate n fs))) = RandId ` {n..<n + length fs}"
    if "[] \<notin> set fs" for fs :: "nat list list" and n :: nat
    using that
  proof (induction fs arbitrary: n)
    case (Cons gs fs)
    then have "gs \<noteq> []" "[] \<notin> set fs" by auto
    then have "snd ` set (map (\<lambda>g. (g, RandId n)) gs) = {RandId n}" by (cases gs) auto
    moreover have "{n..<n + length (gs # fs)} = insert n {Suc n..<Suc n + length fs}" by auto
    ultimately show ?case using Cons.IH [OF \<open>[] \<notin> set fs\<close>, of "Suc n"] by (simp add: image_Un)
  qed simp
  from this [OF ne, of 0] have "snd ` set (sharedcalls_main flights RandId) = RandId ` {0..<length flights}"
    by (simp add: sharedcalls_main_def shared_line_def shared_fn_def)
  then show "card (snd ` set (sharedcalls_main flights RandId)) = length flights"
    using card_image [OF inj_on_subset [OF inj]] by simp
qed

section \<open>Configuration files\<close>

text \<open>
  A field of a configuration struct with its tag: the name, the default, whether it may be missing, the values allowed and the range
  allowed. The library fills the fields from the content of a file: what the file gives, if the tag allows it, otherwise the
  default, otherwise, for an optional field, the zero value.
\<close>

datatype conf_val = CvStr string | CvInt int | CvBool bool

record conf_field =
  cf_name :: string
  cf_zero :: conf_val
  cf_default :: "conf_val option"
  cf_optional :: bool
  cf_options :: "conf_val list"
  cf_range :: "(int \<times> int) option"

definition conf_allows :: "conf_field \<Rightarrow> conf_val \<Rightarrow> bool" where
  "conf_allows f v \<longleftrightarrow> (cf_options f = [] \<or> v \<in> set (cf_options f)) \<and>
     (case cf_range f of None \<Rightarrow> True | Some (a, b) \<Rightarrow> (case v of CvInt n \<Rightarrow> a \<le> n \<and> n \<le> b | _ \<Rightarrow> False))"

definition conf_fill :: "(string \<rightharpoonup> conf_val) \<Rightarrow> conf_field \<Rightarrow> conf_val option" where
  "conf_fill content f =
     (case content (cf_name f) of
        Some v \<Rightarrow> (if conf_allows f v then Some v else None)
      | None \<Rightarrow> (case cf_default f of Some d \<Rightarrow> Some d | None \<Rightarrow> if cf_optional f then Some (cf_zero f) else None))"

type_synonym conf_load = "string \<Rightarrow> conf_field list \<Rightarrow> conf_val list result"

definition conf_ok :: "conf_load \<Rightarrow> (string \<Rightarrow> (string \<rightharpoonup> conf_val) option) \<Rightarrow> bool" where
  "conf_ok Load files \<longleftrightarrow> (\<forall>p fs. case files p of
     None \<Rightarrow> \<exists>err. Load p fs = Inl err
   | Some content \<Rightarrow>
       if \<forall>f \<in> set fs. conf_fill content f \<noteq> None then Load p fs = Inr (map (\<lambda>f. the (conf_fill content f)) fs)
       else \<exists>err. Load p fs = Inl err)"

lemma conf_ok_fills:
  assumes "conf_ok Load files" "files p = Some content" "\<forall>f \<in> set fs. conf_fill content f \<noteq> None"
  shows "Load p fs = Inr (map (\<lambda>f. the (conf_fill content f)) fs)"
proof -
  from assms(1) have "case files p of None \<Rightarrow> \<exists>err. Load p fs = Inl err | Some content \<Rightarrow>
      if \<forall>f \<in> set fs. conf_fill content f \<noteq> None then Load p fs = Inr (map (\<lambda>f. the (conf_fill content f)) fs)
      else \<exists>err. Load p fs = Inl err"
    unfolding conf_ok_def by blast
  then show ?thesis unfolding assms(2) option.case if_P [OF assms(3)] .
qed

lemma conf_ok_rejects:
  assumes "conf_ok Load files" "files p = Some content" "f \<in> set fs" "conf_fill content f = None"
  shows "\<exists>err. Load p fs = Inl err"
proof -
  have n: "\<not> (\<forall>f \<in> set fs. conf_fill content f \<noteq> None)" using assms(3,4) by blast
  from assms(1) have "case files p of None \<Rightarrow> \<exists>err. Load p fs = Inl err | Some content \<Rightarrow>
      if \<forall>f \<in> set fs. conf_fill content f \<noteq> None then Load p fs = Inr (map (\<lambda>f. the (conf_fill content f)) fs)
      else \<exists>err. Load p fs = Inl err"
    unfolding conf_ok_def by blast
  then show ?thesis unfolding assms(2) option.case if_not_P [OF n] .
qed

definition plain_field :: "string \<Rightarrow> conf_val \<Rightarrow> conf_field" where
  "plain_field n z = \<lparr>cf_name = n, cf_zero = z, cf_default = None, cf_optional = False, cf_options = [], cf_range = None\<rparr>"

text \<open>The struct and its tags; the timeout is in nanoseconds.\<close>

record toml_Config =
  tm_Host :: string
  tm_Port :: int
  tm_LogMode :: string
  tm_Verbose :: bool
  tm_MaxConns :: int
  tm_MaxBytes :: int
  tm_Timeout :: int
  tm_CpuThreshold :: int

definition toml_fields :: "conf_field list" where
  "toml_fields =
     [(plain_field ''Host'' (CvStr []))\<lparr>cf_default := Some (CvStr ''0.0.0.0'')\<rparr>,
      plain_field ''Port'' (CvInt 0),
      (plain_field ''LogMode'' (CvStr []))\<lparr>cf_options := [CvStr ''file'', CvStr ''console'']\<rparr>,
      (plain_field ''Verbose'' (CvBool False))\<lparr>cf_optional := True\<rparr>,
      (plain_field ''MaxConns'' (CvInt 0))\<lparr>cf_default := Some (CvInt 10000)\<rparr>,
      (plain_field ''MaxBytes'' (CvInt 0))\<lparr>cf_default := Some (CvInt 1048576)\<rparr>,
      (plain_field ''Timeout'' (CvInt 0))\<lparr>cf_default := Some (CvInt 3000000000)\<rparr>,
      (plain_field ''CpuThreshold'' (CvInt 0))\<lparr>cf_default := Some (CvInt 900), cf_range := Some (0, 1000)\<rparr>]"

fun toml_of :: "conf_val list \<Rightarrow> toml_Config option" where
  "toml_of [CvStr h, CvInt p, CvStr l, CvBool v, CvInt mc, CvInt mb, CvInt t, CvInt cpu] =
     Some \<lparr>tm_Host = h, tm_Port = p, tm_LogMode = l, tm_Verbose = v, tm_MaxConns = mc, tm_MaxBytes = mb, tm_Timeout = t, tm_CpuThreshold = cpu\<rparr>"
| "toml_of _ = None"

text \<open>The program dumps what it loaded; an error ends it. \<open>None\<close> would be values of wrong types, which the library rejects.\<close>

definition toml_main :: "conf_load \<Rightarrow> toml_Config option result" where
  "toml_main Load = (case Load ''config.toml'' toml_fields of Inl err \<Rightarrow> Inl err | Inr vs \<Rightarrow> Inr (toml_of vs))"

text \<open>With the repository's file, which sets three of the fields, the program dumps those and the defaults.\<close>

definition repo_toml :: "string \<rightharpoonup> conf_val" where
  "repo_toml = [''Port'' \<mapsto> CvInt 8080, ''LogMode'' \<mapsto> CvStr ''console'', ''MaxBytes'' \<mapsto> CvInt 1048576]"

lemma toml_main_dumps:
  assumes "conf_ok Load files" "files ''config.toml'' = Some repo_toml"
  shows "toml_main Load = Inr (Some \<lparr>tm_Host = ''0.0.0.0'', tm_Port = 8080, tm_LogMode = ''console'', tm_Verbose = False,
    tm_MaxConns = 10000, tm_MaxBytes = 1048576, tm_Timeout = 3000000000, tm_CpuThreshold = 900\<rparr>)"
proof -
  have f: "map (conf_fill repo_toml) toml_fields =
      [Some (CvStr ''0.0.0.0''), Some (CvInt 8080), Some (CvStr ''console''), Some (CvBool False), Some (CvInt 10000), Some (CvInt 1048576),
       Some (CvInt 3000000000), Some (CvInt 900)]"
    by (simp add: toml_fields_def plain_field_def conf_fill_def repo_toml_def conf_allows_def)
  then have "None \<notin> set (map (conf_fill repo_toml) toml_fields)" by simp
  then have "\<forall>x \<in> set toml_fields. conf_fill repo_toml x \<noteq> None" by (metis image_eqI set_map)
  from conf_ok_fills [OF assms this] have "Load ''config.toml'' toml_fields = Inr (map the (map (conf_fill repo_toml) toml_fields))"
    by (simp add: comp_def)
  then show ?thesis unfolding f by (simp add: toml_main_def)
qed

text \<open>A threshold beyond its range or an unknown log mode ends the program.\<close>

lemma toml_main_rejects:
  assumes "conf_ok Load files" "files ''config.toml'' = Some content"
    and "content ''CpuThreshold'' = Some (CvInt n) \<and> 1000 < n \<or> content ''LogMode'' = Some (CvStr m) \<and> m \<notin> {''file'', ''console''}"
  shows "\<exists>err. toml_main Load = Inl err"
proof -
  let ?log = "(plain_field ''LogMode'' (CvStr []))\<lparr>cf_options := [CvStr ''file'', CvStr ''console'']\<rparr>"
    and ?cpu = "(plain_field ''CpuThreshold'' (CvInt 0))\<lparr>cf_default := Some (CvInt 900), cf_range := Some (0, 1000)\<rparr>"
  have m: "?log \<in> set toml_fields" "?cpu \<in> set toml_fields" by (simp_all add: toml_fields_def)
  have "conf_fill content ?log = None \<or> conf_fill content ?cpu = None"
    using assms(3) by (auto simp: conf_fill_def conf_allows_def plain_field_def)
  with m obtain err where "Load ''config.toml'' toml_fields = Inl err" using conf_ok_rejects [OF assms(1,2)] by blast
  then show ?thesis by (simp add: toml_main_def)
qed

text \<open>The other program only logs an error of loading and goes on with the zero struct.\<close>

record TimeHolder = th_Date :: string

definition yaml_main :: "(string \<Rightarrow> TimeHolder result) \<Rightarrow> (TimeHolder \<Rightarrow> string) \<Rightarrow> (log_level \<times> string) list" where
  "yaml_main LoadConfig print_holder =
     (let th = \<lparr>th_Date = []\<rparr>
      in case LoadConfig ''./date.yml'' of
           Inl err \<Rightarrow> [(LError, err_text err), (LInfo, print_holder th)]
         | Inr th \<Rightarrow> [(LInfo, print_holder th)])"

section \<open>Logging\<close>

text \<open>Calls of the logging package: the writer's method they end in, the duration given with them and the text.\<close>

datatype logx_level = LxInfo | LxError | LxStack | LxSevere | LxSlow | LxStat

type_synonym logx_call = "logx_level \<times> nat option \<times> string"

definition second :: nat where "second = 1000000000"

definition logging_foo :: "logx_call list" where
  "logging_foo = [(LxError, Some second, ''world'')]"

definition logging_main :: "logx_call list" where
  "logging_main =
     [(LxInfo, None, ''info''), (LxError, None, ''error''), (LxStack, None, ''hello''), (LxError, None, ''hello'' @ '' and '' @ ''world''),
      (LxSevere, None, ''hello'' @ '' severe '' @ ''world''), (LxSlow, None, ''hello'' @ '' slow '' @ ''world''),
      (LxStat, None, ''hello'' @ '' stat '' @ ''world''), (LxInfo, Some (60 * second + second), ''hello''),
      (LxError, Some (60 * second + second), ''hello'')] @ logging_foo"

text \<open>The redirector logs its line and prints it; only the standard logger is redirected, so the print goes out as it is.\<close>

definition redirector_main :: "logx_call list \<times> string" where
  "redirector_main = (let line = ''asdkg'' in ([(LxInfo, None, line)], line))"

end
