(* ===== verification/Rest_Servers.thy ===== *)
theory Rest_Servers
  imports Http_Examples Small_Programs Service_Mains
begin

text \<open>
  The programs around the sample servers of \<open>Http_Examples\<close> (\<^verbatim>\<open>http/cors\<close>, \<^verbatim>\<open>demo\<close>, \<^verbatim>\<open>group\<close>, \<^verbatim>\<open>middleware\<close>, \<^verbatim>\<open>post\<close>, \<^verbatim>\<open>wildcard\<close>,
  \<^verbatim>\<open>httpc/server\<close>, \<^verbatim>\<open>withtimeout\<close>) and around the static file server: the configuration each one starts its server with, from its flags or
  from a file, and what that configuration means for its requests. The server of the TLS short-URL service, whose
  configuration names the table, is here too.
\<close>

section \<open>Configurations\<close>

text \<open>
  The fields of \<^verbatim>\<open>rest.RestConf\<close> that the programs set; the others stay zero. Numbers are \<^verbatim>\<open>int\<close> and \<^verbatim>\<open>int64\<close>. A timeout that is not
  positive is none.
\<close>

record rest_conf =
  cf_LogMode :: string
  cf_Host :: string
  cf_Port :: "64 word"
  cf_Timeout :: "64 word"
  cf_MaxConns :: "64 word"
  cf_MaxBytes :: "64 word"
  cf_CpuThreshold :: "64 word"

definition rest_zero :: rest_conf where
  "rest_zero = \<lparr>cf_LogMode = [], cf_Host = [], cf_Port = 0, cf_Timeout = 0, cf_MaxConns = 0, cf_MaxBytes = 0, cf_CpuThreshold = 0\<rparr>"

definition conf_timeout :: "rest_conf \<Rightarrow> nat" where
  "conf_timeout c = nat (sint (cf_Timeout c))"

text \<open>A started program: its configuration, whether cross-origin requests are allowed, and its server.\<close>

record 'q rest_program =
  pr_conf :: rest_conf
  pr_cors :: bool
  pr_server :: "'q http_server"

text \<open>\<open>MustNewServer\<close> ends the process when the configuration cannot be set up; then nothing is served.\<close>

definition serve ::
  "(rest_conf \<Rightarrow> unit result) \<Rightarrow> rest_conf \<Rightarrow> bool \<Rightarrow> 'q http_server \<Rightarrow> 'q rest_program result" where
  "serve MustNewServer c cors S = and_then (MustNewServer c) (\<lambda>_. Inr \<lparr>pr_conf = c, pr_cors = cors, pr_server = S\<rparr>)"

lemma serve_ok: "serve MustNewServer c cors S = Inr p \<longleftrightarrow>
  MustNewServer c = Inr () \<and> p = \<lparr>pr_conf = c, pr_cors = cors, pr_server = S\<rparr>"
  by (auto simp: serve_def and_then_ok)

section \<open>Programs configured by flags\<close>

definition demo_main ::
  "(rest_conf \<Rightarrow> unit result) \<Rightarrow> 64 word \<Rightarrow> 64 word \<Rightarrow> ('q, 'c) http_lib \<Rightarrow> 'q rest_program result" where
  "demo_main MustNewServer port timeout H =
     (let c = rest_zero\<lparr>cf_LogMode := ''console'', cf_Port := port, cf_Timeout := timeout, cf_MaxConns := 500\<rparr>
      in serve MustNewServer c False (demo_server (conf_timeout c) H))"

definition group_main :: "(rest_conf \<Rightarrow> unit result) \<Rightarrow> 64 word \<Rightarrow> ('q, 'c) http_lib \<Rightarrow> 'q rest_program result" where
  "group_main MustNewServer port H =
     (let c = rest_zero\<lparr>cf_LogMode := ''console'', cf_Port := port\<rparr> in serve MustNewServer c False (group_server H))"

definition middleware_main ::
  "(rest_conf \<Rightarrow> unit result) \<Rightarrow> 64 word \<Rightarrow> ('q \<Rightarrow> string) \<Rightarrow> ('q, 'c) http_lib \<Rightarrow> 'q rest_program result" where
  "middleware_main MustNewServer port token H =
     (let c = rest_zero\<lparr>cf_LogMode := ''console'', cf_Port := port\<rparr> in serve MustNewServer c False (middleware_server token H))"

definition post_main ::
  "(rest_conf \<Rightarrow> unit result) \<Rightarrow> 64 word \<Rightarrow> 64 word \<Rightarrow> (int \<Rightarrow> string) \<Rightarrow> ('q \<Rightarrow> int) \<Rightarrow> ('q, 'c) http_lib \<Rightarrow> 'q rest_program result" where
  "post_main MustNewServer port timeout decimal contentLength H =
     (let c = rest_zero\<lparr>cf_LogMode := ''console'', cf_Port := port, cf_Timeout := timeout, cf_MaxConns := 500, cf_MaxBytes := 50,
        cf_CpuThreshold := 500\<rparr>
      in serve MustNewServer c False (post_server (conf_timeout c) decimal contentLength H))"

definition wildcard_main ::
  "(rest_conf \<Rightarrow> unit result) \<Rightarrow> 64 word \<Rightarrow> ('q \<Rightarrow> string) \<Rightarrow> ('q, 'c) http_lib \<Rightarrow> 'q rest_program result" where
  "wildcard_main MustNewServer port urlPath H =
     (let c = rest_zero\<lparr>cf_LogMode := ''console'', cf_Host := ''localhost'', cf_Port := port, cf_MaxConns := 500\<rparr>
      in serve MustNewServer c False (wildcard_server urlPath H))"

definition httpc_server_main :: "(rest_conf \<Rightarrow> unit result) \<Rightarrow> 64 word \<Rightarrow> ('q, 'c) http_lib \<Rightarrow> 'q rest_program result" where
  "httpc_server_main MustNewServer port H =
     (let c = rest_zero\<lparr>cf_LogMode := ''console'', cf_Port := port\<rparr> in serve MustNewServer c False (httpc_server H))"

section \<open>Programs configured by a file\<close>

definition cors_main ::
  "(string \<Rightarrow> rest_conf result) \<Rightarrow> (rest_conf \<Rightarrow> unit result) \<Rightarrow> ('q, 'c) http_lib \<Rightarrow> string \<Rightarrow> 'q rest_program result" where
  "cors_main MustLoad MustNewServer H configFile =
     and_then (MustLoad configFile) (\<lambda>c. serve MustNewServer c True (cors_server (conf_timeout c) H))"

definition wt_main ::
  "(string \<Rightarrow> rest_conf result) \<Rightarrow> (rest_conf \<Rightarrow> unit result) \<Rightarrow> ('q, 'c) http_lib \<Rightarrow> string \<Rightarrow> 'q rest_program result" where
  "wt_main MustLoad MustNewServer H configFile =
     and_then (MustLoad configFile) (\<lambda>c. serve MustNewServer c False (wt_server (conf_timeout c) H))"

definition static_program ::
  "(string \<Rightarrow> rest_conf result) \<Rightarrow> (rest_conf \<Rightarrow> unit result) \<Rightarrow> string \<Rightarrow>
   (rest_conf \<times> (string \<times> string \<times> (string \<Rightarrow> static_answer)) list) result" where
  "static_program MustLoad MustNewServer configFile =
     and_then (MustLoad configFile) (\<lambda>c. and_then (MustNewServer c) (\<lambda>_. Inr (c, static_main)))"

text \<open>A started static server never opens a file outside its directory.\<close>

lemma static_program_confined:
  assumes "static_program MustLoad MustNewServer f = Inr (c, rts)" "(m, pat, h) \<in> set rts" "h p = OpensFile q"
  shows "q = ''assets'' \<or> prefix ''assets/'' q"
  using assms static_confined by (auto simp: static_program_def and_then_ok)

text \<open>Which timeout counts for a route: the flag's or the file's where the route sets none.\<close>

lemma started_timeouts:
  "demo_main N port t H = Inr p \<Longrightarrow> rt \<in> set (hs_routes (pr_server p)) \<Longrightarrow> route_timeout (pr_server p) rt = nat (sint t)"
  "group_main N port H = Inr p' \<Longrightarrow> rt' \<in> set (hs_routes (pr_server p')) \<Longrightarrow> route_timeout (pr_server p') rt' = 0"
  "wt_main L N H f = Inr p'' \<Longrightarrow> rt'' \<in> set (hs_routes (pr_server p'')) \<Longrightarrow> route_timeout (pr_server p'') rt'' \<in> {1000, 5000}"
  by (auto simp: demo_main_def group_main_def wt_main_def serve_ok Let_def and_then_ok conf_timeout_def rest_zero_def demo_server_def
      group_server_def wt_server_def route_timeout_def get_def with_prefix_def with_timeout_def)

section \<open>The limit on bodies\<close>

text \<open>
  The library's handler for body limits is a parameter: given the maximum, it refuses a request with a greater content length with status 413
  and passes other requests on; a maximum that is not positive is none.
\<close>

definition max_bytes_ok :: "(int \<Rightarrow> ('q \<Rightarrow> http_write list) \<Rightarrow> 'q \<Rightarrow> http_write list) \<Rightarrow> ('q \<Rightarrow> int) \<Rightarrow> bool" where
  "max_bytes_ok limit contentLength \<longleftrightarrow> (\<forall>n next r.
     limit n next r = (if 0 < n \<and> n < contentLength r then [HttpStatus 413] else next r))"

definition program_answer ::
  "(int \<Rightarrow> ('q \<Rightarrow> http_write list) \<Rightarrow> 'q \<Rightarrow> http_write list) \<Rightarrow> 'q rest_lib \<Rightarrow> 'q rest_program \<Rightarrow> string \<Rightarrow> string \<Rightarrow> 'q \<Rightarrow> http_write list" where
  "program_answer limit R p m pat = limit (sint (cf_MaxBytes (pr_conf p))) (answer R (pr_server p) m pat)"

text \<open>
  The echo program answers a body of at most 50 bytes with its lengths, and never one that is longer: whatever is posted, it is refused,
  found malformed or the content length reported is at most 50.
\<close>

lemma post_program_limited:
  assumes "post_main N port timeout decimal contentLength H = Inr p" "rest_ok R" and L: "max_bytes_ok limit contentLength"
  shows "50 < contentLength r \<Longrightarrow> program_answer limit R p ''POST'' ''/'' r = [HttpStatus 413]"
    and "contentLength r \<le> 50 \<Longrightarrow> program_answer limit R p ''POST'' ''/'' r =
      TimeoutHandler R (nat (sint timeout)) (post_handlePost decimal contentLength H) r"
    and "contentLength r \<le> 50 \<Longrightarrow> Parse H r [(JsonField, ''user'', JStr [])] = Inr vs \<Longrightarrow>
      program_answer limit R p ''POST'' ''/'' r = [HttpJsonStr (''Content-Length: '' @ decimal (contentLength r) @
        '', UserLen: '' @ decimal (int (length (field_str 0 vs))))]"
proof -
  have p: "pr_conf p = rest_zero\<lparr>cf_LogMode := ''console'', cf_Port := port, cf_Timeout := timeout, cf_MaxConns := 500, cf_MaxBytes := 50,
      cf_CpuThreshold := 500\<rparr>" "pr_server p = post_server (nat (sint timeout)) decimal contentLength H"
    using assms(1) by (simp_all add: post_main_def Let_def serve_ok conf_timeout_def)
  show "50 < contentLength r \<Longrightarrow> program_answer limit R p ''POST'' ''/'' r = [HttpStatus 413]"
    by (simp add: program_answer_def L [unfolded max_bytes_ok_def] p)
  show ok: "contentLength r \<le> 50 \<Longrightarrow> program_answer limit R p ''POST'' ''/'' r =
      TimeoutHandler R (nat (sint timeout)) (post_handlePost decimal contentLength H) r"
    by (simp add: program_answer_def L [unfolded max_bytes_ok_def] p answer_def post_server_def get_def post_def route_timeout_def rest_okD(1) [OF assms(2)])
  have d: "fst (post_handlePost decimal contentLength H r) = 0"
    by (simp add: post_handlePost_def at_once_def split: sum.splits)
  have "TimeoutHandler R (nat (sint timeout)) (post_handlePost decimal contentLength H) r = snd (post_handlePost decimal contentLength H r)"
    using timed_at_once [OF assms(2)] d by blast
  with ok show "contentLength r \<le> 50 \<Longrightarrow> Parse H r [(JsonField, ''user'', JStr [])] = Inr vs \<Longrightarrow>
      program_answer limit R p ''POST'' ''/'' r = [HttpJsonStr (''Content-Length: '' @ decimal (contentLength r) @
        '', UserLen: '' @ decimal (int (length (field_str 0 vs))))]"
    by (simp add: post_handlePost_def at_once_def)
qed

section \<open>The TLS short-URL server\<close>

record 'e tls_rpc_Config = RpcServerConf +
  tr_DataSource :: string
  tr_Table :: string
  tr_Cache :: 'e

text \<open>
  The program: configuration, service context on the configured table, server, then the credentials, without which it ends; it prints its
  line after that.
\<close>

definition tls_rpc_main ::
  "(string \<Rightarrow> 'e tls_rpc_Config result) \<Rightarrow> (string \<Rightarrow> 'e \<Rightarrow> (unit, Shorturl, 'w) mysql_lib) \<Rightarrow> ('cert, 'pool, 'cred) tls_lib \<Rightarrow>
   (string \<Rightarrow> string) \<Rightarrow> (RpcServerConf \<Rightarrow> unit result) \<Rightarrow> string \<Rightarrow> ((('c, 'w) TransformerServer \<times> 'cred) rpc_program) result" where
  "tls_rpc_main MustLoad Open X md5hex NewServer configFile =
     and_then (MustLoad configFile) (\<lambda>c.
     and_then (tls_server_main X md5hex (Open (tr_DataSource c) (tr_Cache c)) (tr_Table c) (NewServer (RpcServerConf.truncate c))) (\<lambda>s.
       Inr \<lparr>rp_listen = rs_ListenOn c, rp_impl = s, rp_lines = [starting_rpc (rs_ListenOn c)]\<rparr>))"

text \<open>When it serves, it serves the configured table with the credentials of its key pair; a process that ends printed no line.\<close>

lemma tls_rpc_started:
  assumes "tls_rpc_main MustLoad Open X md5hex NewServer f = Inr p"
  obtains c cred where "MustLoad f = Inr c" "server_loadTLSCredentials X = Inr cred"
    "rp_impl p = (tls_NewTransformerServer md5hex
       (tls_NewShorturlModel (Open (tr_DataSource c) (tr_Cache c)) (Mysql (Open (tr_DataSource c) (tr_Cache c))) (tr_Table c)), cred)"
proof -
  obtain c where c: "MustLoad f = Inr c"
    "tls_server_main X md5hex (Open (tr_DataSource c) (tr_Cache c)) (tr_Table c) (NewServer (RpcServerConf.truncate c)) = Inr (rp_impl p)"
    using assms by (auto simp: tls_rpc_main_def and_then_ok)
  then obtain cred where "server_loadTLSCredentials X = Inr cred"
    "rp_impl p = (tls_NewTransformerServer md5hex (tls_rpc_NewServiceContext (Open (tr_DataSource c) (tr_Cache c)) (tr_Table c)), cred)"
    by (cases "NewServer (RpcServerConf.truncate c)") (auto simp: tls_server_main_def Let_def split: sum.splits)
  with c(1) that show thesis by (simp add: tls_rpc_NewServiceContext_def)
qed

end
