(* ===== verification/Spec2Isabelle.thy ===== *)
theory Spec2Isabelle
  imports Service_Mains Mocks Map_Reduce_Programs Worker_Group Load_Generator Breaker_Client Breaker_Simulation Http_Examples
    Word_Vectors Log_Demos Greet_Services Stream_Greeter Signed_Requests Process_Demos Small_Programs
    Worker_Pool Greet_Mains Timer_Demos Map_Reduce_Mains Process_Mains Http_Mains Library_Demos Rest_Servers
begin

text \<open>
  \<^bold>\<open>zero-examples: a verification development.\<close>

  The repository is a collection of programs built on the go-zero framework. Each program is a component here; some are
  layered services (HTTP API, RPC client, RPC server, table model), others single processes with goroutines,
  others sample servers and clients. The libraries they are built on (\<^verbatim>\<open>zrpc\<close> and gRPC, \<^verbatim>\<open>rest\<close>, \<^verbatim>\<open>sqlx\<close> and \<^verbatim>\<open>sqlc\<close>,
  \<^verbatim>\<open>mr\<close>, \<^verbatim>\<open>fx\<close>, \<^verbatim>\<open>codec\<close>, registries) are not part of the repository: they are arguments of the definitions, and
  what a property needs of them is a named contract among its hypotheses, shown to be satisfiable by its witness.
  Go's own library is modelled where the sources use it.

  \<^bold>\<open>Shared theories.\<close>

  \<^item> \<open>Go_Prelude\<close>: errors and results, channels, byte strings and UTF-8, \<^verbatim>\<open>strings\<close> and \<^verbatim>\<open>strconv\<close> functions, and the
    locales \<open>machine\<close> (initial states, step relation, invariant), which every concurrent component interprets, and
    \<open>bounded_machine\<close>, which adds an amount of work that every step uses up.
  \<^item> \<open>Service_Lib\<close>: contracts of gRPC (\<open>grpc_ok\<close>, \<open>grpc_serves\<close>), JSON and HTTP parsing; the locales
    \<open>unary_rpc\<close>, \<open>generated_stub\<close>, \<open>logged_handler\<close> and \<open>parsed_handler\<close> between the layers of a service; the router.
  \<^item> \<open>Cached_Store\<close>: the contract of the cached SQL connection, a reference implementation of it, and the interface
    \<open>kv_store\<close> that the table models offer. The key column compares strings under a collation, a parameter that may ignore case
    as the repository's schemas do; the cache compares bytes. Strings that are not valid UTF-8 are outside the contract.
  \<^item> \<open>Digests\<close>: SHA-256, HMAC, base64 and hexadecimal, executable, with the base64 round trip.

  \<^bold>\<open>Components.\<close>

  \<^item> \<open>Chat_Hub\<close> (\<^verbatim>\<open>chat\<close>): the hub's select loop with its maps and channels, each client's read and write pump as program
    points; one step relation interleaves them all. C1: no send on or second close of a closed channel; C2:
    order and framing of messages; C3, C4: the broadcast loop ends and reaches everybody; C5: channel bounds.
  \<^item> \<open>Sse_Server\<close> (\<^verbatim>\<open>http/sse\<close>): connections and the event loop over a map without a lock. C6: what clients receive; C7: what the map and the
    channels are, and the three ways in which the process ends; C8: the run that sends on a closed channel.
  \<^item> \<open>Shorturl_Model\<close>, \<open>Shorturl_Service\<close> (\<^verbatim>\<open>shorturl\<close>): statements and cache keys, every table operation as a refinement
    of a map for consistently spelled keys (C9), stale rows for other spellings (C22), and the whole path from HTTP through RPC to the table (C11).
  \<^item> \<open>Mocks\<close>: the generated mocks of the short-URL model and client, and the service's logic over them: a mocked call
    decides the answer, and no other method of the mock is called.
  \<^item> \<open>Book_Model\<close>, \<open>Book_Service\<close> (\<^verbatim>\<open>bookstore\<close>): as above, with the model's broken update (C13) and stale
    absences (C14), and the services end to end.
  \<^item> \<open>Tls_Shorturl\<close> (\<^verbatim>\<open>rpc/tls/shorturl\<close>): the same service over TLS with its own model and credential loading. C19:
    a new link expands; C34: one that was looked up too early does not.
  \<^item> \<open>Service_Mains\<close>: configurations, service contexts and mains of the services above, of the file services and of the
    graceful and gateway demos; started programs meet the hypotheses of the services' theorems. C10: a short link is never
    lost; C16: a book added is found.
  \<^item> \<open>Map_Reduce\<close>, \<open>Map_Reduce_Programs\<close> (\<^verbatim>\<open>mapreduce\<close>, \<^verbatim>\<open>fx\<close>): the function counter's line reader and counting goroutine
    (C23--C25) and the smaller programs under every schedule (C27). \<open>Map_Reduce_Mains\<close>: the mains, with the goroutine
    leak program as a step relation.
  \<^item> \<open>Traffic_Counters\<close> (\<^verbatim>\<open>breaker\<close>, \<^verbatim>\<open>http/breaker/client\<close>, \<^verbatim>\<open>load\<close>, \<^verbatim>\<open>limit\<close>): atomic counters at their width; the
    locale \<open>ledger\<close> is their conservation law. C30.
  \<^item> \<open>Worker_Group\<close> (\<^verbatim>\<open>limit\<close>): the limiter clients' workers, timer and wait group. C18: exact counts; C21: they end.
  \<^item> \<open>Load_Generator\<close> (\<^verbatim>\<open>load/main.go\<close>): batches and request goroutines step by step, with averages, windows and rows (C33).
  \<^item> \<open>Breaker_Client\<close> (\<^verbatim>\<open>http/breaker/client\<close>): both request loops, reporter and main as one process (C29);
    \<open>Breaker_Simulation\<close> (\<^verbatim>\<open>breaker/main.go\<close>): the same of the simulation with its flipping server (C31).
  \<^item> \<open>Http_Examples\<close> (\<^verbatim>\<open>http/cors\<close>, \<^verbatim>\<open>demo\<close>, \<^verbatim>\<open>group\<close>, \<^verbatim>\<open>middleware\<close>, \<^verbatim>\<open>post\<close>, \<^verbatim>\<open>wildcard\<close>, \<^verbatim>\<open>httpc\<close>, \<^verbatim>\<open>withtimeout\<close>, \<^verbatim>\<open>timeout\<close>, \<^verbatim>\<open>jwt\<close>):
    tokens (C36), and lemmas on the middlewares and the timeouts; the library's middleware chain, timeouts, cross-origin headers and token
    check are the parameters \<open>rest_lib\<close> and \<open>jwt_lib\<close>.
    \<open>Http_Mains\<close>: the logic objects, contexts and mains of these programs, of the file servers and of the gateway; \<open>Rest_Servers\<close>:
    the programs of the other sample servers with their configurations (the echo program refuses bodies above 50 bytes), and the
    program of the TLS short-URL server.
  \<^item> \<open>File_Server\<close> (\<^verbatim>\<open>http/upload\<close>, \<^verbatim>\<open>http/download\<close>, \<^verbatim>\<open>monolithic\<close>): upload and download over a file system with a working directory and
    limited space, without symbolic links. C37: what is downloaded after an upload; C38: uploads stay in their directory.
  \<^item> \<open>Word_Vectors\<close> (\<^verbatim>\<open>filex\<close>): the chunked loader equals reading line by line (C39).
  \<^item> \<open>Log_Writers\<close> (\<^verbatim>\<open>logx/fileconsole\<close>, \<^verbatim>\<open>logx/filterfields\<close>, \<^verbatim>\<open>logx/tokafka\<close>): what custom writers deliver (C40);
    \<open>Log_Demos\<close>: what the programs around them and around three other loggers log.
  \<^item> \<open>Greet_Protocols\<close>, \<open>Greet_Services\<close> (\<^verbatim>\<open>rpc\<close>, \<^verbatim>\<open>discovery\<close>): generated packages; five greeting servers with interceptors,
    six clients, load balancing and the proxy. C20: the proxy is transparent. \<open>Greet_Mains\<close>: the client programs from the command
    line to what they print, over those servers. C32: what every program prints.
  \<^item> \<open>Relay_Services\<close> (\<^verbatim>\<open>tracing\<close>, \<^verbatim>\<open>graceful\<close>, \<^verbatim>\<open>gateway\<close>): chains of services; the tracing chain answers 200 with the text of a failure (C26).
  \<^item> \<open>Stream_Greeter\<close> (\<^verbatim>\<open>rpc/server/stream\<close>, \<^verbatim>\<open>rpc/client/stream\<close>): the session of two client goroutines, wait group and
    server loop, over a connection that may break. C15: invariant; C17: it ends.
  \<^item> \<open>Signed_Requests\<close> (\<^verbatim>\<open>http/signature\<close>): signing, encryption and the server's key file; C28: a signed request is
    answered.
  \<^item> \<open>Process_Demos\<close> (\<^verbatim>\<open>signal\<close>, \<^verbatim>\<open>servicegroup\<close>, \<^verbatim>\<open>http/breaker/server.go\<close>, the schedule of \<^verbatim>\<open>load/main.go\<close>, \<^verbatim>\<open>timingwheel\<close>): lemmas that a
    signalled process ends, that services of a group share their paths, that at most ten heavy requests
    spin, and that the load test's request numbers do not repeat. \<open>Process_Mains\<close>: the mains of these and of the breaker,
    load and limiter programs, with the result files they write.
  \<^item> \<open>Timer_Demos\<close> (\<^verbatim>\<open>timingwheel\<close>): both modes of the timing wheel program as refinements of one job runner, and the leak
    program.
  \<^item> \<open>Worker_Pool\<close> (\<^verbatim>\<open>pool\<close>): a hundred workers that take and return resources of a bounded pool until a channel is
    closed. C35: every resource is an integer that was counted once; C12: no deadlock, and after the close every
    run ends with the total printed.
  \<^item> \<open>Small_Programs\<close> (\<^verbatim>\<open>http/static\<close>, \<^verbatim>\<open>http/shedding\<close>, \<^verbatim>\<open>load/simulate/server\<close>, \<^verbatim>\<open>mon\<close>, \<^verbatim>\<open>bloom\<close>, \<^verbatim>\<open>siphash\<close>, \<^verbatim>\<open>etcd/pub\<close>, \<^verbatim>\<open>mapreduce/finishvoid\<close>
    and the mains of chat and event stream): lemmas that static files stay inside their directory, that the
    document program restores its first time, and the like.
  \<^item> \<open>Library_Demos\<close> (\<^verbatim>\<open>etcd\<close>, \<^verbatim>\<open>periodicalexecutor\<close>, \<^verbatim>\<open>syncx\<close>, \<^verbatim>\<open>config\<close>, \<^verbatim>\<open>logging\<close>): programs around one library object: publishing and
    subscribing, bulk execution, shared calls, configuration files and logging.

  \<^bold>\<open>Bounds.\<close> No definition uses fuel: functions are total and loops that may run for ever are step relations. The
  streaming session has at most 23 steps: six for each of three requests, and five around them. The secret of a
  signed request has at most 95 characters for every 64-bit time, and the cipher takes 117. A limiter client whose
  timer has fired takes two steps for each worker and two for its main goroutine; the load generator thirteen for each of
  its \<open>5 * seconds * (seconds + 2)\<close> requests, two for each batch and three more. A pool whose channel is
  closed takes at most 603 steps: six for each worker and three for the main goroutine.

  \<^bold>\<open>Not modelled.\<close> The compressed file descriptors of the protobuf packages; tests; the arithmetic of floating-point
  numbers, which is a parameter; log output of libraries; progress bars, profiles and flags; and the string filter and replacer
  programs, which only print what a library answers on fixed inputs.
\<close>

end
